(* ===== verification/Prelude.thy ===== *)
theory Prelude
  imports Main "HOL-Library.Word"
begin

text \<open>
  Shared vocabulary of the development: the machine integers of the driver and
  the firmware, the kernel's error numbers, little-endian encodings of words as
  byte lists with their two round-trip laws, and generic facts on lists and
  words. The collections \<open>wire_simps\<close> (layout of encoded frames) and
  \<open>frame_simps\<close> (what an operation leaves unchanged) carry the proofs of
  the component theories.
\<close>

unbundle bit_operations_syntax

named_theorems wire_simps \<open>lengths and layout of encoded frames\<close>
named_theorems frame_simps \<open>fields that an operation leaves unchanged\<close>

type_synonym u4 = "4 word"
type_synonym u8 = "8 word"
type_synonym u16 = "16 word"
type_synonym u32 = "32 word"
type_synonym u64 = "64 word"
type_synonym bytes = "u8 list"

section \<open>Error numbers of the Linux kernel\<close>

text \<open>Functions of the host driver return 0 or a negated error number.\<close>

abbreviation (input) EIO :: int where "EIO \<equiv> 5"
abbreviation (input) EAGAIN :: int where "EAGAIN \<equiv> 11"
abbreviation (input) ENOMEM :: int where "ENOMEM \<equiv> 12"
abbreviation (input) EFAULT :: int where "EFAULT \<equiv> 14"
abbreviation (input) EBUSY :: int where "EBUSY \<equiv> 16"
abbreviation (input) EEXIST :: int where "EEXIST \<equiv> 17"
abbreviation (input) ENODEV :: int where "ENODEV \<equiv> 19"
abbreviation (input) EINVAL :: int where "EINVAL \<equiv> 22"
abbreviation (input) EPROTO :: int where "EPROTO \<equiv> 71"
abbreviation (input) EOVERFLOW :: int where "EOVERFLOW \<equiv> 75"
abbreviation (input) EMSGSIZE :: int where "EMSGSIZE \<equiv> 90"
abbreviation (input) ENOENT :: int where "ENOENT \<equiv> 2"
abbreviation (input) ECONNRESET :: int where "ECONNRESET \<equiv> 104"
abbreviation (input) ESHUTDOWN :: int where "ESHUTDOWN \<equiv> 108"
abbreviation (input) ETIMEDOUT :: int where "ETIMEDOUT \<equiv> 110"

section \<open>Little-endian byte encodings\<close>

fun le_bytes :: "nat \<Rightarrow> 'a::len word \<Rightarrow> bytes" where
  "le_bytes 0 w = []"
| "le_bytes (Suc n) w = ucast w # le_bytes n (drop_bit 8 w)"

fun le_word :: "bytes \<Rightarrow> 'a::len word" where
  "le_word [] = 0"
| "le_word (b # bs) = ucast b OR push_bit 8 (le_word bs)"

lemma length_le_bytes [simp, wire_simps]: "length (le_bytes n w) = n"
  by (induction n arbitrary: w) auto

lemma bit_le_word:
  "bit (le_word bs :: 'a::len word) i \<longleftrightarrow>
     i < LENGTH('a) \<and> i div 8 < length bs \<and> bit (bs ! (i div 8)) (i mod 8)"
proof (induction bs arbitrary: i)
  case Nil
  then show ?case by simp
next
  case (Cons b bs)
  show ?case
  proof (cases "i < 8")
    case True
    then show ?thesis by (auto simp: bit_simps)
  next
    case False
    then have "i div 8 = Suc ((i - 8) div 8)" "i mod 8 = (i - 8) mod 8"
      by (simp_all add: le_div_geq le_mod_geq)
    moreover from False have "\<not> bit b i"
      using bit_imp_le_length [of b i] by auto
    ultimately show ?thesis
      using False Cons [of "i - 8"] by (auto simp: bit_simps)
  qed
qed

lemma nth_le_bytes:
  "k < n \<Longrightarrow> le_bytes n w ! k = ucast (drop_bit (8 * k) w)"
proof (induction n arbitrary: k w)
  case 0
  then show ?case by simp
next
  case (Suc n)
  show ?case
  proof (cases k)
    case 0
    then show ?thesis by simp
  next
    case (Suc j)
    with Suc.prems Suc.IH [of j "drop_bit 8 w"] show ?thesis
      by (simp add: algebra_simps)
  qed
qed

lemma le_word_le_bytes [simp]:
  assumes "LENGTH('a) \<le> 8 * n"
  shows "le_word (le_bytes n (w :: 'a::len word)) = w"
proof (rule bit_word_eqI)
  fix i
  assume i: "i < LENGTH('a)"
  with assms have k: "i div 8 < n" by simp
  have "8 * (i div 8) + i mod 8 = i" by simp
  with i k show "bit (le_word (le_bytes n w) :: 'a word) i = bit w i"
    by (simp add: bit_le_word nth_le_bytes bit_ucast_iff bit_drop_bit_eq)
qed

lemma le_bytes_le_word:
  assumes "length bs = n" and "8 * n \<le> LENGTH('a)"
  shows "le_bytes n (le_word bs :: 'a::len word) = bs"
proof (rule nth_equalityI)
  show "length (le_bytes n (le_word bs :: 'a word)) = length bs"
    using assms by simp
  fix k
  assume "k < length (le_bytes n (le_word bs :: 'a word))"
  then have k: "k < n" by simp
  show "le_bytes n (le_word bs :: 'a word) ! k = bs ! k"
  proof (rule bit_word_eqI)
    fix j
    assume "j < LENGTH(8)"
    then have j: "j < 8" by simp
    then have d: "(8 * k + j) div 8 = k" "(8 * k + j) mod 8 = j" by simp_all
    have "8 * k + j < LENGTH('a)" using k j assms(2) by linarith
    with j k d assms show "bit (le_bytes n (le_word bs :: 'a word) ! k) j = bit (bs ! k) j"
      by (simp add: nth_le_bytes bit_ucast_iff bit_drop_bit_eq bit_le_word)
  qed
qed

section \<open>Lists\<close>

text \<open>Removal of a matching element keeps the order of the others.\<close>

lemma filter_False_of_all [simp]:
  "(\<And>x. x \<in> set xs \<Longrightarrow> \<not> P x) \<Longrightarrow> filter P xs = []"
  by (induction xs) auto

lemma sum_list_map_ucast_bound:
  "sum_list (map unat (bs :: bytes)) \<le> 255 * length bs"
proof (induction bs)
  case Nil
  then show ?case by simp
next
  case (Cons b bs)
  have "unat b < 256"
    by (rule order_less_le_trans [OF unsigned_less]) simp
  with Cons show ?case by simp
qed

end
