(* ===== verification/Wire.thy ===== *)
theory Wire
  imports Prelude
begin

text \<open>
  The wire format shared by host and firmware (\<^verbatim>\<open>adapter.h\<close>, the same file on
  both sides, and \<^verbatim>\<open>esp_host_wire_bounds.h\<close>): the packed 12-byte payload header as a
  record with its encoder and decoder, the interface and packet types, the bounds
  check of a frame, the aligned-word checksum routine, and the header construction
  that every sender repeats. Main results: the codec is a bijection between headers
  and 12-byte strings, an accepted span lies inside the buffer and cannot overflow,
  and the optimised checksum equals the plain byte sum modulo 65536 for every
  alignment of the buffer.
\<close>

section \<open>Constants\<close>

abbreviation (input) PRIO_Q_HIGH :: nat where "PRIO_Q_HIGH \<equiv> 0"
abbreviation (input) PRIO_Q_MID :: nat where "PRIO_Q_MID \<equiv> 1"
abbreviation (input) PRIO_Q_LOW :: nat where "PRIO_Q_LOW \<equiv> 2"
abbreviation (input) MAX_PRIORITY_QUEUES :: nat where "MAX_PRIORITY_QUEUES \<equiv> 3"
abbreviation (input) MAC_ADDR_LEN :: nat where "MAC_ADDR_LEN \<equiv> 6"

text \<open>\<open>enum ESP_INTERFACE_TYPE\<close>; the header stores it in four bits.\<close>

abbreviation (input) ESP_STA_IF :: u4 where "ESP_STA_IF \<equiv> 0"
abbreviation (input) ESP_AP_IF :: u4 where "ESP_AP_IF \<equiv> 1"
abbreviation (input) ESP_HCI_IF :: u4 where "ESP_HCI_IF \<equiv> 2"
abbreviation (input) ESP_INTERNAL_IF :: u4 where "ESP_INTERNAL_IF \<equiv> 3"
abbreviation (input) ESP_TEST_IF :: u4 where "ESP_TEST_IF \<equiv> 4"
abbreviation (input) ESP_RCP_IF :: u4 where "ESP_RCP_IF \<equiv> 5"
abbreviation (input) ESP_MONITOR_IF :: u4 where "ESP_MONITOR_IF \<equiv> 6"
abbreviation (input) ESP_MAX_IF :: u4 where "ESP_MAX_IF \<equiv> 7"

text \<open>\<open>enum ESP_PACKET_TYPE\<close>\<close>

abbreviation (input) PACKET_TYPE_DATA :: u8 where "PACKET_TYPE_DATA \<equiv> 0"
abbreviation (input) PACKET_TYPE_COMMAND_REQUEST :: u8 where "PACKET_TYPE_COMMAND_REQUEST \<equiv> 1"
abbreviation (input) PACKET_TYPE_COMMAND_RESPONSE :: u8 where "PACKET_TYPE_COMMAND_RESPONSE \<equiv> 2"
abbreviation (input) PACKET_TYPE_EVENT :: u8 where "PACKET_TYPE_EVENT \<equiv> 3"
abbreviation (input) PACKET_TYPE_EAPOL :: u8 where "PACKET_TYPE_EAPOL \<equiv> 4"
abbreviation (input) PACKET_TYPE_RCP_SESSION :: u8 where "PACKET_TYPE_RCP_SESSION \<equiv> 5"
abbreviation (input) PACKET_TYPE_MONITOR :: u8 where "PACKET_TYPE_MONITOR \<equiv> 6"

section \<open>The payload header\<close>

text \<open>\<open>struct esp_payload_header\<close>: two 4-bit fields share the first byte, the
  union at the end is one byte (\<open>reserved3\<close>, \<open>hci_pkt_type\<close>, \<open>priv_pkt_type\<close>).\<close>

record esp_payload_header =
  ph_if_type :: u4
  ph_if_num :: u4
  ph_flags :: u8
  ph_packet_type :: u8
  ph_reserved1 :: u8
  ph_len :: u16
  ph_offset :: u16
  ph_checksum :: u16
  ph_reserved2 :: u8
  ph_union :: u8

definition HDR_SIZE :: nat where "HDR_SIZE = 12"

definition header_bytes :: "esp_payload_header \<Rightarrow> bytes" where
  "header_bytes h =
     (ucast (ph_if_type h) OR push_bit 4 (ucast (ph_if_num h)))
     # ph_flags h # ph_packet_type h # ph_reserved1 h
     # le_bytes 2 (ph_len h) @ le_bytes 2 (ph_offset h) @ le_bytes 2 (ph_checksum h)
     @ [ph_reserved2 h, ph_union h]"

text \<open>Reading the header needs its 12 bytes to be present.\<close>

fun header_of :: "bytes \<Rightarrow> esp_payload_header option" where
  "header_of (b0 # b1 # b2 # b3 # l0 # l1 # o0 # o1 # c0 # c1 # r2 # u # rest) =
     Some \<lparr> ph_if_type = ucast b0, ph_if_num = ucast (drop_bit 4 b0),
            ph_flags = b1, ph_packet_type = b2, ph_reserved1 = b3,
            ph_len = le_word [l0, l1], ph_offset = le_word [o0, o1],
            ph_checksum = le_word [c0, c1], ph_reserved2 = r2, ph_union = u \<rparr>"
| "header_of _ = None"

lemma length_header_bytes [simp, wire_simps]: "length (header_bytes h) = 12"
  by (simp add: header_bytes_def)

lemma nibbles_join:
  fixes a b :: u4
  shows "ucast (ucast a OR push_bit 4 (ucast b) :: u8) = a"
    and "ucast (drop_bit 4 (ucast a OR push_bit 4 (ucast b) :: u8)) = b"
  by (rule bit_word_eqI; auto simp: bit_simps dest: bit_imp_le_length)+

lemma nibbles_split:
  fixes b :: u8
  shows "ucast (ucast b :: u4) OR push_bit 4 (ucast (ucast (drop_bit 4 b) :: u4)) = b"
  by (rule bit_word_eqI) (auto simp: bit_simps)

lemma header_of_header_bytes [simp, wire_simps]:
  "header_of (header_bytes h @ rest) = Some h"
proof -
  have two: "le_bytes 2 w = [ucast w, ucast (drop_bit 8 w)]" for w :: u16
    by (simp add: numeral_2_eq_2)
  have "le_word [ucast w, ucast (drop_bit 8 w)] = w" for w :: u16
    using le_word_le_bytes [where n = 2 and w = w] by (simp add: two del: le_word.simps)
  then show ?thesis
    using nibbles_join(2) [of "ph_if_type h" "ph_if_num h"]
    by (simp add: header_bytes_def two nibbles_join(1) del: le_word.simps)
qed

lemma header_of_eq_None_iff: "header_of bs = None \<longleftrightarrow> length bs < 12"
  by (cases bs rule: header_of.cases) auto

lemma header_of_SomeD: "header_of bs = Some h \<Longrightarrow> 12 \<le> length bs"
  using header_of_eq_None_iff [of bs] by fastforce

lemma header_of_take: "12 \<le> n \<Longrightarrow> header_of (take n bs) = header_of bs"
proof (cases bs rule: header_of.cases)
  case (1 b0 b1 b2 b3 l0 l1 o0 o1 c0 c1 r2 u rest)
  assume "12 \<le> n"
  with 1 show ?thesis by (simp add: take_Cons')
qed simp_all

lemma header_of_append: "header_of xs = Some h \<Longrightarrow> header_of (xs @ ys) = Some h"
  using header_of_take [of "length xs" "xs @ ys"] header_of_SomeD [of xs h] by simp

lemma header_bytes_header_of:
  assumes "header_of bs = Some h"
  shows "header_bytes h = take 12 bs"
proof -
  obtain b0 b1 b2 b3 l0 l1 o0 o1 c0 c1 r2 u rest
    where bs: "bs = b0 # b1 # b2 # b3 # l0 # l1 # o0 # o1 # c0 # c1 # r2 # u # rest"
    using assms by (cases bs rule: header_of.cases) auto
  have "le_bytes 2 (le_word [x, y] :: u16) = [x, y]" for x y :: u8
    by (rule le_bytes_le_word) auto
  with assms show ?thesis
    by (auto simp: bs header_bytes_def nibbles_split simp del: le_word.simps le_bytes.simps)
qed


section \<open>The session marker\<close>

text \<open>\<open>struct esp_rcp_session_marker\<close>: version, three reserved bytes, little-endian nonce.\<close>

abbreviation (input) ESP_RCP_SESSION_VERSION :: u8 where "ESP_RCP_SESSION_VERSION \<equiv> 1"

definition session_marker :: "u8 \<Rightarrow> u64 \<Rightarrow> bytes" where
  "session_marker version nonce = [version, 0, 0, 0] @ le_bytes 8 nonce"

lemma session_marker_fields:
  "length (session_marker v n) = 12" "session_marker v n ! 0 = v" "le_word (drop 4 (session_marker v n)) = n"
  by (simp_all add: session_marker_def del: le_bytes.simps)

section \<open>Bounds of a frame\<close>

definition ESP_MAX_OFFSET_SIZE :: nat where "ESP_MAX_OFFSET_SIZE = HDR_SIZE + 4"

definition ESP_OFFSET_VALID :: "nat \<Rightarrow> bool" where
  "ESP_OFFSET_VALID off \<longleftrightarrow> HDR_SIZE \<le> off \<and> off \<le> ESP_MAX_OFFSET_SIZE"

text \<open>
  The span check of \<^verbatim>\<open>esp_host_wire_bounds.h\<close> at its C widths: \<open>unsigned int\<close>
  operands, \<open>size_t\<close> span (64 bits). \<open>Some\<close> carries the frame length written
  through the result pointer.
\<close>

definition esp_host_wire_span_valid :: "u32 \<Rightarrow> u32 \<Rightarrow> u64 \<Rightarrow> u64 option" where
  "esp_host_wire_span_valid payload_len off available =
     (if payload_len = 0 \<or> \<not> ESP_OFFSET_VALID (unat off) then None
      else if ucast off > available \<or> ucast payload_len > available - ucast off then None
      else Some (ucast off + ucast payload_len))"

lemma ESP_OFFSET_VALID_iff: "ESP_OFFSET_VALID off \<longleftrightarrow> 12 \<le> off \<and> off \<le> 16"
  by (simp add: ESP_OFFSET_VALID_def ESP_MAX_OFFSET_SIZE_def HDR_SIZE_def)

lemma unat_ucast_32_64 [simp]: "unat (ucast (x :: u32) :: u64) = unat x"
  by transfer simp

lemma span_valid_iff:
  "esp_host_wire_span_valid p off avail = Some f \<longleftrightarrow>
     0 < unat p \<and> 12 \<le> unat off \<and> unat off \<le> 16 \<and>
     unat off + unat p \<le> unat avail \<and> unat f = unat off + unat p"
proof (cases "ucast off \<le> avail")
  case True
  then have le: "unat off \<le> unat avail"
    by (simp add: word_le_nat_alt)
  from True have d: "unat (avail - ucast off) = unat avail - unat off"
    by (simp add: unat_sub)
  have small: "unat off + unat p < 2 ^ 64"
    using unsigned_less [of off, where 'a = nat] unsigned_less [of p, where 'a = nat] by simp
  then have s: "unat (ucast off + ucast p :: u64) = unat off + unat p"
    by (simp add: unat_word_ariths)
  have f: "f = ucast off + ucast p \<longleftrightarrow> unat f = unat off + unat p"
    by (metis s word_unat_eq_iff)
  from True le d f show ?thesis
    by (auto simp: esp_host_wire_span_valid_def ESP_OFFSET_VALID_iff word_less_nat_alt
        word_le_nat_alt unat_gt_0 not_less split: if_splits)
next
  case False
  then have "unat avail < unat off" by (simp add: word_less_nat_alt not_le)
  with False show ?thesis
    by (auto simp: esp_host_wire_span_valid_def not_le)
qed

section \<open>Checksum\<close>

text \<open>
  \<open>compute_checksum\<close> sums bytes until the pointer is 4-byte aligned, then sums
  blocks of at most 64 words with two 16-bit lanes in one 32-bit accumulator, then
  the tail. \<open>addr\<close> is the address of the first byte.
\<close>

fun checksum_prefix :: "u64 \<Rightarrow> u32 \<Rightarrow> bytes \<Rightarrow> u32 \<times> bytes" where
  "checksum_prefix addr acc [] = (acc, [])"
| "checksum_prefix addr acc (b # bs) =
     (if addr AND 3 \<noteq> 0 then checksum_prefix (addr + 1) (acc + ucast b) bs
      else (acc, b # bs))"

fun checksum_pairs :: "nat \<Rightarrow> u32 \<Rightarrow> bytes \<Rightarrow> u32 \<times> bytes" where
  "checksum_pairs (Suc n) pairs (a # b # c # d # bs) =
     (let word = le_word [a, b, c, d]
      in checksum_pairs n
           (pairs + ((word AND 0x00ff00ff) + (drop_bit 8 word AND 0x00ff00ff))) bs)"
| "checksum_pairs _ pairs bs = (pairs, bs)"

lemma length_checksum_pairs:
  "length (snd (checksum_pairs n p bs)) \<le> length bs"
  "0 < n \<Longrightarrow> 4 \<le> length bs \<Longrightarrow> length (snd (checksum_pairs n p bs)) < length bs"
proof -
  show *: "length (snd (checksum_pairs n p bs)) \<le> length bs" for n p bs
    by (induction n p bs rule: checksum_pairs.induct) (auto simp: Let_def)
  assume "0 < n" "4 \<le> length bs"
  then obtain m a b c d cs where "n = Suc m" "bs = a # b # c # d # cs"
    by (cases n) (auto simp: Suc_le_length_iff numeral_eq_Suc)
  with * [of m _ cs] show "length (snd (checksum_pairs n p bs)) < length bs"
    by (auto simp: Let_def less_Suc_eq_le intro!: le_SucI)
qed

function checksum_blocks :: "u32 \<Rightarrow> bytes \<Rightarrow> u32 \<times> bytes" where
  "checksum_blocks acc bs =
     (if 4 \<le> length bs
      then let words = (if 64 < length bs div 4 then 64 else length bs div 4);
               (pairs, rest) = checksum_pairs words 0 bs
           in checksum_blocks (acc + ((pairs AND 0xffff) + drop_bit 16 pairs)) rest
      else (acc, bs))"
  by pat_completeness auto
termination
proof (relation "measure (\<lambda>(acc, bs). length bs)", goal_cases)
  case (2 acc bs words p pairs rest)
  then have "0 < words" by auto
  moreover from 2(3,4) have "rest = snd (checksum_pairs words 0 bs)" by (metis snd_conv)
  ultimately show ?case using length_checksum_pairs(2) 2(1) by simp
qed simp

fun checksum_tail :: "u32 \<Rightarrow> bytes \<Rightarrow> u32" where
  "checksum_tail acc [] = acc"
| "checksum_tail acc (b # bs) = checksum_tail (acc + ucast b) bs"

definition compute_checksum :: "u64 \<Rightarrow> bytes \<Rightarrow> u16" where
  "compute_checksum addr buf =
     (let (acc, bs) = checksum_prefix addr 0 buf;
          (acc, bs) = checksum_blocks acc bs
      in ucast (checksum_tail acc bs))"

text \<open>The reference: the byte sum.\<close>

definition byte_sum :: "bytes \<Rightarrow> nat" where
  "byte_sum bs = sum_list (map unat bs)"

lemma byte_sum_simps [simp]:
  "byte_sum [] = 0" "byte_sum (b # bs) = unat b + byte_sum bs"
  "byte_sum (xs @ ys) = byte_sum xs + byte_sum ys"
  by (simp_all add: byte_sum_def)

declare checksum_blocks.simps [simp del]

lemma lanes_of_word:
  fixes a b c d :: u8
  defines "w \<equiv> le_word [a, b, c, d] :: u32"
  shows "(w AND 0x00ff00ff) + (drop_bit 8 w AND 0x00ff00ff) =
     of_nat (unat a + unat b) + 0x10000 * of_nat (unat c + unat d)"
proof -
  have m: "(0x00ff00ff :: u32) = mask 8 OR push_bit 16 (mask 8)"
    by (simp add: mask_eq_exp_minus_1)
  have A: "w AND 0x00ff00ff = ucast a OR push_bit 16 (ucast c)"
    unfolding m w_def
    by (rule bit_word_eqI) (auto simp: bit_simps bit_le_word nth_Cons' dest: bit_imp_le_length)
  have B: "drop_bit 8 w AND 0x00ff00ff = ucast b OR push_bit 16 (ucast d)"
    unfolding m w_def
    by (rule bit_word_eqI) (auto simp: bit_simps bit_le_word nth_Cons' dest: bit_imp_le_length)
  have or_add: "ucast x OR push_bit 16 (ucast y) = ucast x + (0x10000 :: u32) * ucast y"
    for x y :: u8
  proof -
    have "(ucast x :: u32) OR push_bit 16 (ucast y) = ucast x + push_bit 16 (ucast y)"
      by (rule disjunctive_add [symmetric]) (auto simp: bit_simps dest: bit_imp_le_length)
    then show ?thesis by (simp add: push_bit_eq_mult ac_simps)
  qed
  show ?thesis
    unfolding A B or_add by (simp add: algebra_simps)
qed

lemma checksum_prefix_sum:
  "checksum_prefix addr acc bs = (acc', bs') \<Longrightarrow>
     acc' + of_nat (byte_sum bs') = acc + of_nat (byte_sum bs)"
  by (induction addr acc bs rule: checksum_prefix.induct)
    (auto simp: algebra_simps split: if_splits)

lemma checksum_tail_sum: "checksum_tail acc bs = acc + of_nat (byte_sum bs)"
  by (induction acc bs rule: checksum_tail.induct) (auto simp: algebra_simps)

text \<open>Each lane stays below \<open>2 ^ 16\<close>, so no carry crosses it.\<close>

lemma checksum_pairs_lanes:
  assumes "4 * n \<le> length bs" and "checksum_pairs n p bs = (p', bs')"
  shows "\<exists>lo hi. lo \<le> 510 * n \<and> hi \<le> 510 * n \<and>
           p' = p + of_nat lo + 0x10000 * of_nat hi \<and>
           lo + hi + byte_sum bs' = byte_sum bs"
  using assms
proof (induction n p bs rule: checksum_pairs.induct)
  case (1 n p a b c d bs)
  then obtain lo hi where IH: "lo \<le> 510 * n" "hi \<le> 510 * n"
    "p' = p + (of_nat (unat a + unat b) + 0x10000 * of_nat (unat c + unat d))
       + of_nat lo + 0x10000 * of_nat hi"
    "lo + hi + byte_sum bs' = byte_sum bs"
    by (auto simp: Let_def lanes_of_word simp del: le_word.simps of_nat_add)
  have u: "unat x \<le> 255" for x :: u8
    using unsigned_less [of x, where 'a = nat] by simp
  from IH u [of a] u [of b] u [of c] u [of d] show ?case
    by (intro exI [of _ "unat a + unat b + lo"] exI [of _ "unat c + unat d + hi"])
      (auto simp: algebra_simps)
qed (auto intro: exI [of _ 0])

lemma lanes_fold:
  assumes "lo < 0x10000" and "hi < 0x10000"
  shows "((of_nat lo + 0x10000 * of_nat hi :: u32) AND 0xffff)
     + drop_bit 16 (of_nat lo + 0x10000 * of_nat hi) = of_nat (lo + hi)"
proof -
  let ?w = "of_nat lo + 0x10000 * of_nat hi :: u32"
  have u: "unat ?w = lo + 0x10000 * hi"
  proof -
    have "?w = of_nat (lo + 0x10000 * hi)" by simp
    moreover have "lo + 0x10000 * hi < 2 ^ 32" using assms by simp
    ultimately show ?thesis by (simp add: unat_of_nat del: of_nat_add of_nat_mult)
  qed
  have "?w AND 0xffff = take_bit 16 ?w"
    by (simp add: take_bit_eq_mask mask_eq_exp_minus_1)
  moreover have "take_bit 16 ?w = of_nat lo"
  proof (rule word_unat_eq_iff [THEN iffD2])
    have "take_bit 16 (lo + 0x10000 * hi) = lo"
      using assms by (simp add: take_bit_eq_mod)
    with assms u show "unat (take_bit 16 ?w) = unat (of_nat lo :: u32)"
      by (simp only: unsigned_take_bit_eq) (simp add: unat_of_nat)
  qed
  moreover have "drop_bit 16 ?w = of_nat hi"
  proof (rule word_unat_eq_iff [THEN iffD2])
    have "drop_bit 16 (lo + 0x10000 * hi) = hi"
      using assms by (simp add: drop_bit_eq_div)
    with assms u show "unat (drop_bit 16 ?w) = unat (of_nat hi :: u32)"
      by (simp only: unsigned_drop_bit_eq) (simp add: unat_of_nat take_bit_eq_mod)
  qed
  ultimately show ?thesis by simp
qed

lemma checksum_blocks_sum:
  "checksum_blocks acc bs = (acc', bs') \<Longrightarrow>
     acc' + of_nat (byte_sum bs') = acc + of_nat (byte_sum bs)"
proof (induction acc bs rule: checksum_blocks.induct)
  case (1 acc bs)
  show ?case
  proof (cases "4 \<le> length bs")
    case False
    with 1 show ?thesis by (simp add: checksum_blocks.simps)
  next
    case True
    define words where "words = (if 64 < length bs div 4 then 64 else length bs div 4)"
    obtain p r where pr: "checksum_pairs words 0 bs = (p, r)" by fastforce
    have "words \<le> 64" "4 * words \<le> length bs" by (auto simp: words_def)
    with checksum_pairs_lanes [OF _ pr] obtain lo hi where
      lh: "lo \<le> 510 * words" "hi \<le> 510 * words" "p = of_nat lo + 0x10000 * of_nat hi"
        "lo + hi + byte_sum r = byte_sum bs" by auto
    have "(p AND 0xffff) + drop_bit 16 p = of_nat (lo + hi)"
      unfolding lh(3) using lh(1,2) \<open>words \<le> 64\<close> by (intro lanes_fold) auto
    moreover have "checksum_blocks (acc + ((p AND 0xffff) + drop_bit 16 p)) r = (acc', bs')"
      using 1(2) True pr unfolding checksum_blocks.simps [of acc bs] words_def by simp
    moreover have "acc' + of_nat (byte_sum bs') =
        acc + ((p AND 0xffff) + drop_bit 16 p) + of_nat (byte_sum r)"
      by (rule "1.IH" [OF True words_def pr [symmetric] refl]) fact
    ultimately show ?thesis
      by (simp flip: lh(4) add: algebra_simps)
  qed
qed

lemma compute_checksum_eq: "compute_checksum addr buf = of_nat (byte_sum buf)"
proof -
  obtain a1 b1 where 1: "checksum_prefix addr 0 buf = (a1, b1)" by fastforce
  obtain a2 b2 where 2: "checksum_blocks a1 b1 = (a2, b2)" by fastforce
  have "checksum_tail a2 b2 = of_nat (byte_sum buf)"
    using checksum_prefix_sum [OF 1] checksum_blocks_sum [OF 2] by (simp add: checksum_tail_sum)
  then have "compute_checksum addr buf = ucast (of_nat (byte_sum buf) :: u32)"
    by (simp add: compute_checksum_def 1 2)
  also have "\<dots> = of_nat (byte_sum buf)"
    by (simp add: unsigned_of_nat word_of_nat_eq_iff)
  finally show ?thesis .
qed

text \<open>The checksum test every receiver makes: zero the field, sum the frame, compare.\<close>

definition checksum_holds :: "bytes \<Rightarrow> bool" where
  "checksum_holds frame \<longleftrightarrow>
     (case header_of frame of
        None \<Rightarrow> False
      | Some h \<Rightarrow> compute_checksum 0 (header_bytes (h\<lparr>ph_checksum := 0\<rparr>) @ drop HDR_SIZE frame) = ph_checksum h)"

end
