(* ===== verification/Adapter.thy ===== *)
theory Adapter
  imports Wire
begin

text \<open>
  The host driver's central object \<open>struct esp_adapter\<close> (\<^verbatim>\<open>esp.h\<close>), its state flags,
  the network interface record \<open>struct esp_wifi_device\<close>, and the transport's
  operation table \<open>struct esp_if_ops\<close> (\<^verbatim>\<open>esp_if.h\<close>). The adapter is polymorphic in
  the transport context \<open>'c\<close> it points to. Kernel work items are modelled by
  whether they are queued; a delayed work item by the delay it was armed with.
  A ghost trace records the recovery events that leave the driver.
\<close>

section \<open>State flags and context state\<close>

datatype adapter_flag =
    ESP_CLEANUP_IN_PROGRESS
  | ESP_CMD_INIT_DONE
  | ESP_DRIVER_ACTIVE
  | ESP_INIT_DONE
  | ESP_OTA_IN_PROGRESS
  | ESP_DRIVER_UNLOADING
  | ESP_ALLOW_DEINIT
  | ESP_ALLOW_RECONSTRUCT
  | ESP_FW_RECOVERY_PENDING
  | ESP_FW_RESET_EXPECTED
  | ESP_TRANSPORT_REMOVING
  | ESP_SKIP_FW_DEINIT
  | ESP_FW_RESTART_NEEDED
  | ESP_FW_RECOVERY_EXHAUSTED
  | ESP_FW_RADIO_INIT_PENDING

datatype context_state = ESP_CONTEXT_DISABLED | ESP_CONTEXT_RX_READY | ESP_CONTEXT_READY

primrec context_rank :: "context_state \<Rightarrow> nat" where
  "context_rank ESP_CONTEXT_DISABLED = 0"
| "context_rank ESP_CONTEXT_RX_READY = 1"
| "context_rank ESP_CONTEXT_READY = 2"

instantiation context_state :: linorder
begin

definition less_eq_context_state :: "context_state \<Rightarrow> context_state \<Rightarrow> bool" where
  "less_eq_context_state x y \<longleftrightarrow> context_rank x \<le> context_rank y"

definition less_context_state :: "context_state \<Rightarrow> context_state \<Rightarrow> bool" where
  "less_context_state x y \<longleftrightarrow> context_rank x < context_rank y"

instance
proof
  fix x y :: context_state
  assume "x \<le> y" "y \<le> x"
  then show "x = y"
    by (cases x; cases y) (auto simp: less_eq_context_state_def)
qed (auto simp: less_eq_context_state_def less_context_state_def)

end

lemma context_state_order [simp]:
  "ESP_CONTEXT_DISABLED \<le> s"
  "s \<le> ESP_CONTEXT_READY"
  "ESP_CONTEXT_READY \<le> s \<longleftrightarrow> s = ESP_CONTEXT_READY"
  "ESP_CONTEXT_RX_READY < s \<longleftrightarrow> s = ESP_CONTEXT_READY"
  "ESP_CONTEXT_RX_READY \<le> s \<longleftrightarrow> s \<noteq> ESP_CONTEXT_DISABLED"
  "s \<le> ESP_CONTEXT_DISABLED \<longleftrightarrow> s = ESP_CONTEXT_DISABLED"
  by (cases s; simp add: less_eq_context_state_def less_context_state_def)+

section \<open>Timing constants\<close>

abbreviation (input) ESP_FW_RECOVERY_QUIET_MS :: nat where "ESP_FW_RECOVERY_QUIET_MS \<equiv> 500"
abbreviation (input) ESP_FW_RECOVERY_WATCHDOG_MS :: nat where "ESP_FW_RECOVERY_WATCHDOG_MS \<equiv> 3000"
abbreviation (input) ESP_FW_BOOT_ACK_TIMEOUT_MS :: nat where "ESP_FW_BOOT_ACK_TIMEOUT_MS \<equiv> 9000"
abbreviation (input) ESP_FW_BOOT_MAX_ATTEMPTS :: nat where "ESP_FW_BOOT_MAX_ATTEMPTS \<equiv> 3"
abbreviation (input) ESP_FW_RECOVERY_BACKOFF_MAX_MS :: nat
  where "ESP_FW_RECOVERY_BACKOFF_MAX_MS \<equiv> 5000"
abbreviation (input) ESP_OTA_RECOVERY_DELAY_MS :: nat where "ESP_OTA_RECOVERY_DELAY_MS \<equiv> 2000"

text \<open>\<open>enum ESP_HOST_INTERRUPT\<close>, as the bit that \<open>generate_slave_intr\<close> receives.\<close>

abbreviation (input) BIT_OPEN_DATA_PATH :: u8 where "BIT_OPEN_DATA_PATH \<equiv> 1"
abbreviation (input) BIT_CLOSE_DATA_PATH :: u8 where "BIT_CLOSE_DATA_PATH \<equiv> 2"

abbreviation (input) ESP_IF_TYPE_SDIO :: u8 where "ESP_IF_TYPE_SDIO \<equiv> 1"
abbreviation (input) ESP_IF_TYPE_SPI :: u8 where "ESP_IF_TYPE_SPI \<equiv> 2"
abbreviation (input) ESP_IF_TYPE_USB :: u8 where "ESP_IF_TYPE_USB \<equiv> 3"

section \<open>Network interface and adapter records\<close>

record net_stats =
  tx_packets :: nat
  tx_bytes :: nat
  tx_errors :: nat
  tx_dropped :: nat
  rx_packets :: nat
  rx_bytes :: nat

text \<open>The fields of \<open>struct esp_wifi_device\<close> on the data path. \<open>wd_ndev\<close>: \<open>ndev\<close> is not
  \<open>NULL\<close>; \<open>ndev_registered\<close>: its \<open>reg_state\<close> is \<open>NETREG_REGISTERED\<close>.\<close>

record esp_wifi_device =
  wd_if_type :: u4
  wd_if_num :: u4
  wd_stats :: net_stats
  port_open :: bool
  stop_data :: bool
  wd_ndev :: bool
  ndev_registered :: bool
  network_up :: bool
  interface_initialized :: bool
  queue_stopped :: bool

text \<open>What the recovery machinery asks of the outside, newest first.
  \<open>RESET_DISPATCH\<close>: one counted reboot attempt was handed to the transport.
  \<open>BUDGET_REFILL\<close>: the attempt budget was restored.\<close>

datatype recovery_event = RESET_DISPATCH | BUDGET_REFILL

record 'c esp_adapter =
  ad_if_type :: u8
  ad_state :: context_state
  capabilities :: u32
  ext_capabilities :: u32
  rcp_session_nonce :: u64
  radio_service_active :: u8
  radio_service_flags :: u8
  base_mac :: bytes
  base_mac_count :: u8
  base_mac_present :: bool
  chipset :: u8
  tx_aggr_size :: u32
  if_context :: "'c option"
  if_ops_bound :: bool
  priv0 :: "esp_wifi_device option"
  hcidev :: bool
  if_rx_workqueue :: bool
  if_rx_work :: bool
  events_wq :: bool
  events_work :: bool
  events_skb_q :: "bytes list"
  radio_service_work :: bool
  fw_recovery_work :: "nat option"
  fw_recovery_backoff_ms :: nat
  fw_recovery_gen :: u32
  fw_reconstruct_gen :: u32
  fw_boot_reset_attempts :: nat
  fw_boot_deadline :: u64
  fw_boot_commit_epoch :: u32
  state_flags :: "adapter_flag set"
  ad_trace :: "recovery_event list"

text \<open>\<open>test_bit\<close>, \<open>set_bit\<close> and \<open>clear_bit\<close> on \<open>state_flags\<close>.\<close>

definition test_bit :: "adapter_flag \<Rightarrow> 'c esp_adapter \<Rightarrow> bool" where
  "test_bit f a \<longleftrightarrow> f \<in> state_flags a"

definition set_bit :: "adapter_flag \<Rightarrow> 'c esp_adapter \<Rightarrow> 'c esp_adapter" where
  "set_bit f a = a\<lparr>state_flags := insert f (state_flags a)\<rparr>"

definition clear_bit :: "adapter_flag \<Rightarrow> 'c esp_adapter \<Rightarrow> 'c esp_adapter" where
  "clear_bit f a = a\<lparr>state_flags := state_flags a - {f}\<rparr>"

lemmas flag_defs = test_bit_def set_bit_def clear_bit_def

section \<open>Delayed work\<close>

text \<open>\<open>schedule_delayed_work\<close> leaves an armed timer alone; \<open>mod_delayed_work\<close>
  replaces it; \<open>cancel_delayed_work_sync\<close> disarms it.\<close>

definition schedule_recovery_work :: "nat \<Rightarrow> 'c esp_adapter \<Rightarrow> 'c esp_adapter" where
  "schedule_recovery_work ms a =
     (if fw_recovery_work a = None then a\<lparr>fw_recovery_work := Some ms\<rparr> else a)"

definition mod_recovery_work :: "nat \<Rightarrow> 'c esp_adapter \<Rightarrow> 'c esp_adapter" where
  "mod_recovery_work ms a = a\<lparr>fw_recovery_work := Some ms\<rparr>"

definition cancel_recovery_work :: "'c esp_adapter \<Rightarrow> 'c esp_adapter" where
  "cancel_recovery_work a = a\<lparr>fw_recovery_work := None\<rparr>"

lemmas work_defs = schedule_recovery_work_def mod_recovery_work_def cancel_recovery_work_def

section \<open>Transport operations\<close>

text \<open>\<open>struct esp_if_ops\<close>. An absent entry is \<open>None\<close>. Operations that return an
  \<open>int\<close> return it with the new adapter. \<open>generate_slave_intr\<close> is the function each
  transport links in beside the table.\<close>

record 'c esp_if_ops =
  op_read :: "('c esp_adapter \<Rightarrow> bytes option \<times> 'c esp_adapter) option"
  op_write :: "('c esp_adapter \<Rightarrow> bytes \<Rightarrow> int \<times> 'c esp_adapter) option"
  op_quiesce_for_fw_reset :: "('c esp_adapter \<Rightarrow> int \<times> 'c esp_adapter) option"
  op_reinit_after_fw_reset :: "('c esp_adapter \<Rightarrow> int \<times> 'c esp_adapter) option"
  op_commit_fw_recovery :: "('c esp_adapter \<Rightarrow> 'c esp_adapter) option"
  op_reset_target :: "('c esp_adapter \<Rightarrow> int \<times> 'c esp_adapter) option"
  op_recover_transport :: "('c esp_adapter \<Rightarrow> int \<times> 'c esp_adapter) option"
  op_note_fw_reset :: "('c esp_adapter \<Rightarrow> 'c esp_adapter) option"
  op_flush_bt_traffic :: "('c esp_adapter \<Rightarrow> 'c esp_adapter) option"
  op_flush_rcp_traffic :: "('c esp_adapter \<Rightarrow> 'c esp_adapter) option"
  op_rx_during_live_recovery :: bool
  op_resume_after_live_recovery :: "('c esp_adapter \<Rightarrow> 'c esp_adapter) option"
  op_generate_slave_intr :: "'c esp_adapter \<Rightarrow> u8 \<Rightarrow> int \<times> 'c esp_adapter"

text \<open>\<open>adapter->if_ops && adapter->if_ops->entry\<close>: the entry, when the table is
  bound and has it.\<close>

definition if_op :: "('c esp_if_ops \<Rightarrow> 'x option) \<Rightarrow> 'c esp_if_ops \<Rightarrow> 'c esp_adapter \<Rightarrow> 'x option" where
  "if_op entry ops a = (if if_ops_bound a then entry ops else None)"

text \<open>An optional operation with no result: a missing entry is skipped.\<close>

definition run_hook :: "('a \<Rightarrow> 'a) option \<Rightarrow> 'a \<Rightarrow> 'a" where
  "run_hook h a = (case h of None \<Rightarrow> a | Some f \<Rightarrow> f a)"

lemma run_hook_simps [simp]: "run_hook None a = a" "run_hook (Some f) a = f a"
  by (simp_all add: run_hook_def)

text \<open>The kernel's clock.\<close>

record kernel_env =
  jiffies :: u64
  msecs_to_jiffies :: "nat \<Rightarrow> u64"

definition time_after_eq :: "u64 \<Rightarrow> u64 \<Rightarrow> bool" where
  "time_after_eq a b \<longleftrightarrow> 0 \<le> sint (a - b)"

section \<open>Receive wake-up\<close>

text \<open>\<open>esp_process_new_packet_intr\<close>: queue the receive worker unless the transport is
  going away or the module unloads (outside its final deinit window).\<close>

definition esp_process_new_packet_intr :: "'c esp_adapter \<Rightarrow> 'c esp_adapter" where
  "esp_process_new_packet_intr a =
     (if \<not> if_rx_workqueue a then a
      else if test_bit ESP_TRANSPORT_REMOVING a \<or>
              (test_bit ESP_DRIVER_UNLOADING a \<and> \<not> test_bit ESP_ALLOW_DEINIT a) then a
      else a\<lparr>if_rx_work := True\<rparr>)"

end
