(* ===== verification/Recovery.thy ===== *)
theory Recovery
  imports Adapter
begin

text \<open>
  Firmware recovery (\<^verbatim>\<open>host/main.c\<close>): scheduling a recovery, the bounded reboot
  budget, the delayed recovery worker, and the reconstruction bracket
  (begin / clear / commit / finish). Every function is translated with its guards in
  order; sections under \<open>fw_recovery_lock\<close> are single state changes. The transport is
  reached only through its operation table; what the recovery relies on is the locale
  \<open>recovery_transport\<close>. Shown: the attempt counter never passes its cap, no more
  than three resets are dispatched per budget refill, duplicate requests coalesce, an
  expired boot deadline is never masked by the cleanup or reconstruction flags, and a
  request that arrives during reconstruction is not lost by the commit.
\<close>

section \<open>Operations\<close>

definition esp_recovery_drop_tx_unlocked :: "'c esp_adapter \<Rightarrow> 'c esp_adapter" where
  "esp_recovery_drop_tx_unlocked a =
     (if ESP_CONTEXT_RX_READY < ad_state a then a\<lparr>ad_state := ESP_CONTEXT_RX_READY\<rparr> else a)"

definition esp_schedule_recovery ::
  "'c esp_if_ops \<Rightarrow> nat \<Rightarrow> bool \<Rightarrow> bool \<Rightarrow> 'c esp_adapter \<Rightarrow> 'c esp_adapter" where
  "esp_schedule_recovery ops delay_ms restart_timer fw_reset a =
     (if test_bit ESP_DRIVER_UNLOADING a \<or> test_bit ESP_TRANSPORT_REMOVING a then a
      else
        let a = (if fw_reset
                 then run_hook (if_op op_note_fw_reset ops a) (set_bit ESP_FW_RESET_EXPECTED a)
                 else a);
            a = set_bit ESP_FW_RECOVERY_PENDING a;
            a = a\<lparr>fw_recovery_gen := fw_recovery_gen a + 1\<rparr>;
            a = (if \<not> test_bit ESP_ALLOW_RECONSTRUCT a then esp_recovery_drop_tx_unlocked a else a);
            delay_ms = (if delay_ms = 0 then ESP_FW_RECOVERY_QUIET_MS else delay_ms)
        in if restart_timer then mod_recovery_work delay_ms a
           else schedule_recovery_work delay_ms a)"

definition esp_schedule_transport_recovery ::
  "'c esp_if_ops \<Rightarrow> 'c esp_adapter \<Rightarrow> 'c esp_adapter" where
  "esp_schedule_transport_recovery ops a =
     esp_schedule_recovery ops ESP_FW_RECOVERY_QUIET_MS False False a"

definition esp_schedule_fw_reset_recovery ::
  "'c esp_if_ops \<Rightarrow> 'c esp_adapter \<Rightarrow> 'c esp_adapter" where
  "esp_schedule_fw_reset_recovery ops a =
     esp_schedule_recovery ops ESP_FW_RECOVERY_QUIET_MS False True a"

definition esp_reset_boot_recovery_for_binding :: "bool \<Rightarrow> 'c esp_adapter \<Rightarrow> 'c esp_adapter" where
  "esp_reset_boot_recovery_for_binding preserve_active_reset a =
     (let active_reset = fw_boot_deadline a \<noteq> 0 \<and> test_bit ESP_FW_RESET_EXPECTED a \<and>
                         \<not> test_bit ESP_FW_RECOVERY_EXHAUSTED a
      in if \<not> preserve_active_reset \<or> \<not> active_reset
         then let a = a\<lparr>fw_boot_reset_attempts := 0, fw_boot_deadline := 0,
                        fw_recovery_backoff_ms := ESP_FW_RECOVERY_QUIET_MS,
                        ad_trace := BUDGET_REFILL # ad_trace a\<rparr>;
                  a = clear_bit ESP_FW_RECOVERY_EXHAUSTED a;
                  a = clear_bit ESP_FW_RECOVERY_PENDING a;
                  a = clear_bit ESP_FW_RESET_EXPECTED a;
                  a = clear_bit ESP_FW_RESTART_NEEDED a;
                  a = clear_bit ESP_ALLOW_RECONSTRUCT a
              in clear_bit ESP_CLEANUP_IN_PROGRESS a
         else a)"

text \<open>The part of \<open>esp_request_firmware_restart\<close> after the lock is dropped: hand one
  counted attempt to the transport. SPI and SDIO own their reset, USB gets the
  close-data-path request.\<close>

definition esp_dispatch_firmware_reset :: "'c esp_if_ops \<Rightarrow> 'c esp_adapter \<Rightarrow> 'c esp_adapter" where
  "esp_dispatch_firmware_reset ops a =
     (if ad_if_type a = ESP_IF_TYPE_SPI \<or> ad_if_type a = ESP_IF_TYPE_SDIO
      then (case if_op op_reset_target ops a of
              None \<Rightarrow> a
            | Some reset_target \<Rightarrow>
                snd (reset_target (a\<lparr>ad_trace := RESET_DISPATCH # ad_trace a\<rparr>)))
      else if if_context a = None then a
      else let (ret, a) = op_generate_slave_intr ops
                            (a\<lparr>ad_trace := RESET_DISPATCH # ad_trace a\<rparr>) BIT_CLOSE_DATA_PATH
           in if ret = 0 then clear_bit ESP_FW_RESTART_NEEDED a else a)"

definition esp_request_firmware_restart ::
  "kernel_env \<Rightarrow> 'c esp_if_ops \<Rightarrow> 'c esp_adapter \<Rightarrow> 'c esp_adapter" where
  "esp_request_firmware_restart env ops a =
     (if fw_boot_deadline a \<noteq> 0 then a
      else if test_bit ESP_FW_RECOVERY_EXHAUSTED a \<or>
              ESP_FW_BOOT_MAX_ATTEMPTS \<le> fw_boot_reset_attempts a
      then (set_bit ESP_FW_RECOVERY_EXHAUSTED a)\<lparr>fw_boot_deadline := 0\<rparr>
      else
        let a = a\<lparr>fw_boot_reset_attempts := fw_boot_reset_attempts a + 1,
                  fw_boot_deadline := jiffies env + msecs_to_jiffies env ESP_FW_BOOT_ACK_TIMEOUT_MS\<rparr>;
            a = set_bit ESP_FW_RESTART_NEEDED a
        in esp_dispatch_firmware_reset ops a)"

definition esp_bootup_request_retry ::
  "kernel_env \<Rightarrow> 'c esp_if_ops \<Rightarrow> 'c esp_adapter \<Rightarrow> 'c esp_adapter" where
  "esp_bootup_request_retry env ops a =
     (if test_bit ESP_DRIVER_UNLOADING a \<or> test_bit ESP_TRANSPORT_REMOVING a then a
      else
        let a = clear_bit ESP_CLEANUP_IN_PROGRESS a;
            a = esp_schedule_recovery ops ESP_FW_RECOVERY_WATCHDOG_MS True True a
        in esp_request_firmware_restart env ops a)"

text \<open>The worker after \<open>recover_transport\<close> returned \<open>ret\<close>; \<open>gen\<close> is the
  generation it sampled before the call.\<close>

definition esp_fw_recovery_finish ::
  "'c esp_if_ops \<Rightarrow> u32 \<Rightarrow> int \<Rightarrow> 'c esp_adapter \<Rightarrow> 'c esp_adapter" where
  "esp_fw_recovery_finish ops gen ret a =
     (if ret < 0
      then let a = (if fw_recovery_backoff_ms a = 0
                    then a\<lparr>fw_recovery_backoff_ms := ESP_FW_RECOVERY_QUIET_MS\<rparr> else a);
               delay = fw_recovery_backoff_ms a;
               a = (if fw_recovery_backoff_ms a < ESP_FW_RECOVERY_BACKOFF_MAX_MS
                    then a\<lparr>fw_recovery_backoff_ms :=
                             min (fw_recovery_backoff_ms a * 2) ESP_FW_RECOVERY_BACKOFF_MAX_MS\<rparr>
                    else a)
           in mod_recovery_work delay a
      else
        let a = a\<lparr>fw_recovery_backoff_ms := ESP_FW_RECOVERY_QUIET_MS\<rparr>
        in if 0 < ret
           then (if fw_recovery_gen a \<noteq> gen then a
                 else if test_bit ESP_FW_RESET_EXPECTED a
                 then mod_recovery_work ESP_FW_RECOVERY_QUIET_MS a
                 else run_hook (if_op op_resume_after_live_recovery ops a)
                        (clear_bit ESP_FW_RECOVERY_PENDING a))
           else (if \<not> test_bit ESP_DRIVER_UNLOADING a \<and> \<not> test_bit ESP_TRANSPORT_REMOVING a \<and>
                    (test_bit ESP_FW_RESET_EXPECTED a \<or> \<not> test_bit ESP_INIT_DONE a)
                 then mod_recovery_work ESP_FW_RECOVERY_WATCHDOG_MS a
                 else a))"

text \<open>\<open>esp_fw_recovery_work\<close>: the timer has fired, so the work item is no longer
  armed when the body runs.\<close>

definition esp_fw_recovery_work ::
  "kernel_env \<Rightarrow> 'c esp_if_ops \<Rightarrow> 'c esp_adapter \<Rightarrow> 'c esp_adapter" where
  "esp_fw_recovery_work env ops a =
     (let a = a\<lparr>fw_recovery_work := None\<rparr>;
          skip = test_bit ESP_INIT_DONE a \<and> \<not> test_bit ESP_FW_RECOVERY_PENDING a \<and>
                 \<not> test_bit ESP_FW_RESET_EXPECTED a;
          fw_reset = test_bit ESP_FW_RESET_EXPECTED a;
          gen = fw_recovery_gen a
      in if test_bit ESP_DRIVER_UNLOADING a \<or> test_bit ESP_TRANSPORT_REMOVING a \<or>
            test_bit ESP_FW_RECOVERY_EXHAUSTED a then a
         else if \<not> skip \<and> fw_boot_deadline a \<noteq> 0 \<and> time_after_eq (jiffies env) (fw_boot_deadline a)
         then esp_bootup_request_retry env ops (a\<lparr>fw_boot_deadline := 0\<rparr>)
         else if \<not> skip \<and> test_bit ESP_CLEANUP_IN_PROGRESS a
         then mod_recovery_work ESP_FW_RECOVERY_WATCHDOG_MS a
         else if \<not> skip \<and> test_bit ESP_ALLOW_RECONSTRUCT a
         then mod_recovery_work ESP_FW_RECOVERY_WATCHDOG_MS a
         else if skip then a
         else if \<not> test_bit ESP_INIT_DONE a \<and> \<not> test_bit ESP_FW_RECOVERY_PENDING a \<and> \<not> fw_reset
         then esp_bootup_request_retry env ops a
         else (case if_op op_recover_transport ops a of
                 None \<Rightarrow> a
               | Some recover \<Rightarrow>
                   let (ret, a) = recover a in esp_fw_recovery_finish ops gen ret a))"

section \<open>Reconstruction bracket\<close>

definition esp_begin_reconstruction :: "'c esp_adapter \<Rightarrow> 'c esp_adapter" where
  "esp_begin_reconstruction a =
     (let a = set_bit ESP_ALLOW_RECONSTRUCT a
      in a\<lparr>fw_reconstruct_gen := fw_recovery_gen a\<rparr>)"

definition esp_clear_reconstruct_flag :: "'c esp_adapter \<Rightarrow> 'c esp_adapter" where
  "esp_clear_reconstruct_flag a = clear_bit ESP_ALLOW_RECONSTRUCT a"

definition esp_commit_reconstruction :: "'c esp_adapter \<Rightarrow> 'c esp_adapter" where
  "esp_commit_reconstruction a =
     (let a = set_bit ESP_INIT_DONE a;
          a = cancel_recovery_work a;
          a = clear_bit ESP_ALLOW_RECONSTRUCT a;
          need_recovery = fw_recovery_gen a \<noteq> fw_reconstruct_gen a
      in if need_recovery
         then mod_recovery_work ESP_FW_RECOVERY_QUIET_MS (a\<lparr>ad_state := ESP_CONTEXT_RX_READY\<rparr>)
         else let a = clear_bit ESP_FW_RECOVERY_PENDING a;
                  a = clear_bit ESP_FW_RESET_EXPECTED a;
                  a = clear_bit ESP_FW_RESTART_NEEDED a
              in a\<lparr>ad_state := ESP_CONTEXT_READY\<rparr>)"

definition esp_finish_reconstruction ::
  "'c esp_if_ops \<Rightarrow> 'c esp_adapter \<Rightarrow> 'c esp_adapter" where
  "esp_finish_reconstruction ops a =
     (if test_bit ESP_INIT_DONE a \<and> \<not> test_bit ESP_FW_RECOVERY_PENDING a \<and>
         \<not> test_bit ESP_FW_RESET_EXPECTED a
      then let a = a\<lparr>fw_boot_reset_attempts := 0, fw_boot_deadline := 0,
                     fw_boot_commit_epoch := fw_boot_commit_epoch a + 1,
                     ad_trace := BUDGET_REFILL # ad_trace a\<rparr>;
               a = clear_bit ESP_FW_RECOVERY_EXHAUSTED a
           in run_hook (if_op op_commit_fw_recovery ops a) a
      else a)"

lemmas recovery_defs =
  esp_recovery_drop_tx_unlocked_def esp_schedule_recovery_def esp_schedule_transport_recovery_def
  esp_schedule_fw_reset_recovery_def esp_reset_boot_recovery_for_binding_def
  esp_request_firmware_restart_def esp_bootup_request_retry_def esp_fw_recovery_finish_def
  esp_fw_recovery_work_def esp_begin_reconstruction_def esp_clear_reconstruct_flag_def
  esp_commit_reconstruction_def esp_finish_reconstruction_def

section \<open>What recovery relies on of a transport\<close>

text \<open>The part of the adapter that only the recovery code writes. A transport operation
  called from the recovery code leaves it alone.\<close>

definition recovery_view ::
  "'c esp_adapter \<Rightarrow> nat \<times> u64 \<times> recovery_event list \<times> adapter_flag set \<times> nat \<times> u32 \<times> u32" where
  "recovery_view a = (fw_boot_reset_attempts a, fw_boot_deadline a, ad_trace a, state_flags a,
     fw_recovery_backoff_ms a, fw_recovery_gen a, fw_reconstruct_gen a)"

lemma recovery_viewD:
  assumes "recovery_view a = recovery_view b"
  shows "fw_boot_reset_attempts a = fw_boot_reset_attempts b"
    "fw_boot_deadline a = fw_boot_deadline b" "ad_trace a = ad_trace b"
    "state_flags a = state_flags b" "fw_recovery_backoff_ms a = fw_recovery_backoff_ms b"
    "fw_recovery_gen a = fw_recovery_gen b" "fw_reconstruct_gen a = fw_reconstruct_gen b"
  using assms by (simp_all add: recovery_view_def)

definition resets_since_refill :: "recovery_event list \<Rightarrow> nat" where
  "resets_since_refill tr = length (takeWhile (\<lambda>e. e \<noteq> BUDGET_REFILL) tr)"

lemma resets_since_refill_simps [simp]:
  "resets_since_refill [] = 0"
  "resets_since_refill (RESET_DISPATCH # tr) = Suc (resets_since_refill tr)"
  "resets_since_refill (BUDGET_REFILL # tr) = 0"
  by (simp_all add: resets_since_refill_def)

definition budget_inv :: "'c esp_adapter \<Rightarrow> bool" where
  "budget_inv a \<longleftrightarrow> fw_boot_reset_attempts a \<le> ESP_FW_BOOT_MAX_ATTEMPTS \<and>
     resets_since_refill (ad_trace a) \<le> fw_boot_reset_attempts a \<and>
     fw_recovery_backoff_ms a \<le> ESP_FW_RECOVERY_BACKOFF_MAX_MS"

lemma budget_inv_cong:
  "fw_boot_reset_attempts a = fw_boot_reset_attempts b \<Longrightarrow> ad_trace a = ad_trace b \<Longrightarrow>
   fw_recovery_backoff_ms a = fw_recovery_backoff_ms b \<Longrightarrow> budget_inv a = budget_inv b"
  by (simp add: budget_inv_def)

lemma budget_inv_view: "recovery_view a = recovery_view b \<Longrightarrow> budget_inv a = budget_inv b"
  by (simp add: recovery_view_def budget_inv_def)

lemma budget_inv_frame [simp]:
  "budget_inv (set_bit f a) = budget_inv a"
  "budget_inv (clear_bit f a) = budget_inv a"
  "budget_inv (mod_recovery_work ms a) = budget_inv a"
  "budget_inv (schedule_recovery_work ms a) = budget_inv a"
  "budget_inv (cancel_recovery_work a) = budget_inv a"
  "budget_inv (a\<lparr>fw_recovery_gen := g\<rparr>) = budget_inv a"
  "budget_inv (a\<lparr>fw_reconstruct_gen := g\<rparr>) = budget_inv a"
  "budget_inv (a\<lparr>fw_boot_deadline := d\<rparr>) = budget_inv a"
  "budget_inv (a\<lparr>fw_recovery_work := w\<rparr>) = budget_inv a"
  "budget_inv (a\<lparr>ad_state := st\<rparr>) = budget_inv a"
  by (auto simp: budget_inv_def flag_defs work_defs)

locale recovery_transport =
  fixes ops :: "'c esp_if_ops"
  assumes recover_keeps:
      "op_recover_transport ops = Some f \<Longrightarrow> f a = (r, a') \<Longrightarrow> recovery_view a' = recovery_view a"
    and reset_target_keeps:
      "op_reset_target ops = Some f \<Longrightarrow> f a = (r, a') \<Longrightarrow> recovery_view a' = recovery_view a"
    and slave_intr_keeps:
      "op_generate_slave_intr ops a d = (r, a') \<Longrightarrow> recovery_view a' = recovery_view a"
    and note_fw_reset_keeps:
      "op_note_fw_reset ops = Some h \<Longrightarrow> recovery_view (h a) = recovery_view a"
    and commit_keeps:
      "op_commit_fw_recovery ops = Some h \<Longrightarrow> recovery_view (h a) = recovery_view a"
    and resume_keeps:
      "op_resume_after_live_recovery ops = Some h \<Longrightarrow> recovery_view (h a) = recovery_view a"
begin

lemma hook_views:
  "recovery_view (run_hook (if_op op_note_fw_reset ops b) a) = recovery_view a"
  "recovery_view (run_hook (if_op op_commit_fw_recovery ops b) a) = recovery_view a"
  "recovery_view (run_hook (if_op op_resume_after_live_recovery ops b) a) = recovery_view a"
  by (auto simp: run_hook_def if_op_def note_fw_reset_keeps commit_keeps resume_keeps
      split: option.splits)

lemmas hook_budget [simp] = hook_views [THEN budget_inv_view]

lemma budget_schedule:
  "budget_inv a \<Longrightarrow> budget_inv (esp_schedule_recovery ops d r f a)"
  by (simp add: esp_schedule_recovery_def esp_recovery_drop_tx_unlocked_def Let_def)

lemma dispatch_view:
  fixes a :: "'c esp_adapter"
  defines "b \<equiv> esp_dispatch_firmware_reset ops a"
  shows "fw_boot_reset_attempts b = fw_boot_reset_attempts a"
    and "fw_boot_deadline b = fw_boot_deadline a"
    and "fw_recovery_backoff_ms b = fw_recovery_backoff_ms a"
    and "fw_recovery_gen b = fw_recovery_gen a"
    and "fw_reconstruct_gen b = fw_reconstruct_gen a"
    and "ad_trace b = ad_trace a \<or> ad_trace b = RESET_DISPATCH # ad_trace a"
    and "f \<noteq> ESP_FW_RESTART_NEEDED \<Longrightarrow> test_bit f b = test_bit f a"
proof -
  let ?c = "a\<lparr>ad_trace := RESET_DISPATCH # ad_trace a\<rparr>"
  obtain ret i where i: "op_generate_slave_intr ops ?c 2 = (ret, i)" by fastforce
  have i': "recovery_view i = recovery_view ?c" by (rule slave_intr_keeps [OF i])
  have t': "recovery_view (snd (f ?c)) = recovery_view ?c" if "op_reset_target ops = Some f" for f
    using reset_target_keeps [OF that, of ?c] by (simp add: prod_eq_iff)
  have "b \<in> {a, i, clear_bit ESP_FW_RESTART_NEEDED i} \<or>
      (\<exists>f. op_reset_target ops = Some f \<and> b = snd (f ?c))"
    by (auto simp: b_def esp_dispatch_firmware_reset_def i if_op_def split: option.splits)
  then consider "b = a" | "b = i" | "b = clear_bit ESP_FW_RESTART_NEEDED i"
    | f where "op_reset_target ops = Some f" "b = snd (f ?c)"
    by (elim disjE insertE emptyE exE conjE)
  then obtain y where y: "recovery_view y = recovery_view ?c \<or> y = a"
    and b: "b = y \<or> b = clear_bit ESP_FW_RESTART_NEEDED y"
  proof cases
    case 1
    then show ?thesis by (intro that [of a]) simp_all
  next
    case 2
    with i' show ?thesis by (intro that [of i]) simp_all
  next
    case 3
    with i' show ?thesis by (intro that [of i]) simp_all
  next
    case (4 f)
    with t' show ?thesis by (intro that [of "snd (f ?c)"]) simp_all
  qed
  from y have y': "fw_boot_reset_attempts y = fw_boot_reset_attempts a"
    "fw_boot_deadline y = fw_boot_deadline a"
    "fw_recovery_backoff_ms y = fw_recovery_backoff_ms a"
    "fw_recovery_gen y = fw_recovery_gen a" "fw_reconstruct_gen y = fw_reconstruct_gen a"
    "state_flags y = state_flags a"
    "ad_trace y = ad_trace a \<or> ad_trace y = RESET_DISPATCH # ad_trace a"
    by (elim disjE; simp add: recovery_view_def)+
  have b': "fw_boot_reset_attempts b = fw_boot_reset_attempts y"
    "fw_boot_deadline b = fw_boot_deadline y"
    "fw_recovery_backoff_ms b = fw_recovery_backoff_ms y"
    "fw_recovery_gen b = fw_recovery_gen y" "fw_reconstruct_gen b = fw_reconstruct_gen y"
    "ad_trace b = ad_trace y" "f \<noteq> ESP_FW_RESTART_NEEDED \<Longrightarrow> test_bit f b = test_bit f y" for f
    using b by (elim disjE; simp add: flag_defs)+
  show "fw_boot_reset_attempts b = fw_boot_reset_attempts a"
    "fw_boot_deadline b = fw_boot_deadline a"
    "fw_recovery_backoff_ms b = fw_recovery_backoff_ms a"
    "fw_recovery_gen b = fw_recovery_gen a" "fw_reconstruct_gen b = fw_reconstruct_gen a"
    using y' b' by simp_all
  show "ad_trace b = ad_trace a \<or> ad_trace b = RESET_DISPATCH # ad_trace a"
    using y'(7) b'(6) by simp
  show "f \<noteq> ESP_FW_RESTART_NEEDED \<Longrightarrow> test_bit f b = test_bit f a"
    using y'(6) b'(7) by (simp add: test_bit_def)
qed

lemma budget_restart:
  "budget_inv a \<Longrightarrow> budget_inv (esp_request_firmware_restart env ops a)"
  unfolding esp_request_firmware_restart_def
  using dispatch_view(6) [of "set_bit ESP_FW_RESTART_NEEDED
     (a\<lparr>fw_boot_reset_attempts := fw_boot_reset_attempts a + 1,
        fw_boot_deadline := jiffies env + msecs_to_jiffies env 9000\<rparr>)"]
  by (auto simp: Let_def) (auto simp: budget_inv_def dispatch_view flag_defs)

lemma budget_retry:
  "budget_inv a \<Longrightarrow> budget_inv (esp_bootup_request_retry env ops a)"
  by (simp add: esp_bootup_request_retry_def Let_def budget_restart budget_schedule)

lemma budget_worker_finish:
  "budget_inv a \<Longrightarrow> budget_inv (esp_fw_recovery_finish ops g ret a)"
  unfolding esp_fw_recovery_finish_def
  by (auto simp: Let_def) (auto simp: budget_inv_def)

lemma budget_worker:
  assumes "budget_inv a"
  shows "budget_inv (esp_fw_recovery_work env ops a)"
proof -
  have "budget_inv (esp_fw_recovery_finish ops g ret b)"
    if "op_recover_transport ops = Some f" "f (a\<lparr>fw_recovery_work := None\<rparr>) = (ret, b)" for f g ret b
  proof -
    have "budget_inv b"
      using budget_inv_view [OF recover_keeps [OF that]] assms by simp
    then show ?thesis by (rule budget_worker_finish)
  qed
  with assms show ?thesis
    unfolding esp_fw_recovery_work_def
    by (auto simp: Let_def if_op_def budget_retry split: option.splits prod.splits)
qed

lemma budget_finish:
  "budget_inv a \<Longrightarrow> budget_inv (esp_finish_reconstruction ops a)"
  by (auto simp: esp_finish_reconstruction_def Let_def) (auto simp: budget_inv_def)

end


section \<open>The recovery machine as a transition system\<close>

text \<open>\<open>init_adapter\<close>: a zeroed adapter; \<open>None\<close> when a work queue cannot be allocated.\<close>

definition init_adapter :: "bool \<Rightarrow> bool \<Rightarrow> 'c esp_adapter option" where
  "init_adapter rx_wq_ok events_wq_ok =
     (if \<not> rx_wq_ok \<or> \<not> events_wq_ok then None
      else Some \<lparr> ad_if_type = 0, ad_state = ESP_CONTEXT_DISABLED, capabilities = 0,
             ext_capabilities = 0, rcp_session_nonce = 0, radio_service_active = 0,
             radio_service_flags = 0, base_mac = replicate 6 0, base_mac_count = 0,
             base_mac_present = False, chipset = 0, tx_aggr_size = 0, if_context = None,
             if_ops_bound = False, priv0 = None, hcidev = False, if_rx_workqueue = True,
             if_rx_work = False, events_wq = True, events_work = False, events_skb_q = [],
             radio_service_work = False, fw_recovery_work = None,
             fw_recovery_backoff_ms = ESP_FW_RECOVERY_QUIET_MS, fw_recovery_gen = 0,
             fw_reconstruct_gen = 0, fw_boot_reset_attempts = 0, fw_boot_deadline = 0,
             fw_boot_commit_epoch = 0, state_flags = {}, ad_trace = [] \<rparr>)"

text \<open>One step: a recovery operation called from anywhere in the driver, the timer firing,
  or any other code, which may change everything but the recovery budget.\<close>

inductive recovery_step :: "'c esp_if_ops \<Rightarrow> 'c esp_adapter \<Rightarrow> 'c esp_adapter \<Rightarrow> bool"
  for ops where
  schedule: "recovery_step ops a (esp_schedule_recovery ops d r f a)"
| restart: "recovery_step ops a (esp_request_firmware_restart env ops a)"
| retry: "recovery_step ops a (esp_bootup_request_retry env ops a)"
| timer: "fw_recovery_work a \<noteq> None \<Longrightarrow> recovery_step ops a (esp_fw_recovery_work env ops a)"
| begin_reconstruction: "recovery_step ops a (esp_begin_reconstruction a)"
| clear_reconstruct: "recovery_step ops a (esp_clear_reconstruct_flag a)"
| commit: "recovery_step ops a (esp_commit_reconstruction a)"
| finish: "recovery_step ops a (esp_finish_reconstruction ops a)"
| rebind: "recovery_step ops a (esp_reset_boot_recovery_for_binding p a)"
| other: "fw_boot_reset_attempts a' = fw_boot_reset_attempts a \<Longrightarrow> ad_trace a' = ad_trace a \<Longrightarrow>
    fw_recovery_backoff_ms a' = fw_recovery_backoff_ms a \<Longrightarrow> recovery_step ops a a'"

inductive recovery_reachable :: "'c esp_if_ops \<Rightarrow> 'c esp_adapter \<Rightarrow> bool" for ops where
  start: "init_adapter True True = Some a \<Longrightarrow> recovery_reachable ops a"
| step: "recovery_reachable ops a \<Longrightarrow> recovery_step ops a b \<Longrightarrow> recovery_reachable ops b"

lemma budget_inv_init: "init_adapter x y = Some a \<Longrightarrow> budget_inv a"
  by (auto simp: init_adapter_def budget_inv_def split: if_splits)

context recovery_transport
begin

lemma budget_step: "recovery_step ops a b \<Longrightarrow> budget_inv a \<Longrightarrow> budget_inv b"
proof (induction rule: recovery_step.induct)
  case (other a' a)
  then show ?case by (simp add: budget_inv_def)
qed (auto simp: budget_schedule budget_restart budget_retry budget_worker budget_finish
    esp_begin_reconstruction_def esp_clear_reconstruct_flag_def esp_commit_reconstruction_def
    esp_reset_boot_recovery_for_binding_def Let_def, auto simp: budget_inv_def)

lemma budget_reachable: "recovery_reachable ops a \<Longrightarrow> budget_inv a"
  by (induction rule: recovery_reachable.induct) (auto intro: budget_inv_init budget_step)

end

section \<open>Behaviour of the operations\<close>

lemma restart_coalesces:
  "fw_boot_deadline a \<noteq> 0 \<Longrightarrow> esp_request_firmware_restart env ops a = a"
  by (simp add: esp_request_firmware_restart_def)

lemma restart_exhausts:
  "fw_boot_deadline a = 0 \<Longrightarrow> 3 \<le> fw_boot_reset_attempts a \<Longrightarrow>
   esp_request_firmware_restart env ops a = (set_bit ESP_FW_RECOVERY_EXHAUSTED a)\<lparr>fw_boot_deadline := 0\<rparr>"
  by (simp add: esp_request_firmware_restart_def)

context recovery_transport
begin

lemma restart_counts:
  assumes "fw_boot_deadline a = 0" and "fw_boot_reset_attempts a < 3"
    and "\<not> test_bit ESP_FW_RECOVERY_EXHAUSTED a"
  shows "fw_boot_reset_attempts (esp_request_firmware_restart env ops a) = fw_boot_reset_attempts a + 1"
    and "fw_boot_deadline (esp_request_firmware_restart env ops a) =
           jiffies env + msecs_to_jiffies env 9000"
    and "f \<noteq> ESP_FW_RESTART_NEEDED \<Longrightarrow>
           test_bit f (esp_request_firmware_restart env ops a) = test_bit f a"
  using assms by (simp_all add: esp_request_firmware_restart_def Let_def dispatch_view)
    (simp_all add: flag_defs)

lemma hook_flags [simp]:
  "state_flags (run_hook (if_op op_note_fw_reset ops b) a) = state_flags a"
  "fw_boot_deadline (run_hook (if_op op_note_fw_reset ops b) a) = fw_boot_deadline a"
  "fw_boot_reset_attempts (run_hook (if_op op_note_fw_reset ops b) a) = fw_boot_reset_attempts a"
  "fw_recovery_gen (run_hook (if_op op_note_fw_reset ops b) a) = fw_recovery_gen a"
  "fw_reconstruct_gen (run_hook (if_op op_note_fw_reset ops b) a) = fw_reconstruct_gen a"
  by (rule hook_views(1) [THEN recovery_viewD(4)] hook_views(1) [THEN recovery_viewD(2)]
      hook_views(1) [THEN recovery_viewD(1)] hook_views(1) [THEN recovery_viewD(6)]
      hook_views(1) [THEN recovery_viewD(7)])+

text \<open>What a scheduled request leaves behind, unless the driver or the transport is going away.\<close>

lemma schedule_effect:
  assumes "\<not> test_bit ESP_DRIVER_UNLOADING a" "\<not> test_bit ESP_TRANSPORT_REMOVING a"
    and "b = esp_schedule_recovery ops d r fw_reset a"
  shows "test_bit f b \<longleftrightarrow> f = ESP_FW_RECOVERY_PENDING \<or> f = ESP_FW_RESET_EXPECTED \<and> fw_reset \<or> test_bit f a"
    and "fw_boot_deadline b = fw_boot_deadline a"
    and "fw_boot_reset_attempts b = fw_boot_reset_attempts a"
    and "fw_recovery_gen b = fw_recovery_gen a + 1"
    and "fw_reconstruct_gen b = fw_reconstruct_gen a"
    and "fw_recovery_work b \<noteq> None"
  using assms
  by (auto simp: esp_schedule_recovery_def esp_recovery_drop_tx_unlocked_def flag_defs work_defs Let_def)

lemma restart_flags:
  "f \<noteq> ESP_FW_RESTART_NEEDED \<Longrightarrow> f \<noteq> ESP_FW_RECOVERY_EXHAUSTED \<Longrightarrow>
   test_bit f (esp_request_firmware_restart env ops a) = test_bit f a"
  by (simp add: esp_request_firmware_restart_def Let_def dispatch_view)
    (simp add: flag_defs)

lemma restart_armed:
  "fw_boot_deadline (esp_request_firmware_restart env ops a) \<noteq> 0 \<or>
   test_bit ESP_FW_RECOVERY_EXHAUSTED (esp_request_firmware_restart env ops a) \<or>
   jiffies env + msecs_to_jiffies env 9000 = 0"
  by (simp add: esp_request_firmware_restart_def Let_def dispatch_view) (simp add: flag_defs)

text \<open>The retry: recovery is pending and a reset expected; a reset is in flight or the budget
  is exhausted.\<close>

lemma retry_quarantines:
  assumes "\<not> test_bit ESP_DRIVER_UNLOADING a" "\<not> test_bit ESP_TRANSPORT_REMOVING a"
    and "b = esp_bootup_request_retry env ops a"
  shows "test_bit ESP_FW_RECOVERY_PENDING b" "test_bit ESP_FW_RESET_EXPECTED b"
    "fw_boot_deadline b \<noteq> 0 \<or> test_bit ESP_FW_RECOVERY_EXHAUSTED b \<or> jiffies env + msecs_to_jiffies env 9000 = 0"
proof -
  let ?c = "clear_bit ESP_CLEANUP_IN_PROGRESS a"
  have c: "\<not> test_bit ESP_DRIVER_UNLOADING ?c" "\<not> test_bit ESP_TRANSPORT_REMOVING ?c"
    using assms(1,2) by (simp_all add: flag_defs)
  have b: "b = esp_request_firmware_restart env ops (esp_schedule_recovery ops 3000 True True ?c)"
    using assms by (simp add: esp_bootup_request_retry_def Let_def)
  show "test_bit ESP_FW_RECOVERY_PENDING b" "test_bit ESP_FW_RESET_EXPECTED b"
    using schedule_effect(1) [OF c refl] by (simp_all add: b restart_flags)
  show "fw_boot_deadline b \<noteq> 0 \<or> test_bit ESP_FW_RECOVERY_EXHAUSTED b \<or> jiffies env + msecs_to_jiffies env 9000 = 0"
    unfolding b by (rule restart_armed)
qed

text \<open>Any sequence of requests between the begin and the commit of a reconstruction.\<close>

lemma schedules_effect:
  assumes "\<not> test_bit ESP_DRIVER_UNLOADING a" "\<not> test_bit ESP_TRANSPORT_REMOVING a"
    and "b = fold (\<lambda>(d, r, fw_reset). esp_schedule_recovery ops d r fw_reset) reqs a"
  shows "test_bit f b \<longleftrightarrow> f = ESP_FW_RECOVERY_PENDING \<and> reqs \<noteq> [] \<or>
      f = ESP_FW_RESET_EXPECTED \<and> (\<exists>(d, r, fw_reset) \<in> set reqs. fw_reset) \<or> test_bit f a"
    and "fw_recovery_gen b = fw_recovery_gen a + of_nat (length reqs)"
    and "fw_reconstruct_gen b = fw_reconstruct_gen a"
proof -
  have "(test_bit f b \<longleftrightarrow> f = ESP_FW_RECOVERY_PENDING \<and> reqs \<noteq> [] \<or>
      f = ESP_FW_RESET_EXPECTED \<and> (\<exists>(d, r, fw_reset) \<in> set reqs. fw_reset) \<or> test_bit f a) \<and>
    fw_recovery_gen b = fw_recovery_gen a + of_nat (length reqs) \<and> fw_reconstruct_gen b = fw_reconstruct_gen a"
    using assms
  proof (induction reqs arbitrary: a)
    case (Cons q reqs)
    obtain d r w where q: "q = (d, r, w)" by (metis prod_cases3)
    note e = schedule_effect [OF Cons.prems(1,2), of "esp_schedule_recovery ops d r w a" d r w]
    have "\<not> test_bit ESP_DRIVER_UNLOADING (esp_schedule_recovery ops d r w a)"
      "\<not> test_bit ESP_TRANSPORT_REMOVING (esp_schedule_recovery ops d r w a)"
      using Cons.prems(1,2) e(1) by simp_all
    from Cons.IH [OF this] Cons.prems(3) e(1,4,5) q show ?case by auto
  qed simp
  then show "test_bit f b \<longleftrightarrow> f = ESP_FW_RECOVERY_PENDING \<and> reqs \<noteq> [] \<or>
      f = ESP_FW_RESET_EXPECTED \<and> (\<exists>(d, r, fw_reset) \<in> set reqs. fw_reset) \<or> test_bit f a"
    "fw_recovery_gen b = fw_recovery_gen a + of_nat (length reqs)"
    "fw_reconstruct_gen b = fw_reconstruct_gen a" by blast+
qed

lemma commit_keeps_requests:
  assumes "\<not> test_bit ESP_DRIVER_UNLOADING a" "\<not> test_bit ESP_TRANSPORT_REMOVING a"
    "length reqs < 2 ^ 32"
    "b = fold (\<lambda>(d, r, fw_reset). esp_schedule_recovery ops d r fw_reset) reqs (esp_begin_reconstruction a)"
    "c = esp_commit_reconstruction b"
  shows "if reqs = []
     then ad_state c = ESP_CONTEXT_READY \<and> \<not> test_bit ESP_FW_RECOVERY_PENDING c \<and>
          \<not> test_bit ESP_FW_RESET_EXPECTED c \<and> fw_recovery_work c = None
     else ad_state c = ESP_CONTEXT_RX_READY \<and> test_bit ESP_FW_RECOVERY_PENDING c \<and>
          fw_recovery_work c = Some 500 \<and>
          ((\<exists>(d, r, fw_reset) \<in> set reqs. fw_reset) \<longrightarrow> test_bit ESP_FW_RESET_EXPECTED c)"
proof -
  let ?a = "esp_begin_reconstruction a"
  have a: "\<not> test_bit ESP_DRIVER_UNLOADING ?a" "\<not> test_bit ESP_TRANSPORT_REMOVING ?a"
    "fw_recovery_gen ?a = fw_reconstruct_gen ?a"
    using assms(1,2) by (simp_all add: esp_begin_reconstruction_def flag_defs Let_def)
  note e = schedules_effect [OF a(1,2) assms(4)]
  have "(of_nat (length reqs) :: u32) = 0 \<longleftrightarrow> reqs = []"
    using assms(3) unsigned_of_nat [of "length reqs", where 'b = 32 and 'a = nat]
    by (auto simp: take_bit_nat_eq_self word_unat_eq_iff)
  then have g: "fw_recovery_gen b = fw_reconstruct_gen b \<longleftrightarrow> reqs = []"
    using e(2,3) a(3) by simp
  show ?thesis
    using e(1) g unfolding assms(5) esp_commit_reconstruction_def Let_def
    by (auto simp: flag_defs work_defs)
qed

text \<open>A reboot attempt whose deadline has passed is retried or ends the budget, whatever the
  cleanup and reconstruction flags say.\<close>

lemma worker_expired:
  assumes "\<not> test_bit ESP_DRIVER_UNLOADING a" "\<not> test_bit ESP_TRANSPORT_REMOVING a"
    "\<not> test_bit ESP_FW_RECOVERY_EXHAUSTED a" "fw_boot_deadline a \<noteq> 0"
    "time_after_eq (jiffies env) (fw_boot_deadline a)"
    "\<not> test_bit ESP_INIT_DONE a \<or> test_bit ESP_FW_RECOVERY_PENDING a \<or> test_bit ESP_FW_RESET_EXPECTED a"
    "b = esp_fw_recovery_work env ops a"
  shows "if fw_boot_reset_attempts a < 3
     then fw_boot_reset_attempts b = fw_boot_reset_attempts a + 1 \<and>
          fw_boot_deadline b = jiffies env + msecs_to_jiffies env 9000
     else test_bit ESP_FW_RECOVERY_EXHAUSTED b \<and> fw_boot_deadline b = 0"
proof -
  let ?a = "a\<lparr>fw_recovery_work := None, fw_boot_deadline := 0\<rparr>"
  let ?c = "clear_bit ESP_CLEANUP_IN_PROGRESS ?a"
  define s where "s = esp_schedule_recovery ops 3000 True True ?c"
  have b: "b = esp_request_firmware_restart env ops s"
    using assms by (auto simp: esp_fw_recovery_work_def esp_bootup_request_retry_def Let_def flag_defs s_def)
  have c: "\<not> test_bit ESP_DRIVER_UNLOADING ?c" "\<not> test_bit ESP_TRANSPORT_REMOVING ?c"
    using assms(1,2) by (simp_all add: flag_defs)
  note e = schedule_effect [OF c s_def]
  have s: "fw_boot_deadline s = 0" "fw_boot_reset_attempts s = fw_boot_reset_attempts a"
    "\<not> test_bit ESP_FW_RECOVERY_EXHAUSTED s"
    using e(1-3) assms(3) by (simp_all add: flag_defs)
  show ?thesis
  proof (cases "fw_boot_reset_attempts a < 3")
    case True
    with s restart_counts(1,2) [of s env] show ?thesis by (simp add: b)
  next
    case False
    with s restart_exhausts [of s env ops] show ?thesis by (simp add: b flag_defs)
  qed
qed

end

end
