(* ===== verification/Host_Tx.thy ===== *)
theory Host_Tx
  imports Recovery
begin

text \<open>
  The transmit path of the host above the transports (\<^verbatim>\<open>host/main.c\<close>): the common frame
  layout, admission to the transport, the network transmit hook and its counters. Shown: a
  built frame decodes to the payload and passes its own checksum, its length is a multiple of
  four, and every transmit call is counted exactly once or reported busy.
\<close>

section \<open>Frame layout\<close>

text \<open>The header is padded so that the frame length is a multiple of four; \<open>pad_len\<close> is the
  offset of the payload. The data pointer is aligned, as the allocators of the transports
  guarantee.\<close>

definition esp_pad_len :: "nat \<Rightarrow> nat" where
  "esp_pad_len len = HDR_SIZE + (4 - (len + HDR_SIZE) mod 4) mod 4"

definition esp_tx_header :: "u4 \<Rightarrow> u4 \<Rightarrow> u8 \<Rightarrow> u16 \<Rightarrow> nat \<Rightarrow> esp_payload_header" where
  "esp_tx_header if_type if_num packet_type checksum len =
     \<lparr>ph_if_type = if_type, ph_if_num = if_num, ph_flags = 0, ph_packet_type = packet_type,
      ph_reserved1 = 0, ph_len = of_nat len, ph_offset = of_nat (esp_pad_len len),
      ph_checksum = checksum, ph_reserved2 = 0, ph_union = 0\<rparr>"

definition esp_tx_frame :: "u4 \<Rightarrow> u4 \<Rightarrow> u8 \<Rightarrow> bool \<Rightarrow> bytes \<Rightarrow> bytes" where
  "esp_tx_frame if_type if_num packet_type checksum_enabled payload =
     (let len = length payload;
          pad = replicate (esp_pad_len len - HDR_SIZE) 0;
          sum = compute_checksum 0
                  (header_bytes (esp_tx_header if_type if_num packet_type 0 len) @ pad @ payload)
      in header_bytes (esp_tx_header if_type if_num packet_type
           (if checksum_enabled then sum else 0) len) @ pad @ payload)"

lemma esp_pad_len_bounds: "12 \<le> esp_pad_len len" "esp_pad_len len \<le> 15" "4 dvd esp_pad_len len + len"
proof -
  define q r where "q = len div 4" and "r = len mod 4"
  have len: "len = 4 * q + r" and r: "r < 4" by (simp_all add: q_def r_def)
  have "(4 * q + r + 12) mod 4 = r" using r by presburger
  then have "esp_pad_len len = 12 + (4 - r) mod 4" by (simp add: esp_pad_len_def HDR_SIZE_def len)
  moreover have "r = 0 \<or> r = 1 \<or> r = 2 \<or> r = 3" using r by arith
  ultimately show "12 \<le> esp_pad_len len" "esp_pad_len len \<le> 15" "4 dvd esp_pad_len len + len"
    unfolding len by (auto simp: dvd_eq_mod_eq_0)
qed

lemma length_esp_tx_frame: "length (esp_tx_frame t n p c payload) = esp_pad_len (length payload) + length payload"
  using esp_pad_len_bounds [of "length payload"] by (simp add: esp_tx_frame_def Let_def HDR_SIZE_def)

text \<open>The header of a built frame, and the payload behind its offset.\<close>

lemma header_of_tx_frame:
  "\<exists>sum. header_of (esp_tx_frame t n p c payload) = Some (esp_tx_header t n p sum (length payload)) \<and>
     (\<not> c \<longrightarrow> sum = 0)"
  by (auto simp: esp_tx_frame_def Let_def)

lemma drop_tx_frame: "drop (esp_pad_len (length payload)) (esp_tx_frame t n p c payload) = payload"
proof -
  have "esp_pad_len (length payload) - 12 + 12 = esp_pad_len (length payload)"
    using esp_pad_len_bounds [of "length payload"] by simp
  then show ?thesis by (simp add: esp_tx_frame_def Let_def HDR_SIZE_def)
qed

lemma esp_tx_header_fields:
  assumes "length payload < 65536"
  shows "unat (ph_len (esp_tx_header t n p s (length payload))) = length payload"
    and "unat (ph_offset (esp_tx_header t n p s (length payload))) = esp_pad_len (length payload)"
  using assms esp_pad_len_bounds [of "length payload"]
  by (simp_all add: esp_tx_header_def unat_of_nat)

lemma tx_frame_checksum: "checksum_holds (esp_tx_frame t n p True payload)"
proof -
  have z: "(esp_tx_header t n p s l)\<lparr>ph_checksum := 0\<rparr> = esp_tx_header t n p 0 l" for s l
    by (simp add: esp_tx_header_def)
  have c: "ph_checksum (esp_tx_header t n p s l) = s" for s l
    by (simp add: esp_tx_header_def)
  show ?thesis by (simp add: checksum_holds_def esp_tx_frame_def Let_def z c HDR_SIZE_def)
qed

section \<open>Admission to the transport\<close>

definition esp_send_packet :: "'c esp_if_ops \<Rightarrow> bytes \<Rightarrow> 'c esp_adapter \<Rightarrow> int \<times> 'c esp_adapter" where
  "esp_send_packet ops skb a =
     (case if_op op_write ops a of
        None \<Rightarrow> (- EINVAL, a)
      | Some wr \<Rightarrow>
          if test_bit ESP_TRANSPORT_REMOVING a \<or>
             (test_bit ESP_CLEANUP_IN_PROGRESS a \<and> \<not> test_bit ESP_ALLOW_DEINIT a \<and>
              \<not> test_bit ESP_ALLOW_RECONSTRUCT a)
          then (- ESHUTDOWN, a)
          else wr a skb)"

section \<open>Network transmit\<close>

abbreviation (input) NETDEV_TX_OK :: int where "NETDEV_TX_OK \<equiv> 0"
abbreviation (input) NETDEV_TX_BUSY :: int where "NETDEV_TX_BUSY \<equiv> 0x10"
abbreviation (input) ETH_FRAME_LEN :: nat where "ETH_FRAME_LEN \<equiv> 1514"

text \<open>A frame of the network stack: its bytes, whether its protocol is EAPOL, the headroom of
  its buffer and whether the data pointer is aligned.\<close>

record net_skb =
  ns_data :: bytes
  ns_eapol :: bool
  ns_headroom :: nat
  ns_aligned :: bool

text \<open>\<open>host_sleep\<close> and the kernel's answers to linearisation and allocation.\<close>

record tx_env =
  te_host_sleep :: bool
  te_linearize :: bool
  te_alloc_skb :: bool

definition upd_stats :: "(net_stats \<Rightarrow> net_stats) \<Rightarrow> 'c esp_adapter \<Rightarrow> 'c esp_adapter" where
  "upd_stats f a = a\<lparr>priv0 := map_option (\<lambda>p. p\<lparr>wd_stats := f (wd_stats p)\<rparr>) (priv0 a)\<rparr>"

definition process_tx_packet ::
  "tx_env \<Rightarrow> 'c esp_if_ops \<Rightarrow> net_skb \<Rightarrow> 'c esp_adapter \<Rightarrow> int \<times> 'c esp_adapter" where
  "process_tx_packet env ops skb a =
     (case priv0 a of
        None \<Rightarrow> (NETDEV_TX_OK, a)
      | Some priv \<Rightarrow>
          if queue_stopped priv then (NETDEV_TX_BUSY, a)
          else if te_host_sleep env then (NETDEV_TX_BUSY, a)
          else
            let realloc = ns_headroom skb < esp_pad_len (length (ns_data skb)) \<or> \<not> ns_aligned skb
            in if realloc \<and> (\<not> te_linearize env \<or> \<not> te_alloc_skb env)
               then (NETDEV_TX_OK, upd_stats (\<lambda>s. s\<lparr>tx_errors := tx_errors s + 1\<rparr>) a)
               else
                 let frame = esp_tx_frame (wd_if_type priv) (wd_if_num priv)
                       (if ns_eapol skb then PACKET_TYPE_EAPOL else PACKET_TYPE_DATA)
                       (capabilities a AND 0x80 \<noteq> 0) (ns_data skb)
                 in if \<not> stop_data priv \<and> (port_open priv \<or> ns_eapol skb)
                    then let (ret, a) = esp_send_packet ops frame a
                         in (0, upd_stats (\<lambda>s. if ret \<noteq> 0 then s\<lparr>tx_errors := tx_errors s + 1\<rparr>
                                  else s\<lparr>tx_packets := tx_packets s + 1,
                                         tx_bytes := tx_bytes s + length (ns_data skb)\<rparr>) a)
                    else (0, upd_stats (\<lambda>s. s\<lparr>tx_dropped := tx_dropped s + 1\<rparr>) a))"

definition esp_hard_start_xmit ::
  "tx_env \<Rightarrow> 'c esp_if_ops \<Rightarrow> net_skb \<Rightarrow> 'c esp_adapter \<Rightarrow> int \<times> 'c esp_adapter" where
  "esp_hard_start_xmit env ops skb a =
     (case priv0 a of
        None \<Rightarrow> (NETDEV_TX_OK, a)
      | Some priv \<Rightarrow>
          if \<not> port_open priv \<and> \<not> ns_eapol skb
          then (NETDEV_TX_OK, upd_stats (\<lambda>s. s\<lparr>tx_dropped := tx_dropped s + 1\<rparr>) a)
          else if ns_data skb = [] \<or> ETH_FRAME_LEN < length (ns_data skb)
          then (NETDEV_TX_OK, upd_stats (\<lambda>s. s\<lparr>tx_dropped := tx_dropped s + 1\<rparr>) a)
          else process_tx_packet env ops skb a)"

section \<open>Port and queue control\<close>

definition upd_priv :: "(esp_wifi_device \<Rightarrow> esp_wifi_device) \<Rightarrow> 'c esp_adapter \<Rightarrow> 'c esp_adapter" where
  "upd_priv f a = a\<lparr>priv0 := map_option f (priv0 a)\<rparr>"

definition esp_port_open :: "'c esp_adapter \<Rightarrow> 'c esp_adapter" where
  "esp_port_open = upd_priv (\<lambda>p. p\<lparr>port_open := True, stop_data := False\<rparr>)"

definition esp_port_close :: "'c esp_adapter \<Rightarrow> 'c esp_adapter" where
  "esp_port_close = upd_priv (\<lambda>p. p\<lparr>port_open := False\<rparr>)"

definition esp_tx_pause :: "'c esp_adapter \<Rightarrow> 'c esp_adapter" where
  "esp_tx_pause = upd_priv (\<lambda>p. if wd_ndev p then p\<lparr>queue_stopped := True\<rparr> else p)"

definition esp_tx_resume :: "'c esp_adapter \<Rightarrow> 'c esp_adapter" where
  "esp_tx_resume = upd_priv (\<lambda>p. if wd_ndev p then p\<lparr>queue_stopped := False\<rparr> else p)"

text \<open>\<open>esp_open\<close> and \<open>esp_stop\<close>; \<open>cmd\<close> is the result of the interface command.\<close>

definition esp_open :: "int \<Rightarrow> 'c esp_adapter \<Rightarrow> int \<times> 'c esp_adapter" where
  "esp_open cmd a =
     (case priv0 a of
        None \<Rightarrow> (- EINVAL, a)
      | Some p \<Rightarrow>
          if interface_initialized p then (0, a)
          else if cmd \<noteq> 0 then (- EINVAL, a)
          else (0, upd_priv (\<lambda>p. p\<lparr>interface_initialized := True\<rparr>) a))"

definition esp_stop :: "int \<Rightarrow> 'c esp_adapter \<Rightarrow> 'c esp_adapter" where
  "esp_stop cmd a =
     (let a = upd_priv (\<lambda>p. p\<lparr>stop_data := True\<rparr>) (esp_port_close a)
      in case priv0 a of
           None \<Rightarrow> a
         | Some p \<Rightarrow>
             if interface_initialized p \<and>
                \<not> (\<not> test_bit ESP_SKIP_FW_DEINIT a \<and> \<not> test_bit ESP_TRANSPORT_REMOVING a \<and>
                   \<not> test_bit ESP_DRIVER_UNLOADING a \<and> cmd \<noteq> 0)
             then upd_priv (\<lambda>p. p\<lparr>interface_initialized := False\<rparr>) a else a)"

section \<open>Accounting\<close>

text \<open>Packets sent, failed and dropped so far.\<close>

definition tx_counted :: "'c esp_adapter \<Rightarrow> nat" where
  "tx_counted a = (case priv0 a of None \<Rightarrow> 0
     | Some p \<Rightarrow> tx_packets (wd_stats p) + tx_errors (wd_stats p) + tx_dropped (wd_stats p))"

lemma tx_counted_upd:
  assumes "priv0 a \<noteq> None" "\<And>s. tx_packets (f s) + tx_errors (f s) + tx_dropped (f s) =
      Suc (tx_packets s + tx_errors s + tx_dropped s)"
  shows "tx_counted (upd_stats f a) = Suc (tx_counted a)"
  using assms by (auto simp: tx_counted_def upd_stats_def)

text \<open>A transport that leaves the network interface alone.\<close>

lemma xmit_counted:
  assumes "priv0 a \<noteq> None"
    and "\<And>a skb. priv0 (snd (esp_send_packet ops skb a)) = priv0 a"
    and "esp_hard_start_xmit env ops skb a = (ret, b)"
  shows "ret = NETDEV_TX_OK \<and> tx_counted b = Suc (tx_counted a) \<or> ret = NETDEV_TX_BUSY \<and> b = a"
proof -
  obtain p where p: "priv0 a = Some p" using assms(1) by blast
  note one = tx_counted_upd [OF assms(1)]
  have send: "tx_counted (upd_stats (\<lambda>s. if r \<noteq> 0 then s\<lparr>tx_errors := tx_errors s + 1\<rparr>
        else s\<lparr>tx_packets := tx_packets s + 1, tx_bytes := tx_bytes s + n\<rparr>) c) = Suc (tx_counted a)"
    if "esp_send_packet ops fr a = (r, c)" for r c n fr
  proof -
    have "priv0 c = priv0 a" using assms(2) [of fr a] that by simp
    then show ?thesis using tx_counted_upd [of c] assms(1) by (auto simp: tx_counted_def)
  qed
  show ?thesis
    using assms(3) p
    by (auto simp: esp_hard_start_xmit_def process_tx_packet_def Let_def one send split: if_splits prod.splits)
qed

text \<open>With a closed port only EAPOL passes, and after \<open>esp_stop\<close> nothing does.\<close>

lemma stopped_sends_nothing:
  assumes "esp_hard_start_xmit env ops skb (esp_stop cmd a) = (ret, b)"
  shows "b = esp_stop cmd a \<or> (\<exists>f. b = upd_stats f (esp_stop cmd a))"
proof -
  have "stop_data p \<and> \<not> port_open p" if "priv0 (esp_stop cmd a) = Some p" for p
    using that by (auto simp: esp_stop_def esp_port_close_def upd_priv_def Let_def split: option.splits if_splits)
  with assms show ?thesis
    by (auto simp: esp_hard_start_xmit_def process_tx_packet_def Let_def split: if_splits option.splits)
qed

end
