(* ===== verification/Byte_Pipe.thy ===== *)
theory Byte_Pipe
  imports Prelude
begin

text \<open>
  The contract of a lossless byte pipe, which both ends of the radio co-processor stream
  promise: what is accepted comes out once, in order. \<open>pipe_run\<close> runs a sequence of
  operations and collects what was accepted and what was delivered. The locale
  \<open>failing_pipe\<close> has the laws of one operation and the theorem about sequences for an end
  that may give up; \<open>byte_pipe\<close> is the case of an end that never does.
\<close>

datatype pipe_op = Put bytes | Get nat

fun pipe_run :: "(bytes \<Rightarrow> 's \<Rightarrow> bool \<times> 's) \<Rightarrow> (nat \<Rightarrow> 's \<Rightarrow> bytes \<times> 's) \<Rightarrow>
    pipe_op list \<Rightarrow> 's \<Rightarrow> bytes \<times> bytes \<times> 's" where
  "pipe_run put get [] s = ([], [], s)"
| "pipe_run put get (Put d # ops) s =
     (let (ok, s) = put d s; (inn, out, s) = pipe_run put get ops s
      in ((if ok then d else []) @ inn, out, s))"
| "pipe_run put get (Get n # ops) s =
     (let (got, s) = get n s; (inn, out, s) = pipe_run put get ops s
      in (inn, got @ out, s))"

text \<open>A pipe that may fail: \<open>ok\<close> is kept by every operation, \<open>alive\<close> says that no byte was lost
  so far and never comes back. A run that ends alive has lost nothing.\<close>

locale failing_pipe =
  fixes ok :: "'s \<Rightarrow> bool" and alive :: "'s \<Rightarrow> bool" and contents :: "'s \<Rightarrow> bytes"
    and put :: "bytes \<Rightarrow> 's \<Rightarrow> bool \<times> 's" and get :: "nat \<Rightarrow> 's \<Rightarrow> bytes \<times> 's"
  assumes put_ok: "ok s \<Longrightarrow> put d s = (b, s') \<Longrightarrow> ok s'"
    and put_alive: "ok s \<Longrightarrow> put d s = (b, s') \<Longrightarrow> alive s' \<Longrightarrow> alive s"
    and put_contents: "ok s \<Longrightarrow> put d s = (b, s') \<Longrightarrow> alive s' \<Longrightarrow>
      contents s' = contents s @ (if b then d else [])"
    and get_ok: "ok s \<Longrightarrow> get n s = (g, s') \<Longrightarrow> ok s'"
    and get_alive: "ok s \<Longrightarrow> get n s = (g, s') \<Longrightarrow> alive s' \<Longrightarrow> alive s"
    and get_contents: "ok s \<Longrightarrow> get n s = (g, s') \<Longrightarrow> alive s' \<Longrightarrow> contents s = g @ contents s'"
begin

lemma run_alive_fifo:
  "ok s \<Longrightarrow> pipe_run put get ops s = (inn, out, s') \<Longrightarrow> alive s' \<Longrightarrow>
   ok s' \<and> alive s \<and> contents s @ inn = out @ contents s'"
proof (induction ops arbitrary: s inn out s')
  case (Cons op ops)
  show ?case
  proof (cases op)
    case (Put d)
    obtain b t where p: "put d s = (b, t)" by fastforce
    obtain i u v where r: "pipe_run put get ops t = (i, u, v)" by (metis prod_cases3)
    then have v: "v = s'" using Cons.prems(2) by (simp add: Put p)
    from Cons.IH [OF put_ok [OF Cons.prems(1) p] r] Cons.prems(3) v
    have "ok s'" "alive t" "contents t @ i = u @ contents s'" by auto
    with put_contents [OF Cons.prems(1) p] put_alive [OF Cons.prems(1) p] Cons.prems(2) v
    show ?thesis by (auto simp: Put p r)
  next
    case (Get n)
    obtain g t where p: "get n s = (g, t)" by fastforce
    obtain i u v where r: "pipe_run put get ops t = (i, u, v)" by (metis prod_cases3)
    then have v: "v = s'" using Cons.prems(2) by (simp add: Get p)
    from Cons.IH [OF get_ok [OF Cons.prems(1) p] r] Cons.prems(3) v
    have "ok s'" "alive t" "contents t @ i = u @ contents s'" by auto
    with get_contents [OF Cons.prems(1) p] get_alive [OF Cons.prems(1) p] Cons.prems(2) v
    show ?thesis by (auto simp: Get p r)
  qed
qed simp

end

text \<open>A lossless pipe is one that is always alive.\<close>

locale byte_pipe =
  fixes ok :: "'s \<Rightarrow> bool" and contents :: "'s \<Rightarrow> bytes"
    and put :: "bytes \<Rightarrow> 's \<Rightarrow> bool \<times> 's" and get :: "nat \<Rightarrow> 's \<Rightarrow> bytes \<times> 's"
  assumes put_ok: "ok s \<Longrightarrow> put d s = (b, s') \<Longrightarrow> ok s'"
    and put_contents: "ok s \<Longrightarrow> put d s = (b, s') \<Longrightarrow> contents s' = contents s @ (if b then d else [])"
    and get_ok: "ok s \<Longrightarrow> get n s = (g, s') \<Longrightarrow> ok s'"
    and get_contents: "ok s \<Longrightarrow> get n s = (g, s') \<Longrightarrow> contents s = g @ contents s'"

sublocale byte_pipe \<subseteq> lossless: failing_pipe ok "\<lambda>_. True" contents put get
  by unfold_locales (blast intro: put_ok get_ok put_contents get_contents)+

context byte_pipe
begin

lemma run_fifo:
  "ok s \<Longrightarrow> pipe_run put get ops s = (inn, out, s') \<Longrightarrow> ok s' \<and> contents s @ inn = out @ contents s'"
  by (drule (1) lossless.run_alive_fifo) simp_all

end

end
