(* ===== verification/Host_Rcp.thy ===== *)
theory Host_Rcp
  imports Host_Tx Byte_Pipe
begin

text \<open>
  The byte-stream endpoint \<^verbatim>\<open>/dev/esp_rcp0\<close> of the host (\<^verbatim>\<open>host/esp_rcp.c\<close>): registration for
  one firmware incarnation, the open handshake with the session nonce, read, write and poll,
  reception, and the invalidation by a boot event. An adapter pointer is a number (\<open>None\<close> is
  \<open>NULL\<close>); a definition that follows the pointer gets the adapter record beside it. Wake-ups
  carry no state. A call that would sleep returns \<open>None\<close> and is repeated when it wakes up.
\<close>

abbreviation (input) ESP_RCP_RX_QUEUE_LIMIT :: nat where "ESP_RCP_RX_QUEUE_LIMIT \<equiv> 64"
abbreviation (input) ESP_RCP_TX_INFLIGHT_LIMIT :: int where "ESP_RCP_TX_INFLIGHT_LIMIT \<equiv> 64"
abbreviation (input) ESP_RCP_HOSTED_CHUNK_MAX :: nat where "ESP_RCP_HOSTED_CHUNK_MAX \<equiv> 1400"
abbreviation (input) ESP_EXT_CAP_RCP_ANY :: u32 where "ESP_EXT_CAP_RCP_ANY \<equiv> 0x8040"

section \<open>State\<close>

text \<open>The static variables of the file. \<open>rcp_tx_slots\<close> is \<open>rcp_tx_inflight\<close>.\<close>

record rcp_dev =
  rcp_rx_q :: "bytes list"
  rcp_early_q :: "bytes list"
  rcp_queue_initialized :: bool
  rcp_boot_pending :: bool
  rcp_early_overflow :: bool
  rcp_boot_adapter :: "nat option"
  rcp_registered :: bool
  rcp_opened :: bool
  rcp_ever_opened :: bool
  rcp_opening_first :: bool
  rcp_generation :: u32
  rcp_adapter :: "nat option"
  rcp_session_acked_nonce :: u64
  rcp_session_active :: bool
  rcp_tx_slots :: int

text \<open>The open file: its generation (\<open>private_data\<close>) and \<open>O_NONBLOCK\<close>.\<close>

record rcp_file =
  f_generation :: "u32 option"
  f_nonblock :: bool

text \<open>What the kernel answers: allocation, user copies, registration of the device.\<close>

record rcp_kenv =
  rk_kzalloc :: bool
  rk_alloc_skb :: bool
  rk_copy_from_user :: bool
  rk_copy_to_user :: bool
  rk_misc_register :: int

definition rcp_dev_zero :: rcp_dev where
  "rcp_dev_zero = \<lparr>rcp_rx_q = [], rcp_early_q = [], rcp_queue_initialized = False,
     rcp_boot_pending = False, rcp_early_overflow = False, rcp_boot_adapter = None,
     rcp_registered = False, rcp_opened = False, rcp_ever_opened = False, rcp_opening_first = False,
     rcp_generation = 0, rcp_adapter = None, rcp_session_acked_nonce = 0, rcp_session_active = False,
     rcp_tx_slots = 0\<rparr>"

definition esp_rcp_init_queues_locked :: "rcp_dev \<Rightarrow> rcp_dev" where
  "esp_rcp_init_queues_locked s =
     (if rcp_queue_initialized s then s
      else s\<lparr>rcp_rx_q := [], rcp_early_q := [], rcp_queue_initialized := True\<rparr>)"

definition esp_rcp_session_ready :: "'c esp_adapter \<Rightarrow> bool" where
  "esp_rcp_session_ready a \<longleftrightarrow>
     ext_capabilities a AND ESP_EXT_CAP_RCP_ANY \<noteq> 0 \<and> test_bit ESP_INIT_DONE a \<and>
     \<not> test_bit ESP_ALLOW_RECONSTRUCT a \<and> \<not> test_bit ESP_CLEANUP_IN_PROGRESS a \<and>
     \<not> test_bit ESP_FW_RECOVERY_PENDING a \<and> \<not> test_bit ESP_FW_RESET_EXPECTED a \<and>
     \<not> test_bit ESP_TRANSPORT_REMOVING a \<and> \<not> test_bit ESP_DRIVER_UNLOADING a \<and>
     ESP_CONTEXT_READY \<le> ad_state a"

definition esp_rcp_file_is_current :: "rcp_file \<Rightarrow> rcp_dev \<Rightarrow> bool" where
  "esp_rcp_file_is_current f s \<longleftrightarrow>
     rcp_registered s \<and> rcp_opened s \<and> f_generation f = Some (rcp_generation s) \<and> rcp_session_active s"

definition esp_rcp_adapter_snapshot :: "rcp_file \<Rightarrow> rcp_dev \<Rightarrow> nat option" where
  "esp_rcp_adapter_snapshot f s = (if esp_rcp_file_is_current f s then rcp_adapter s else None)"

definition esp_rcp_dequeue_current :: "rcp_file \<Rightarrow> rcp_dev \<Rightarrow> bytes option \<times> bool \<times> rcp_dev" where
  "esp_rcp_dequeue_current f s =
     (if \<not> esp_rcp_file_is_current f s then (None, False, s)
      else case rcp_rx_q s of
             [] \<Rightarrow> (None, True, s)
           | skb # q \<Rightarrow> (Some skb, True, s\<lparr>rcp_rx_q := q\<rparr>))"

definition esp_rcp_requeue_current :: "rcp_file \<Rightarrow> bytes \<Rightarrow> rcp_dev \<Rightarrow> bool \<times> rcp_dev" where
  "esp_rcp_requeue_current f skb s =
     (if esp_rcp_file_is_current f s then (True, s\<lparr>rcp_rx_q := skb # rcp_rx_q s\<rparr>) else (False, s))"

definition esp_rcp_release_tx_slot :: "rcp_dev \<Rightarrow> rcp_dev" where
  "esp_rcp_release_tx_slot s = s\<lparr>rcp_tx_slots := rcp_tx_slots s - 1\<rparr>"

definition esp_rcp_reserve_tx_slot :: "rcp_file \<Rightarrow> rcp_dev \<Rightarrow> int option \<times> rcp_dev" where
  "esp_rcp_reserve_tx_slot f s =
     (if \<not> esp_rcp_file_is_current f s then (Some (- ENODEV), s)
      else if rcp_tx_slots s < ESP_RCP_TX_INFLIGHT_LIMIT
      then (Some 0, s\<lparr>rcp_tx_slots := rcp_tx_slots s + 1\<rparr>)
      else if f_nonblock f then (Some (- EAGAIN), s) else (None, s))"

section \<open>Session start and open\<close>

definition esp_rcp_send_session_start ::
  "rcp_kenv \<Rightarrow> 'c esp_if_ops \<Rightarrow> 'c esp_adapter \<Rightarrow> int \<times> 'c esp_adapter" where
  "esp_rcp_send_session_start env ops a =
     (if rcp_session_nonce a = 0 then (- EINVAL, a)
      else if \<not> rk_alloc_skb env then (- ENOMEM, a)
      else esp_send_packet ops
             (esp_tx_frame ESP_RCP_IF 0 PACKET_TYPE_RCP_SESSION (capabilities a AND 0x80 \<noteq> 0)
               (session_marker ESP_RCP_SESSION_VERSION (rcp_session_nonce a))) a)"

text \<open>\<open>esp_rcp_open\<close> up to the wait for the acknowledgement. \<open>Inr\<close> carries the generation of
  the waiting open.\<close>

definition rcp_open_begin ::
  "rcp_kenv \<Rightarrow> 'c esp_if_ops \<Rightarrow> rcp_dev \<Rightarrow> 'c esp_adapter \<Rightarrow> (int + u32) \<times> rcp_dev \<times> 'c esp_adapter" where
  "rcp_open_begin env ops s a =
     (if \<not> rk_kzalloc env then (Inl (- ENOMEM), s, a)
      else if \<not> rcp_registered s \<or> \<not> rcp_session_active s \<or> rcp_adapter s = None \<or> \<not> esp_rcp_session_ready a
      then (Inl (- ENODEV), s, a)
      else if rcp_opened s then (Inl (- EBUSY), s, a)
      else
        let s = s\<lparr>rcp_rx_q := [], rcp_opening_first := \<not> rcp_ever_opened s\<rparr>;
            s = (if rcp_opening_first s then s else s\<lparr>rcp_early_q := []\<rparr>);
            s = s\<lparr>rcp_opened := True, rcp_session_acked_nonce := 0\<rparr>;
            (ret, a) = esp_rcp_send_session_start env ops a
        in if ret \<noteq> 0
           then (Inl ret, s\<lparr>rcp_opened := False, rcp_opening_first := False\<rparr>, a)
           else (Inr (rcp_generation s), s, a))"

text \<open>The rest of \<open>esp_rcp_open\<close> after the wait for adapter \<open>i\<close>; \<open>ack_wait\<close>: the wait ended
  before its timeout.\<close>

definition rcp_open_finish ::
  "kernel_env \<Rightarrow> 'c esp_if_ops \<Rightarrow> bool \<Rightarrow> nat \<Rightarrow> u32 \<Rightarrow> rcp_dev \<Rightarrow> 'c esp_adapter \<Rightarrow>
     int \<times> rcp_dev \<times> 'c esp_adapter" where
  "rcp_open_finish kenv ops ack_wait i gen s a =
     (if \<not> ack_wait \<or> \<not> rcp_registered s \<or> \<not> rcp_opened s \<or> gen \<noteq> rcp_generation s \<or>
         rcp_adapter s \<noteq> Some i \<or> rcp_session_acked_nonce s \<noteq> rcp_session_nonce a
      then
        let s = (if rcp_registered s \<and> rcp_opened s \<and> gen = rcp_generation s \<and> rcp_adapter s = Some i
                 then s\<lparr>rcp_opened := False, rcp_opening_first := False, rcp_rx_q := [], rcp_early_q := []\<rparr>
                 else s);
            a = run_hook (if_op op_flush_rcp_traffic ops a) a;
            a = esp_schedule_fw_reset_recovery ops a
        in (- ETIMEDOUT, s, esp_request_firmware_restart kenv ops a)
      else (0, s, a))"

definition esp_rcp_release ::
  "kernel_env \<Rightarrow> 'c esp_if_ops \<Rightarrow> rcp_file \<Rightarrow> rcp_dev \<Rightarrow> 'c esp_adapter \<Rightarrow> rcp_dev \<times> 'c esp_adapter" where
  "esp_rcp_release kenv ops f s a =
     (let session_current = rcp_registered s \<and> rcp_opened s \<and> f_generation f = Some (rcp_generation s);
          s' = (if session_current
                then s\<lparr>rcp_opened := False, rcp_opening_first := False, rcp_session_acked_nonce := 0,
                       rcp_rx_q := [], rcp_early_q := []\<rparr> else s)
      in if session_current \<and> rcp_adapter s \<noteq> None
         then let a = run_hook (if_op op_flush_rcp_traffic ops a) a
              in if \<not> test_bit ESP_DRIVER_UNLOADING a \<and> \<not> test_bit ESP_TRANSPORT_REMOVING a
                 then (s', esp_request_firmware_restart kenv ops (esp_schedule_fw_reset_recovery ops a))
                 else (s', a)
         else (s', a))"

section \<open>Read, write, poll\<close>

text \<open>\<open>esp_rcp_read\<close> after an entry was taken: copy to the user, put the rest back.\<close>

definition rcp_read_copy :: "rcp_kenv \<Rightarrow> rcp_file \<Rightarrow> nat \<Rightarrow> bytes \<Rightarrow> rcp_dev \<Rightarrow> (int + bytes) \<times> rcp_dev" where
  "rcp_read_copy env f cnt skb s =
     (let n = min cnt (length skb)
      in if \<not> rk_copy_to_user env
         then (Inl (- EFAULT), snd (esp_rcp_requeue_current f skb s))
         else (Inr (take n skb),
               if drop n skb \<noteq> [] then snd (esp_rcp_requeue_current f (drop n skb) s) else s))"

definition esp_rcp_read ::
  "rcp_kenv \<Rightarrow> rcp_file \<Rightarrow> nat \<Rightarrow> rcp_dev \<Rightarrow> (int + bytes) option \<times> rcp_dev" where
  "esp_rcp_read env f cnt s =
     (if cnt = 0 then (Some (Inr []), s)
      else case esp_rcp_dequeue_current f s of
             (skb, current, s) \<Rightarrow>
               if \<not> current then (Some (Inl (- ENODEV)), s)
               else case skb of
                      Some skb \<Rightarrow> let (res, s) = rcp_read_copy env f cnt skb s in (Some res, s)
                    | None \<Rightarrow> if f_nonblock f then (Some (Inl (- EAGAIN)), s) else (None, s))"

text \<open>The locked part of \<open>esp_rcp_send_chunk\<close>: publish unless the generation changed. A frame
  that is freed gives its slot back through the destructor.\<close>

definition rcp_publish_chunk ::
  "'c esp_if_ops \<Rightarrow> rcp_file \<Rightarrow> nat \<Rightarrow> bytes \<Rightarrow> rcp_dev \<Rightarrow> 'c esp_adapter \<Rightarrow> int \<times> rcp_dev \<times> 'c esp_adapter" where
  "rcp_publish_chunk ops f i skb s a =
     (if \<not> esp_rcp_file_is_current f s \<or> rcp_adapter s \<noteq> Some i \<or> \<not> esp_rcp_session_ready a
      then (- ENODEV, esp_rcp_release_tx_slot s, a)
      else let (ret, a) = esp_send_packet ops skb a
           in (ret, if ret \<noteq> 0 then esp_rcp_release_tx_slot s else s, a))"

definition esp_rcp_send_chunk ::
  "rcp_kenv \<Rightarrow> 'c esp_if_ops \<Rightarrow> rcp_file \<Rightarrow> nat \<Rightarrow> bytes \<Rightarrow> rcp_dev \<Rightarrow> 'c esp_adapter \<Rightarrow>
     int option \<times> rcp_dev \<times> 'c esp_adapter" where
  "esp_rcp_send_chunk env ops f i data s a =
     (case esp_rcp_reserve_tx_slot f s of
        (None, s) \<Rightarrow> (None, s, a)
      | (Some ret, s) \<Rightarrow>
          if ret \<noteq> 0 then (Some ret, s, a)
          else if \<not> rk_alloc_skb env then (Some (- ENOMEM), esp_rcp_release_tx_slot s, a)
          else if \<not> rk_copy_from_user env then (Some (- EFAULT), esp_rcp_release_tx_slot s, a)
          else let (ret, s, a) = rcp_publish_chunk ops f i
                     (esp_tx_frame ESP_RCP_IF 0 PACKET_TYPE_DATA (capabilities a AND 0x80 \<noteq> 0) data) s a
               in (Some ret, s, a))"

function rcp_write_loop ::
  "rcp_kenv \<Rightarrow> 'c esp_if_ops \<Rightarrow> rcp_file \<Rightarrow> nat \<Rightarrow> nat \<Rightarrow> bytes \<Rightarrow> rcp_dev \<Rightarrow> 'c esp_adapter \<Rightarrow>
     int option \<times> rcp_dev \<times> 'c esp_adapter" where
  "rcp_write_loop env ops f i done data s a =
     (if data = [] then (Some (int done), s, a)
      else if \<not> esp_rcp_file_is_current f s \<or> \<not> esp_rcp_session_ready a then (Some (- ENODEV), s, a)
      else
        let n = min (length data) ESP_RCP_HOSTED_CHUNK_MAX
        in case esp_rcp_send_chunk env ops f i (take n data) s a of
             (None, s, a) \<Rightarrow> (None, s, a)
           | (Some ret, s, a) \<Rightarrow>
               if ret \<noteq> 0 then (Some (if done \<noteq> 0 then int done else ret), s, a)
               else rcp_write_loop env ops f i (done + n) (drop n data) s a)"
  by pat_completeness auto
termination
  by (relation "measure (\<lambda>(env, ops, f, i, done, data, s, a). length data)") auto

declare rcp_write_loop.simps [simp del]

definition esp_rcp_write ::
  "rcp_kenv \<Rightarrow> 'c esp_if_ops \<Rightarrow> rcp_file \<Rightarrow> bytes \<Rightarrow> rcp_dev \<Rightarrow> 'c esp_adapter \<Rightarrow>
     int option \<times> rcp_dev \<times> 'c esp_adapter" where
  "esp_rcp_write env ops f data s a =
     (if data = [] then (Some 0, s, a)
      else case esp_rcp_adapter_snapshot f s of
             None \<Rightarrow> (Some (- ENODEV), s, a)
           | Some i \<Rightarrow> if \<not> esp_rcp_session_ready a then (Some (- ENODEV), s, a)
                       else rcp_write_loop env ops f i 0 data s a)"

text \<open>The mask of \<open>esp_rcp_poll\<close>: error and hang-up, readable, writable.\<close>

definition esp_rcp_poll :: "rcp_file \<Rightarrow> rcp_dev \<Rightarrow> bool \<times> bool \<times> bool" where
  "esp_rcp_poll f s =
     (if \<not> esp_rcp_file_is_current f s then (True, False, False)
      else (False, rcp_rx_q s \<noteq> [], rcp_tx_slots s < ESP_RCP_TX_INFLIGHT_LIMIT))"

section \<open>Boot event, acknowledgement, reception\<close>

definition esp_rcp_note_boot_event ::
  "'c esp_if_ops \<Rightarrow> nat \<Rightarrow> bool \<Rightarrow> rcp_dev \<Rightarrow> 'c esp_adapter \<Rightarrow> rcp_dev \<times> 'c esp_adapter" where
  "esp_rcp_note_boot_event ops i active_on_boot s a =
     (let s = esp_rcp_init_queues_locked s;
          s = s\<lparr>rcp_early_q := [], rcp_boot_adapter := (if active_on_boot then Some i else None),
                rcp_boot_pending := active_on_boot, rcp_early_overflow := False,
                rcp_ever_opened := False, rcp_opening_first := False, rcp_session_acked_nonce := 0\<rparr>
      in if rcp_registered s \<and> rcp_adapter s = Some i \<and> rcp_session_active s
         then (s\<lparr>rcp_session_active := False, rcp_opened := False, rcp_rx_q := []\<rparr>,
               run_hook (if_op op_flush_rcp_traffic ops a) a)
         else (s, a))"

definition esp_rcp_session_ack :: "nat \<Rightarrow> bytes \<Rightarrow> 'c esp_adapter \<Rightarrow> rcp_dev \<Rightarrow> rcp_dev" where
  "esp_rcp_session_ack i data a s =
     (if length data \<noteq> 12 \<or> data ! 0 \<noteq> ESP_RCP_SESSION_VERSION then s
      else
        let nonce = le_word (drop 4 data)
        in if rcp_registered s \<and> rcp_opened s \<and> rcp_adapter s = Some i \<and> rcp_session_active s \<and>
              nonce \<noteq> 0 \<and> nonce = rcp_session_nonce a \<and> rcp_session_acked_nonce s \<noteq> nonce
           then (if rcp_opening_first s
                 then s\<lparr>rcp_rx_q := rcp_rx_q s @ rcp_early_q s, rcp_early_q := []\<rparr>
                 else s\<lparr>rcp_rx_q := [], rcp_early_q := []\<rparr>)
                \<lparr>rcp_session_acked_nonce := nonce, rcp_ever_opened := True, rcp_opening_first := False\<rparr>
           else s)"

definition esp_rcp_fail_closed_required :: "nat \<Rightarrow> rcp_dev \<Rightarrow> bool" where
  "esp_rcp_fail_closed_required i s \<longleftrightarrow>
     rcp_boot_pending s \<and> rcp_boot_adapter s = Some i \<or>
     rcp_registered s \<and> rcp_adapter s = Some i \<and> rcp_session_active s"

definition esp_rcp_rx ::
  "kernel_env \<Rightarrow> 'c esp_if_ops \<Rightarrow> nat \<Rightarrow> bytes \<Rightarrow> rcp_dev \<Rightarrow> 'c esp_adapter \<Rightarrow> rcp_dev \<times> 'c esp_adapter" where
  "esp_rcp_rx kenv ops i skb s a =
     (let s = esp_rcp_init_queues_locked s;
          overflow = (\<lambda>s. (s, esp_request_firmware_restart kenv ops (esp_schedule_fw_reset_recovery ops a)))
      in if rcp_boot_pending s \<and> rcp_boot_adapter s = Some i
         then (if ESP_RCP_RX_QUEUE_LIMIT \<le> length (rcp_early_q s)
               then (s\<lparr>rcp_early_overflow := True, rcp_early_q := []\<rparr>, a)
               else (s\<lparr>rcp_early_q := rcp_early_q s @ [skb]\<rparr>, a))
         else if \<not> rcp_registered s \<or> rcp_adapter s \<noteq> Some i \<or> \<not> rcp_session_active s \<or>
                 \<not> esp_rcp_session_ready a
         then (s, a)
         else if \<not> rcp_opened s then (s, a)
         else if rcp_session_acked_nonce s \<noteq> rcp_session_nonce a
         then (if \<not> rcp_opening_first s then (s, a)
               else if ESP_RCP_RX_QUEUE_LIMIT \<le> length (rcp_early_q s)
               then overflow (s\<lparr>rcp_early_q := []\<rparr>)
               else (s\<lparr>rcp_early_q := rcp_early_q s @ [skb]\<rparr>, a))
         else if ESP_RCP_RX_QUEUE_LIMIT \<le> length (rcp_rx_q s)
         then overflow (s\<lparr>rcp_rx_q := []\<rparr>)
         else (s\<lparr>rcp_rx_q := rcp_rx_q s @ [skb]\<rparr>, a))"

section \<open>Registration\<close>

definition rcp_boot_clear :: "rcp_dev \<Rightarrow> rcp_dev" where
  "rcp_boot_clear s = s\<lparr>rcp_boot_pending := False, rcp_early_overflow := False, rcp_boot_adapter := None\<rparr>"

definition esp_init_rcp :: "rcp_kenv \<Rightarrow> nat \<Rightarrow> 'c esp_adapter \<Rightarrow> rcp_dev \<Rightarrow> int \<times> rcp_dev" where
  "esp_init_rcp env i a s =
     (let s = esp_rcp_init_queues_locked s
      in if ext_capabilities a AND ESP_EXT_CAP_RCP_ANY = 0
         then (0, rcp_boot_clear (s\<lparr>rcp_early_q := []\<rparr>))
         else if rcp_session_nonce a = 0
         then (- EPROTO, rcp_boot_clear (s\<lparr>rcp_early_q := []\<rparr>))
         else if rcp_registered s then (if rcp_adapter s = Some i then 0 else - EBUSY, s)
         else
           let s = s\<lparr>rcp_adapter := Some i, rcp_opened := False, rcp_ever_opened := False,
                     rcp_opening_first := False, rcp_generation := rcp_generation s + 1\<rparr>;
               s = (if rcp_generation s = 0 then s\<lparr>rcp_generation := rcp_generation s + 1\<rparr> else s);
               s = s\<lparr>rcp_rx_q := []\<rparr>
           in if rcp_boot_pending s \<and> rcp_boot_adapter s = Some i \<and> rcp_early_overflow s
              then (- EOVERFLOW, rcp_boot_clear (s\<lparr>rcp_early_q := [], rcp_adapter := None\<rparr>))
              else
                let s = rcp_boot_clear s; ret = rk_misc_register env
                in if ret \<noteq> 0 then (ret, s\<lparr>rcp_adapter := None\<rparr>)
                   else (0, s\<lparr>rcp_registered := True, rcp_session_active := True\<rparr>))"

text \<open>\<open>esp_deinit_rcp\<close> of an adapter, or of every one (\<open>None\<close>).\<close>

definition esp_deinit_rcp :: "(nat \<times> 'c esp_adapter) option \<Rightarrow> rcp_dev \<Rightarrow> rcp_dev" where
  "esp_deinit_rcp adapter s =
     (let s = esp_rcp_init_queues_locked s;
          final_teardown = (case adapter of None \<Rightarrow> True
             | Some (i, a) \<Rightarrow> test_bit ESP_DRIVER_UNLOADING a \<or> test_bit ESP_TRANSPORT_REMOVING a);
          unregister = (rcp_registered s \<and>
             (case adapter of None \<Rightarrow> True
              | Some (i, a) \<Rightarrow> rcp_adapter s = None \<or> rcp_adapter s = Some i));
          final = (\<lambda>s. if final_teardown then rcp_boot_clear (s\<lparr>rcp_early_q := []\<rparr>) else s)
      in if \<not> unregister then final s
         else (final (s\<lparr>rcp_session_active := False, rcp_opened := False, rcp_ever_opened := False,
                 rcp_opening_first := False, rcp_session_acked_nonce := 0, rcp_adapter := None,
                 rcp_rx_q := []\<rparr>))\<lparr>rcp_registered := False\<rparr>)"

section \<open>Invariant\<close>

text \<open>\<open>hand\<close> is the entry a reader has taken and not yet finished (readers are serialised).\<close>

definition rcp_dev_inv :: "rcp_dev \<Rightarrow> bytes option \<Rightarrow> bool" where
  "rcp_dev_inv s hand \<longleftrightarrow>
     (rcp_opened s \<longrightarrow> rcp_session_active s) \<and> (rcp_session_active s \<longrightarrow> rcp_registered s) \<and>
     (rcp_registered s \<longrightarrow> rcp_adapter s \<noteq> None \<and> rcp_generation s \<noteq> 0) \<and>
     (rcp_opening_first s \<longrightarrow> rcp_opened s \<and> rcp_session_acked_nonce s = 0 \<and> rcp_rx_q s = []) \<and>
     (\<not> rcp_opened s \<longrightarrow> rcp_rx_q s = []) \<and> length (rcp_early_q s) \<le> 64 \<and>
     length (rcp_rx_q s) + (if hand = None then 0 else 1) \<le> 65 \<and>
     0 \<le> rcp_tx_slots s \<and> rcp_tx_slots s \<le> 64"

text \<open>The locked sections of the endpoint in any order, with any state of the adapter. A frame
  that is published or freed holds one transmit slot; an open endpoint receives for an adapter
  with a nonce (registration demands one, and it changes only after a boot event has
  invalidated the session); a reader's file is past its open and is not released under it, so
  while it is the current one no first open is under way.\<close>

inductive rcp_step :: "'c esp_if_ops \<Rightarrow> rcp_dev \<times> bytes option \<Rightarrow> rcp_dev \<times> bytes option \<Rightarrow> bool"
  for ops where
  open_begin: "rcp_open_begin env ops s a = (r, s', a') \<Longrightarrow> rcp_step ops (s, h) (s', h)"
| open_finish: "rcp_open_finish kenv ops w i g s a = (r, s', a') \<Longrightarrow> rcp_step ops (s, h) (s', h)"
| release: "esp_rcp_release kenv ops f s a = (s', a') \<Longrightarrow> rcp_step ops (s, h) (s', h)"
| take: "esp_rcp_dequeue_current f s = (Some skb, c, s') \<Longrightarrow> rcp_step ops (s, None) (s', Some skb)"
| copied: "(esp_rcp_file_is_current f s \<Longrightarrow> \<not> rcp_opening_first s) \<Longrightarrow>
    rcp_read_copy env f n skb s = (r, s') \<Longrightarrow> rcp_step ops (s, Some skb) (s', None)"
| reserve: "esp_rcp_reserve_tx_slot f s = (r, s') \<Longrightarrow> rcp_step ops (s, h) (s', h)"
| publish: "0 < rcp_tx_slots s \<Longrightarrow> rcp_publish_chunk ops f i skb s a = (r, s', a') \<Longrightarrow> rcp_step ops (s, h) (s', h)"
| freed: "0 < rcp_tx_slots s \<Longrightarrow> rcp_step ops (s, h) (esp_rcp_release_tx_slot s, h)"
| boot: "esp_rcp_note_boot_event ops i act s a = (s', a') \<Longrightarrow> rcp_step ops (s, h) (s', h)"
| ack: "rcp_step ops (s, h) (esp_rcp_session_ack i d (a :: 'c esp_adapter) s, h)"
| rx: "(rcp_opened s \<Longrightarrow> rcp_session_nonce a \<noteq> 0) \<Longrightarrow> esp_rcp_rx kenv ops i skb s a = (s', a') \<Longrightarrow>
    rcp_step ops (s, h) (s', h)"
| init: "esp_init_rcp env i (a :: 'c esp_adapter) s = (r, s') \<Longrightarrow> rcp_step ops (s, h) (s', h)"
| deinit: "rcp_step ops (s, h) (esp_deinit_rcp (x :: (nat \<times> 'c esp_adapter) option) s, h)"

inductive rcp_reachable :: "'c esp_if_ops \<Rightarrow> rcp_dev \<times> bytes option \<Rightarrow> bool" for ops where
  start: "rcp_reachable ops (rcp_dev_zero, None)"
| step: "rcp_reachable ops st \<Longrightarrow> rcp_step ops st st' \<Longrightarrow> rcp_reachable ops st'"

lemma rcp_dev_inv_init_queues:
  "rcp_dev_inv s h \<Longrightarrow> rcp_dev_inv (esp_rcp_init_queues_locked s) h"
  by (auto simp: rcp_dev_inv_def esp_rcp_init_queues_locked_def)

lemma rcp_dev_inv_start: "rcp_dev_inv rcp_dev_zero None"
  by (simp add: rcp_dev_inv_def rcp_dev_zero_def)

lemma open_begin_inv: "rcp_dev_inv s h \<Longrightarrow> rcp_dev_inv (fst (snd (rcp_open_begin env ops s a))) h"
  by (auto simp: rcp_open_begin_def Let_def case_prod_beta rcp_dev_inv_def)

lemma open_finish_inv: "rcp_dev_inv s h \<Longrightarrow> rcp_dev_inv (fst (snd (rcp_open_finish kenv ops w i g s a))) h"
  by (auto simp: rcp_open_finish_def Let_def rcp_dev_inv_def)

lemma release_inv: "rcp_dev_inv s h \<Longrightarrow> rcp_dev_inv (fst (esp_rcp_release kenv ops f s a)) h"
  by (auto simp: esp_rcp_release_def Let_def rcp_dev_inv_def)

lemma take_inv:
  "rcp_dev_inv s None \<Longrightarrow> esp_rcp_dequeue_current f s = (Some skb, c, s') \<Longrightarrow> rcp_dev_inv s' (Some skb)"
  by (auto simp: esp_rcp_dequeue_current_def rcp_dev_inv_def split: if_splits list.splits)

lemma copied_inv:
  assumes "rcp_dev_inv s (Some skb)" "esp_rcp_file_is_current f s \<longrightarrow> \<not> rcp_opening_first s"
  shows "rcp_dev_inv (snd (rcp_read_copy env f n skb s)) None"
proof -
  have "rcp_dev_inv s None" using assms(1) by (simp add: rcp_dev_inv_def)
  moreover have "rcp_dev_inv (s\<lparr>rcp_rx_q := x # rcp_rx_q s\<rparr>) None" if "rcp_opened s" "\<not> rcp_opening_first s" for x
    using assms(1) that unfolding rcp_dev_inv_def by simp
  ultimately have "rcp_dev_inv (snd (esp_rcp_requeue_current f x s)) None" for x
    using assms(2) by (cases "esp_rcp_file_is_current f s")
      (simp_all add: esp_rcp_requeue_current_def, simp add: esp_rcp_file_is_current_def)
  with \<open>rcp_dev_inv s None\<close> show ?thesis by (simp add: rcp_read_copy_def Let_def)
qed

lemma slot_inv:
  "rcp_dev_inv s h \<Longrightarrow> esp_rcp_reserve_tx_slot f s = (r, s') \<Longrightarrow> rcp_dev_inv s' h"
  "rcp_dev_inv s h \<Longrightarrow> 0 < rcp_tx_slots s \<Longrightarrow> rcp_dev_inv (esp_rcp_release_tx_slot s) h"
  by (auto simp: esp_rcp_reserve_tx_slot_def esp_rcp_release_tx_slot_def rcp_dev_inv_def split: if_splits)

lemma publish_inv:
  "rcp_dev_inv s h \<Longrightarrow> 0 < rcp_tx_slots s \<Longrightarrow> rcp_publish_chunk ops f i skb s a = (r, s', a') \<Longrightarrow> rcp_dev_inv s' h"
  using slot_inv(2) [of s h] by (auto simp: rcp_publish_chunk_def split: if_splits prod.splits)

lemma boot_inv: "rcp_dev_inv s h \<Longrightarrow> rcp_dev_inv (fst (esp_rcp_note_boot_event ops i act s a)) h"
  by (drule rcp_dev_inv_init_queues) (auto simp: esp_rcp_note_boot_event_def Let_def rcp_dev_inv_def)

lemma ack_inv: "rcp_dev_inv s h \<Longrightarrow> rcp_dev_inv (esp_rcp_session_ack i d a s) h"
  by (auto simp: esp_rcp_session_ack_def Let_def rcp_dev_inv_def)

lemma rx_inv:
  assumes "rcp_dev_inv s h" "rcp_opened s \<longrightarrow> rcp_session_nonce a \<noteq> 0"
  shows "rcp_dev_inv (fst (esp_rcp_rx kenv ops i skb s a)) h"
proof -
  define t where "t = esp_rcp_init_queues_locked s"
  have "rcp_opened t = rcp_opened s" by (simp add: t_def esp_rcp_init_queues_locked_def)
  with assms rcp_dev_inv_init_queues [of s h] have "rcp_dev_inv t h" "rcp_opened t \<longrightarrow> rcp_session_nonce a \<noteq> 0"
    by (simp_all add: t_def)
  then show ?thesis
    unfolding esp_rcp_rx_def t_def [symmetric] Let_def by (auto simp: rcp_dev_inv_def)
qed

lemma endpoint_init_inv: "rcp_dev_inv s h \<Longrightarrow> rcp_dev_inv (snd (esp_init_rcp env i a s)) h"
  by (drule rcp_dev_inv_init_queues)
    (auto simp: esp_init_rcp_def Let_def rcp_boot_clear_def rcp_dev_inv_def)

lemma endpoint_deinit_inv: "rcp_dev_inv s h \<Longrightarrow> rcp_dev_inv (esp_deinit_rcp x s) h"
  by (drule rcp_dev_inv_init_queues)
    (auto simp: esp_deinit_rcp_def Let_def rcp_boot_clear_def rcp_dev_inv_def split: option.splits)

lemma step_eqs:
  assumes "rcp_dev_inv s h"
  shows "rcp_open_begin env ops s a = (r, s', a') \<Longrightarrow> rcp_dev_inv s' h"
    and "rcp_open_finish kenv ops w i g s a = (q, s', a') \<Longrightarrow> rcp_dev_inv s' h"
    and "esp_rcp_release kenv ops f s a = (s', a') \<Longrightarrow> rcp_dev_inv s' h"
    and "esp_rcp_note_boot_event ops i act s a = (s', a') \<Longrightarrow> rcp_dev_inv s' h"
    and "(rcp_opened s \<Longrightarrow> rcp_session_nonce a \<noteq> 0) \<Longrightarrow> esp_rcp_rx kenv ops i skb s a = (s', a') \<Longrightarrow> rcp_dev_inv s' h"
    and "esp_init_rcp env i a s = (q, s') \<Longrightarrow> rcp_dev_inv s' h"
    and "h = Some skb \<Longrightarrow> (esp_rcp_file_is_current f s \<Longrightarrow> \<not> rcp_opening_first s) \<Longrightarrow>
      rcp_read_copy env f n skb s = (p, s') \<Longrightarrow> rcp_dev_inv s' None"
  using open_begin_inv [OF assms, of env ops a] open_finish_inv [OF assms, of kenv ops w i g a]
    release_inv [OF assms, of kenv ops f a] boot_inv [OF assms, of ops i act a] rx_inv [OF assms, of a kenv ops i skb]
    endpoint_init_inv [OF assms, of env i a] copied_inv [of s skb f env n] assms
  by auto

lemma rcp_step_inv:
  "rcp_step ops (s, h) (s', h') \<Longrightarrow> rcp_dev_inv s h \<Longrightarrow> rcp_dev_inv s' h'"
  by (erule rcp_step.cases)
    (auto intro: step_eqs take_inv slot_inv publish_inv ack_inv endpoint_deinit_inv)

lemma rcp_reachable_inv: "rcp_reachable ops (s, h) \<Longrightarrow> rcp_dev_inv s h"
proof (induction "(s, h)" arbitrary: s h rule: rcp_reachable.induct)
  case (step st)
  then show ?case by (cases st) (auto dest: rcp_step_inv)
qed (rule rcp_dev_inv_start)

section \<open>Session boundary\<close>

text \<open>An endpoint that waits for the acknowledgement of adapter \<open>i\<close>.\<close>

definition rcp_waiting :: "nat \<Rightarrow> 'c esp_adapter \<Rightarrow> rcp_dev \<Rightarrow> bool" where
  "rcp_waiting i a s \<longleftrightarrow> rcp_queue_initialized s \<and> \<not> rcp_boot_pending s \<and> rcp_registered s \<and> rcp_opened s \<and>
     rcp_adapter s = Some i \<and> rcp_session_active s \<and> esp_rcp_session_ready a \<and>
     rcp_session_acked_nonce s \<noteq> rcp_session_nonce a"

fun rcp_rx_all ::
  "kernel_env \<Rightarrow> 'c esp_if_ops \<Rightarrow> nat \<Rightarrow> bytes list \<Rightarrow> rcp_dev \<Rightarrow> 'c esp_adapter \<Rightarrow> rcp_dev \<times> 'c esp_adapter" where
  "rcp_rx_all kenv ops i [] s a = (s, a)"
| "rcp_rx_all kenv ops i (skb # skbs) s a =
     (let (s, a) = esp_rcp_rx kenv ops i skb s a in rcp_rx_all kenv ops i skbs s a)"

lemma waiting_rx:
  assumes "rcp_waiting i a s" "rcp_opening_first s \<Longrightarrow> length (rcp_early_q s) + length skbs \<le> 64"
  shows "rcp_rx_all kenv ops i skbs s a =
    (if rcp_opening_first s then s\<lparr>rcp_early_q := rcp_early_q s @ skbs\<rparr> else s, a)"
  using assms
proof (induction skbs arbitrary: s)
  case (Cons skb skbs)
  define t where "t = (if rcp_opening_first s then s\<lparr>rcp_early_q := rcp_early_q s @ [skb]\<rparr> else s)"
  have "esp_rcp_rx kenv ops i skb s a = (t, a)"
    using Cons.prems by (auto simp: t_def rcp_waiting_def esp_rcp_rx_def Let_def esp_rcp_init_queues_locked_def)
  moreover have "rcp_waiting i a t" "rcp_opening_first t = rcp_opening_first s"
    using Cons.prems(1) by (auto simp: t_def rcp_waiting_def)
  moreover have "rcp_opening_first t \<Longrightarrow> length (rcp_early_q t) + length skbs \<le> 64"
    using Cons.prems(2) by (simp add: t_def split: if_splits)
  ultimately show ?case using Cons.IH [of t] by (auto simp: t_def)
qed simp

lemma waiting_ack:
  assumes "rcp_waiting i a s" "rcp_session_nonce a \<noteq> 0" "rcp_opening_first s \<Longrightarrow> rcp_rx_q s = []"
  shows "rcp_rx_q (esp_rcp_session_ack i (session_marker 1 (rcp_session_nonce a)) a s) =
      (if rcp_opening_first s then rcp_early_q s else [])"
    and "rcp_early_q (esp_rcp_session_ack i (session_marker 1 (rcp_session_nonce a)) a s) = []"
    and "rcp_session_acked_nonce (esp_rcp_session_ack i (session_marker 1 (rcp_session_nonce a)) a s) =
      rcp_session_nonce a"
  using assms by (auto simp: rcp_waiting_def esp_rcp_session_ack_def session_marker_fields Let_def)

text \<open>Everything a new opener can read after the acknowledgement: on the first open of an
  incarnation the startup bytes, on a later one nothing.\<close>

lemma session_boundary:
  fixes a b :: "'c esp_adapter"
  assumes "rcp_open_begin env ops s a = (Inr g, s1, a1)" "\<not> rcp_boot_pending s" "rcp_queue_initialized s"
    and "rcp_adapter s = Some i" "esp_rcp_session_ready b" "rcp_session_nonce b \<noteq> 0"
    and "\<not> rcp_ever_opened s \<Longrightarrow> length (rcp_early_q s) + length skbs \<le> 64"
    and "rcp_rx_all kenv ops i skbs s1 b = (s2, b2)"
    and "s3 = esp_rcp_session_ack i (session_marker 1 (rcp_session_nonce b)) b s2"
  shows "rcp_rx_q s3 = (if rcp_ever_opened s then [] else rcp_early_q s @ skbs)" "rcp_early_q s3 = []"
    "rcp_session_acked_nonce s3 = rcp_session_nonce b" "b2 = b"
    "rcp_opened s3 \<and> rcp_registered s3 \<and> rcp_session_active s3 \<and> rcp_generation s3 = g"
proof -
  have s1: "rcp_waiting i b s1" "rcp_opening_first s1 = (\<not> rcp_ever_opened s)" "rcp_rx_q s1 = []"
    "\<not> rcp_ever_opened s \<Longrightarrow> rcp_early_q s1 = rcp_early_q s" "rcp_generation s1 = g"
    using assms(1-6) by (auto simp: rcp_open_begin_def rcp_waiting_def Let_def split: if_splits prod.splits)
  have s2: "s2 = (if rcp_opening_first s1 then s1\<lparr>rcp_early_q := rcp_early_q s1 @ skbs\<rparr> else s1)" "b2 = b"
    using waiting_rx [OF s1(1), of skbs kenv ops] assms(7,8) s1(2,4) by auto
  have w: "rcp_waiting i b s2" "rcp_rx_q s2 = []" "rcp_opening_first s2 = (\<not> rcp_ever_opened s)" "rcp_generation s2 = g"
    using s1 by (auto simp: s2 rcp_waiting_def)
  show "rcp_rx_q s3 = (if rcp_ever_opened s then [] else rcp_early_q s @ skbs)" "rcp_early_q s3 = []"
    "rcp_session_acked_nonce s3 = rcp_session_nonce b"
    using waiting_ack [OF w(1) assms(6)] w s1 by (auto simp: assms(9) s2)
  show "b2 = b" by (rule s2(2))
  show "rcp_opened s3 \<and> rcp_registered s3 \<and> rcp_session_active s3 \<and> rcp_generation s3 = g"
    using w by (simp add: assms(9) rcp_waiting_def esp_rcp_session_ack_def Let_def)
qed

end
