(* ===== verification/Deframer.thy ===== *)
theory Deframer
  imports Wire
begin

text \<open>
  Reference specification of framing on a byte stream. A sender emits each frame followed
  by one zero byte when the frame ends on a packet boundary; a receiver removes an expected
  zero byte, waits for a header, slides by one byte on an invalid header and cuts complete
  frames off. \<open>deframe\<close> is that receiver as a function of the validity check and the
  padding rule; the USB parsers of the host and of the firmware are shown to refine it.
  The locale \<open>frame_format\<close> holds what the check must satisfy, with the results every
  instance inherits: parsing is independent of how the stream is cut into pieces, the
  unparsed rest is shorter than one frame, and emitted frames come back unchanged.
\<close>

definition strip_pad :: "bool \<Rightarrow> bytes \<Rightarrow> bytes \<times> bool" where
  "strip_pad pad s =
     (if pad \<and> s \<noteq> [] then (if hd s = 0 then tl s else s, False) else (s, pad))"

lemma length_strip_pad: "strip_pad pad s = (s', p') \<Longrightarrow> length s' \<le> length s"
  by (auto simp: strip_pad_def split: if_splits)

lemma strip_pad_simps [simp]:
  "strip_pad False s = (s, False)" "strip_pad pad [] = ([], pad)"
  "strip_pad True (b # s) = (if b = 0 then s else b # s, False)"
  by (simp_all add: strip_pad_def)

text \<open>Result: the frames cut off, the unparsed rest, whether a pad byte is expected next, and
  whether a byte was skipped.\<close>

function deframe :: "(esp_payload_header \<Rightarrow> nat option) \<Rightarrow> (nat \<Rightarrow> bool) \<Rightarrow> bool \<Rightarrow> bytes \<Rightarrow>
    bytes list \<times> bytes \<times> bool \<times> bool" where
  "deframe valid padded pad s =
     (let (s, pad) = strip_pad pad s
      in case header_of s of
           None \<Rightarrow> ([], s, pad, False)
         | Some h \<Rightarrow>
             (case valid h of
                None \<Rightarrow> (let (fs, r, p, _) = deframe valid padded pad (tl s) in (fs, r, p, True))
              | Some n \<Rightarrow>
                  if length s < n \<or> n = 0 then ([], s, pad, False)
                  else let (fs, r, p, l) = deframe valid padded (padded n) (drop n s)
                       in (take n s # fs, r, p, l)))"
  by pat_completeness auto
termination
  by (relation "measure (\<lambda>(v, q, p, s). length s)")
    (auto dest!: length_strip_pad [OF sym] header_of_SomeD)

declare deframe.simps [simp del]

lemma deframe_wait:
  "header_of s = None \<Longrightarrow> deframe v q False s = ([], s, False, False)"
  by (simp add: deframe.simps)

lemma deframe_Nil [simp]: "deframe v q pad [] = ([], [], pad, False)"
  by (simp add: deframe.simps)

lemma deframe_invalid:
  "header_of s = Some h \<Longrightarrow> v h = None \<Longrightarrow>
   deframe v q False s = (case deframe v q False (tl s) of (fs, r, p, _) \<Rightarrow> (fs, r, p, True))"
  by (simp add: deframe.simps [of v q False s])

lemma deframe_partial:
  "header_of s = Some h \<Longrightarrow> v h = Some n \<Longrightarrow> length s < n \<Longrightarrow> deframe v q False s = ([], s, False, False)"
  by (simp add: deframe.simps)

lemma deframe_frame:
  "header_of s = Some h \<Longrightarrow> v h = Some n \<Longrightarrow> 0 < n \<Longrightarrow> n \<le> length s \<Longrightarrow>
   deframe v q False s = (case deframe v q (q n) (drop n s) of (fs, r, p, l) \<Rightarrow> (take n s # fs, r, p, l))"
  by (simp add: deframe.simps [of v q False s])

lemma deframe_strip:
  "s \<noteq> [] \<Longrightarrow> deframe v q True s = deframe v q False (if hd s = 0 then tl s else s)"
  by (simp add: deframe.simps [of v q True] deframe.simps [of v q False] strip_pad_def)

text \<open>The sender: a frame and, on a packet boundary, one zero byte.\<close>

definition emit :: "(nat \<Rightarrow> bool) \<Rightarrow> bytes \<Rightarrow> bytes" where
  "emit padded f = f @ (if padded (length f) then [0] else [])"

text \<open>A frame the receiver accepts as a whole.\<close>

definition complete_frame :: "(esp_payload_header \<Rightarrow> nat option) \<Rightarrow> bytes \<Rightarrow> bool" where
  "complete_frame valid f \<longleftrightarrow>
     (case header_of f of None \<Rightarrow> False | Some h \<Rightarrow> valid h = Some (length f))"

lemma complete_frame_iff:
  "complete_frame valid f \<longleftrightarrow> (\<exists>h. header_of f = Some h \<and> valid h = Some (length f))"
  by (simp add: complete_frame_def split: option.splits)

locale frame_format =
  fixes valid :: "esp_payload_header \<Rightarrow> nat option"
    and padded :: "nat \<Rightarrow> bool"
    and max_frame :: nat
  assumes valid_pos: "valid h = Some n \<Longrightarrow> 12 < n"
    and valid_max: "valid h = Some n \<Longrightarrow> n \<le> max_frame"
    and max_frame_pos: "12 < max_frame"
begin

text \<open>Induction over the receiver, one case per branch.\<close>

lemma deframe_induct [case_names empty strip wait invalid partial frame]:
  assumes empty: "\<And>pad. P pad []"
    and strip: "\<And>s. s \<noteq> [] \<Longrightarrow> P False (if hd s = 0 then tl s else s) \<Longrightarrow> P True s"
    and wait: "\<And>s. s \<noteq> [] \<Longrightarrow> header_of s = None \<Longrightarrow> P False s"
    and invalid: "\<And>s h. header_of s = Some h \<Longrightarrow> valid h = None \<Longrightarrow> P False (tl s) \<Longrightarrow> P False s"
    and partial: "\<And>s h n. header_of s = Some h \<Longrightarrow> valid h = Some n \<Longrightarrow> length s < n \<Longrightarrow> P False s"
    and frame: "\<And>s h n. header_of s = Some h \<Longrightarrow> valid h = Some n \<Longrightarrow> 12 < n \<Longrightarrow> n \<le> length s \<Longrightarrow>
      P (padded n) (drop n s) \<Longrightarrow> P False s"
  shows "P pad s"
proof (induction "2 * length s + (if pad then 1 else 0)" arbitrary: pad s rule: less_induct)
  case less
  show ?case
  proof (cases "s = []")
    case True
    then show ?thesis by (simp add: empty)
  next
    case ne: False
    show ?thesis
    proof (cases pad)
      case True
      have "P False (if hd s = 0 then tl s else s)"
        by (rule less) (use ne True in \<open>auto simp: neq_Nil_conv\<close>)
      with ne True strip show ?thesis by simp
    next
      case False
      show ?thesis
      proof (cases "header_of s")
        case None
        with ne False wait show ?thesis by simp
      next
        case (Some h)
        then have len: "12 \<le> length s" by (rule header_of_SomeD)
        show ?thesis
        proof (cases "valid h")
          case None
          have "P False (tl s)" by (rule less) (use len False in simp)
          with Some None False invalid show ?thesis by simp
        next
          fix n assume n: "valid h = Some n"
          then have "12 < n" by (rule valid_pos)
          then have "P (padded n) (drop n s)" if "n \<le> length s"
            by (intro less) (use that len False in auto)
          with Some n \<open>12 < n\<close> False partial frame show ?thesis by (metis not_less)
        qed
      qed
    qed
  qed
qed

lemmas deframe_steps = deframe_wait deframe_invalid deframe_partial deframe_frame deframe_strip

lemma deframe_rest:
  "deframe valid padded pad s = (fs, r, p, l) \<Longrightarrow> length r < max_frame"
proof (induction pad s arbitrary: fs r p l rule: deframe_induct)
  case (partial s h n)
  then show ?case using valid_max [of h n] by (simp add: deframe_partial)
next
  case (wait s)
  then show ?case using max_frame_pos by (simp add: deframe_wait header_of_eq_None_iff)
qed (use max_frame_pos in \<open>auto simp: deframe_steps split: prod.splits\<close>)

text \<open>Cutting the stream at any point gives the same frames and the same rest.\<close>

lemma deframe_append:
  assumes "deframe valid padded pad s = (fs, r, p, l)"
    and "deframe valid padded p (r @ t) = (fs', r', p', l')"
  shows "deframe valid padded pad (s @ t) = (fs @ fs', r', p', l \<or> l')"
  using assms
proof (induction pad s arbitrary: fs r p l rule: deframe_induct)
  case (empty pad)
  then show ?case by simp
next
  case (strip s)
  from strip.prems(1) strip.hyps
  have "deframe valid padded False (if hd s = 0 then tl s else s) = (fs, r, p, l)"
    by (simp add: deframe_strip)
  from strip.IH [OF this strip.prems(2)] strip.hyps show ?case
    by (auto simp: deframe_strip)
next
  case (wait s)
  then show ?case by (simp add: deframe_wait)
next
  case (invalid s h)
  obtain g q' p'' l'' where d: "deframe valid padded False (tl s) = (g, q', p'', l'')"
    by (metis prod_cases4)
  with invalid have e: "fs = g" "r = q'" "p = p''" "l" by (auto simp: deframe_invalid)
  have "s \<noteq> []" using invalid.hyps(1) header_of_SomeD by fastforce
  with invalid.IH [OF d] e invalid.prems(2) header_of_append [OF invalid.hyps(1)] invalid.hyps
  show ?case by (simp add: deframe_invalid)
next
  case (partial s h n)
  then show ?case by (simp add: deframe_partial)
next
  case (frame s h n)
  obtain g q' p'' l'' where d: "deframe valid padded (padded n) (drop n s) = (g, q', p'', l'')"
    by (metis prod_cases4)
  with frame have e: "fs = take n s # g" "r = q'" "p = p''" "l = l''"
    by (auto simp: deframe_frame)
  from frame.IH [OF d] e frame.prems(2) header_of_append [OF frame.hyps(1)] frame.hyps
  show ?case by (simp add: deframe_frame)
qed

text \<open>The rest holds no complete frame: parsing it again changes nothing.\<close>

lemma deframe_settled:
  "deframe valid padded pad s = (fs, r, p, l) \<Longrightarrow> deframe valid padded p r = ([], r, p, False)"
proof (induction pad s arbitrary: fs r p l rule: deframe_induct)
  case (partial s h n)
  then show ?case by (auto simp: deframe_partial)
qed (auto simp: deframe_wait deframe_invalid deframe_frame deframe_strip split: prod.splits)

text \<open>Without padding a pad byte is never expected.\<close>

lemma deframe_no_pad:
  "deframe valid padded pad s = (fs, r, p, l) \<Longrightarrow> \<forall>n. \<not> padded n \<Longrightarrow> \<not> pad \<Longrightarrow> \<not> p"
proof (induction pad s arbitrary: fs r p l rule: deframe_induct)
  case (partial s h n)
  then show ?case by (auto simp: deframe_partial)
qed (auto simp: deframe_wait deframe_invalid deframe_frame deframe_strip split: prod.splits)

lemma deframe_emit_one:
  assumes "complete_frame valid f"
  shows "deframe valid padded False (emit padded f) = ([f], [], False, False)"
proof -
  from assms obtain h where h: "header_of f = Some h" "valid h = Some (length f)"
    by (auto simp: complete_frame_iff)
  moreover from valid_pos [OF h(2)] have "f \<noteq> []" by auto
  moreover from h(1) have "header_of (f @ t) = Some h" for t by (rule header_of_append)
  ultimately show ?thesis
    by (simp add: emit_def deframe_frame deframe_strip)
qed

lemma deframe_emit:
  assumes "\<forall>f \<in> set fs. complete_frame valid f"
  shows "deframe valid padded False (concat (map (emit padded) fs)) = (fs, [], False, False)"
  using assms
proof (induction fs)
  case (Cons f fs)
  then show ?case
    using deframe_append [OF deframe_emit_one [of f]] by simp
qed simp

end

end
