(* ===== verification/Usb_Rx.thy ===== *)
theory Usb_Rx
  imports Adapter Deframer "HOL-Library.Sublist"
begin

text \<open>
  Receive side of the host USB backend (\<^verbatim>\<open>host/usb/esp_usb.c\<close>): the context record, the
  header check, the stream parser, ingestion of a completed transfer and the completion
  handler of a receive URB. The accumulator (\<open>rx_stream\<close> with \<open>rx_stream_len\<close>) is the list
  of its valid bytes. Memory allocation, URB submission and control transfers are the
  kernel's: they are functions of the environment record. Shown: the parser refines the
  reference \<open>deframe\<close>, the accumulator never fills up (so its overflow branch is dead),
  and every byte or frame the parser drops is reported.
\<close>

section \<open>Context\<close>

abbreviation (input) ESP_USB_MAX_XFER :: nat where "ESP_USB_MAX_XFER \<equiv> 16384"
abbreviation (input) ESP_USB_RX_URBS :: nat where "ESP_USB_RX_URBS \<equiv> 8"
abbreviation (input) ESP_USB_TX_URBS :: int where "ESP_USB_TX_URBS \<equiv> 4"
abbreviation (input) ESP_USB_TX_QUEUE_MAX :: nat where "ESP_USB_TX_QUEUE_MAX \<equiv> 256"

record esp_usb_rx_slot =
  slot_urb :: bool
  slot_buf :: bool
  slot_armed :: bool

text \<open>\<open>struct esp_usb_context\<close>. \<open>tx_urbs\<close> are the submitted, uncompleted TX URBs (the TX
  anchor) with the interface type of their \<open>esp_usb_tx_ctx\<close>; \<open>tx_hand\<close> is the frame the TX
  worker has dequeued and not yet submitted (its local variable).\<close>

record esp_usb_context =
  bulk_in_addr :: u8
  bulk_out_addr :: u8
  bulk_in_mps :: u16
  bulk_out_mps :: u16
  high_speed :: bool
  usb_running :: bool
  tx_quiesced :: bool
  flush_in_progress :: bool
  flush_if_type :: u4
  rx_slots :: "esp_usb_rx_slot list"
  rx_queue :: "bytes list"
  tx_queue :: "nat \<Rightarrow> bytes list"
  tx_wq :: bool
  tx_work :: bool
  stateful_fail_work :: bool
  tx_inflight :: int
  rcp_tx_inflight :: int
  hci_tx_inflight :: int
  stateful_fail_force :: bool
  rx_stream :: bytes
  rx_stream_cap :: nat
  rx_pad_expected :: bool
  tx_urbs :: "(bytes \<times> u4) list"
  tx_hand :: "(bytes \<times> u4) option"

text \<open>What the kernel answers: whether \<open>alloc_skb\<close> of a length succeeds in a state, whether
  the small allocations succeed, the result and status word of a control transfer, and
  the results of URB submission.\<close>

record usb_env =
  ue_alloc_skb :: "nat \<Rightarrow> esp_usb_context \<Rightarrow> bool"
  ue_kmalloc :: bool
  ue_control_msg :: "u8 \<Rightarrow> int \<times> u32"
  ue_alloc_rx_urb :: "nat \<Rightarrow> bool"
  ue_alloc_rx_buf :: "nat \<Rightarrow> bool"
  ue_submit_rx :: "nat \<Rightarrow> int"
  ue_alloc_urb :: bool
  ue_alloc_tx_ctx :: bool
  ue_submit_tx :: "bytes \<Rightarrow> int"
  ue_linearize :: "bytes \<Rightarrow> bool"

section \<open>Failure reporting\<close>

definition esp_usb_schedule_stateful_fail ::
  "esp_usb_context \<Rightarrow> 'c esp_adapter \<Rightarrow> bool \<Rightarrow> esp_usb_context" where
  "esp_usb_schedule_stateful_fail ctx a force_reset =
     (if \<not> usb_running ctx then ctx
      else if test_bit ESP_FW_RECOVERY_PENDING a \<or> test_bit ESP_FW_RESET_EXPECTED a \<or>
              test_bit ESP_CLEANUP_IN_PROGRESS a \<or> test_bit ESP_TRANSPORT_REMOVING a then ctx
      else let ctx = (if force_reset then ctx\<lparr>stateful_fail_force := True\<rparr> else ctx)
           in ctx\<lparr>stateful_fail_work := True\<rparr>)"

section \<open>Stream parser\<close>

definition esp_usb_valid_header :: "esp_payload_header \<Rightarrow> nat option" where
  "esp_usb_valid_header h =
     (if ESP_MAX_IF \<le> ph_if_type h then None
      else map_option unat
             (esp_host_wire_span_valid (ucast (ph_len h)) (ucast (ph_offset h))
                (of_nat ESP_USB_MAX_XFER)))"

definition esp_usb_queue_frame_locked ::
  "usb_env \<Rightarrow> bytes \<Rightarrow> esp_usb_context \<Rightarrow> bool \<times> esp_usb_context" where
  "esp_usb_queue_frame_locked env data ctx =
     (if \<not> ue_alloc_skb env (length data) ctx then (False, ctx)
      else (True, ctx\<lparr>rx_queue := rx_queue ctx @ [data]\<rparr>))"

text \<open>The padding rule the host expects of the device.\<close>

definition usb_pad_rule :: "u16 \<Rightarrow> nat \<Rightarrow> bool" where
  "usb_pad_rule mps frame_len \<longleftrightarrow>
     mps \<noteq> 0 \<and> frame_len < ESP_USB_MAX_XFER \<and> frame_len mod unat mps = 0"

definition usb_take_pad :: "esp_usb_context \<Rightarrow> esp_usb_context" where
  "usb_take_pad ctx =
     (if rx_pad_expected ctx \<and> rx_stream ctx \<noteq> []
      then (if hd (rx_stream ctx) = 0 then ctx\<lparr>rx_stream := tl (rx_stream ctx)\<rparr> else ctx)
             \<lparr>rx_pad_expected := False\<rparr>
      else ctx)"

text \<open>One frame of length \<open>n\<close> leaves the accumulator.\<close>

definition usb_cut_frame :: "usb_env \<Rightarrow> nat \<Rightarrow> esp_usb_context \<Rightarrow> bool \<times> esp_usb_context" where
  "usb_cut_frame env n ctx =
     (let (ok, ctx) = esp_usb_queue_frame_locked env (take n (rx_stream ctx)) ctx
      in (ok, ctx\<lparr>rx_pad_expected := usb_pad_rule (bulk_in_mps ctx) n,
                  rx_stream := drop n (rx_stream ctx)\<rparr>))"

lemma usb_take_pad_stream [simp]:
  "length (rx_stream (usb_take_pad ctx)) \<le> length (rx_stream ctx)"
  by (simp add: usb_take_pad_def)

lemma usb_cut_frame_stream [simp]:
  "rx_stream (snd (usb_cut_frame env n ctx)) = drop n (rx_stream ctx)"
  by (simp add: usb_cut_frame_def esp_usb_queue_frame_locked_def Let_def)

lemma esp_usb_valid_header_iff:
  "esp_usb_valid_header h = Some n \<longleftrightarrow>
     ph_if_type h < ESP_MAX_IF \<and> 0 < unat (ph_len h) \<and> 12 \<le> unat (ph_offset h) \<and>
     unat (ph_offset h) \<le> 16 \<and> unat (ph_offset h) + unat (ph_len h) \<le> 16384 \<and>
     n = unat (ph_offset h) + unat (ph_len h)"
proof -
  have u: "unat (ucast x :: u32) = unat x" for x :: u16 by transfer simp
  have s: "esp_host_wire_span_valid (ucast (ph_len h)) (ucast (ph_offset h)) 16384 = Some f \<longleftrightarrow>
     0 < unat (ph_len h) \<and> 12 \<le> unat (ph_offset h) \<and> unat (ph_offset h) \<le> 16 \<and>
     unat (ph_offset h) + unat (ph_len h) \<le> 16384 \<and>
     unat f = unat (ph_offset h) + unat (ph_len h)" for f
    by (simp add: span_valid_iff u)
  have ex: "\<exists>f :: u64. unat f = k" if "k \<le> 16384" for k
    by (rule exI [of _ "of_nat k"]) (use that in \<open>simp add: unat_of_nat\<close>)
  show ?thesis
    using s ex [of "unat (ph_offset h) + unat (ph_len h)"]
    by (auto simp: esp_usb_valid_header_def not_le)
qed

function esp_usb_parse_stream_locked ::
  "usb_env \<Rightarrow> esp_usb_context \<Rightarrow> bool \<Rightarrow> bool \<Rightarrow> esp_usb_context \<times> bool \<times> bool" where
  "esp_usb_parse_stream_locked env ctx queued stream_loss =
     (let ctx = usb_take_pad ctx
      in case header_of (rx_stream ctx) of
           None \<Rightarrow> (ctx, queued, stream_loss)
         | Some hdr \<Rightarrow>
             (case esp_usb_valid_header hdr of
                None \<Rightarrow> esp_usb_parse_stream_locked env
                          (ctx\<lparr>rx_stream := tl (rx_stream ctx)\<rparr>) queued True
              | Some frame_len \<Rightarrow>
                  if length (rx_stream ctx) < frame_len then (ctx, queued, stream_loss)
                  else let (ok, ctx) = usb_cut_frame env frame_len ctx
                       in esp_usb_parse_stream_locked env ctx (queued \<or> ok) (stream_loss \<or> \<not> ok)))"
  by pat_completeness auto
termination
proof (relation "measure (\<lambda>(env, ctx, q, l). length (rx_stream ctx))", goal_cases)
  case (2 env ctx q l x hdr)
  then have "12 \<le> length (rx_stream (usb_take_pad ctx))" by (auto dest: header_of_SomeD)
  with 2 usb_take_pad_stream [of ctx] show ?case by (simp del: usb_take_pad_stream)
next
  case (3 env ctx q l x hdr n p ok ctx')
  then have "rx_stream ctx' = drop n (rx_stream (usb_take_pad ctx))"
    by (metis snd_conv usb_cut_frame_stream)
  moreover from 3 have "0 < n" by (auto simp: esp_usb_valid_header_iff)
  ultimately show ?case using 3 usb_take_pad_stream [of ctx] by (simp del: usb_take_pad_stream)
qed simp

declare esp_usb_parse_stream_locked.simps [simp del]

section \<open>Ingestion of a transfer\<close>

text \<open>The loop of \<open>esp_usb_ingest_stream\<close>. A pass that copies nothing would repeat for
  ever in the code; it is cut off here and shown unreachable below
  (\<open>copy\<close> is positive whenever the accumulator is within its capacity).\<close>

function esp_usb_ingest_loop ::
  "usb_env \<Rightarrow> bytes \<Rightarrow> esp_usb_context \<Rightarrow> bool \<Rightarrow> bool \<Rightarrow> esp_usb_context \<times> bool \<times> bool" where
  "esp_usb_ingest_loop env data ctx queued stream_loss =
     (if data = [] then (ctx, queued, stream_loss)
      else
        let full = length (rx_stream ctx) = rx_stream_cap ctx;
            ctx = (if full then ctx\<lparr>rx_stream := []\<rparr> else ctx);
            stream_loss = (stream_loss \<or> full);
            copy = min (length data) (rx_stream_cap ctx - length (rx_stream ctx));
            ctx = ctx\<lparr>rx_stream := rx_stream ctx @ take copy data\<rparr>;
            (ctx, queued, stream_loss) = esp_usb_parse_stream_locked env ctx queued stream_loss
        in if copy = 0 then (ctx, queued, stream_loss)
           else esp_usb_ingest_loop env (drop copy data) ctx queued stream_loss)"
  by pat_completeness auto
termination
  by (relation "measure (\<lambda>(env, data, ctx, q, l). length data)") auto

declare esp_usb_ingest_loop.simps [simp del]

definition esp_usb_ingest_stream ::
  "usb_env \<Rightarrow> bytes \<Rightarrow> esp_usb_context \<Rightarrow> 'c esp_adapter \<Rightarrow> esp_usb_context \<times> 'c esp_adapter" where
  "esp_usb_ingest_stream env data ctx a =
     (if data = [] then (ctx, a)
      else
        let (ctx, queued, stream_loss) = esp_usb_ingest_loop env data ctx False False;
            ctx = (if stream_loss then esp_usb_schedule_stateful_fail ctx a True else ctx);
            a = (if queued then esp_process_new_packet_intr a else a)
        in (ctx, a))"

text \<open>Completion of the receive URB of slot \<open>i\<close>: \<open>data\<close> is the first \<open>actual_length\<close>
  bytes of its buffer. The slot is idle when its handler runs.\<close>

definition esp_usb_rx_complete ::
  "usb_env \<Rightarrow> nat \<Rightarrow> int \<Rightarrow> bytes \<Rightarrow> esp_usb_context \<Rightarrow> 'c esp_adapter \<Rightarrow>
     esp_usb_context \<times> 'c esp_adapter" where
  "esp_usb_rx_complete env i status data ctx a =
     (let ctx = ctx\<lparr>rx_slots := (rx_slots ctx)[i := (rx_slots ctx ! i)\<lparr>slot_armed := False\<rparr>]\<rparr>
      in if \<not> usb_running ctx \<or> status = - ENOENT \<or> status = - ESHUTDOWN \<or> status = - ECONNRESET
         then (ctx, a)
         else
           let ctx = (if status \<noteq> 0 then esp_usb_schedule_stateful_fail ctx a True else ctx);
               (ctx, a) = (if status = 0 \<and> data \<noteq> [] then esp_usb_ingest_stream env data ctx a
                           else (ctx, a))
           in if \<not> usb_running ctx then (ctx, a)
              else let ret = ue_submit_rx env i
                   in if ret = 0
                      then (ctx\<lparr>rx_slots := (rx_slots ctx)[i := (rx_slots ctx ! i)\<lparr>slot_armed := True\<rparr>]\<rparr>, a)
                      else if ret \<noteq> - ENODEV \<and> ret \<noteq> - ESHUTDOWN
                      then (esp_usb_schedule_stateful_fail ctx a True, a)
                      else (ctx, a))"

definition esp_usb_reset_rx_stream :: "esp_usb_context \<Rightarrow> esp_usb_context" where
  "esp_usb_reset_rx_stream ctx = ctx\<lparr>rx_stream := [], rx_pad_expected := False\<rparr>"

section \<open>Refinement of the reference receiver\<close>

interpretation host_rx: frame_format esp_usb_valid_header "usb_pad_rule mps" ESP_USB_MAX_XFER
  for mps
  by unfold_locales (auto simp: esp_usb_valid_header_iff)

abbreviation host_deframe :: "u16 \<Rightarrow> bool \<Rightarrow> bytes \<Rightarrow> bytes list \<times> bytes \<times> bool \<times> bool" where
  "host_deframe mps \<equiv> deframe esp_usb_valid_header (usb_pad_rule mps)"

lemma usb_take_pad_eq:
  "strip_pad (rx_pad_expected ctx) (rx_stream ctx) = (s, p) \<Longrightarrow>
   usb_take_pad ctx = ctx\<lparr>rx_stream := s, rx_pad_expected := p\<rparr>"
  by (cases ctx) (simp add: usb_take_pad_def strip_pad_def split: if_splits)

lemma usb_cut_frame_eq:
  "usb_cut_frame env n ctx = (ok, ctx') \<Longrightarrow>
   ok = ue_alloc_skb env (length (take n (rx_stream ctx))) ctx \<and>
   ctx' = ctx\<lparr>rx_queue := rx_queue ctx @ (if ok then [take n (rx_stream ctx)] else []),
              rx_stream := drop n (rx_stream ctx),
              rx_pad_expected := usb_pad_rule (bulk_in_mps ctx) n\<rparr>"
  by (auto simp: usb_cut_frame_def esp_usb_queue_frame_locked_def Let_def split: if_splits)

text \<open>What a run of the parser did to the context: the frames \<open>fs\<close> were cut off, the
  subsequence \<open>gs\<close> of them was queued, and loss was reported exactly when a byte was
  skipped (\<open>l\<close>) or a frame could not be stored.\<close>

definition rx_outcome ::
  "esp_usb_context \<Rightarrow> bool \<Rightarrow> bool \<Rightarrow> bytes list \<times> bytes \<times> bool \<times> bool \<Rightarrow> bytes list \<Rightarrow>
     esp_usb_context \<times> bool \<times> bool" where
  "rx_outcome ctx queued loss d gs =
     (case d of (fs, r, p, l) \<Rightarrow>
        (ctx\<lparr>rx_queue := rx_queue ctx @ gs, rx_stream := r, rx_pad_expected := p\<rparr>,
         queued \<or> gs \<noteq> [], loss \<or> l \<or> gs \<noteq> fs))"

lemma parse_refines:
  "\<exists>gs. subseq gs (fst (host_deframe (bulk_in_mps ctx) (rx_pad_expected ctx) (rx_stream ctx))) \<and>
     ((\<forall>n c. ue_alloc_skb env n c) \<longrightarrow>
        gs = fst (host_deframe (bulk_in_mps ctx) (rx_pad_expected ctx) (rx_stream ctx))) \<and>
     esp_usb_parse_stream_locked env ctx queued loss =
       rx_outcome ctx queued loss
         (host_deframe (bulk_in_mps ctx) (rx_pad_expected ctx) (rx_stream ctx)) gs"
proof (induction env ctx queued loss rule: esp_usb_parse_stream_locked.induct)
  case (1 env ctx queued loss)
  obtain s p where sp: "strip_pad (rx_pad_expected ctx) (rx_stream ctx) = (s, p)" by fastforce
  define c where "c = ctx\<lparr>rx_stream := s, rx_pad_expected := p\<rparr>"
  have pad: "usb_take_pad ctx = c" using usb_take_pad_eq [OF sp] c_def by simp
  have c [simp]: "rx_stream c = s" "rx_pad_expected c = p" "bulk_in_mps c = bulk_in_mps ctx"
    "rx_queue c = rx_queue ctx" by (simp_all add: c_def)
  let ?D = "host_deframe (bulk_in_mps ctx)"
  show ?case
  proof (cases "header_of s")
    case None
    then show ?thesis
      by (intro exI [of _ "[]"])
        (simp add: esp_usb_parse_stream_locked.simps [of env ctx] pad rx_outcome_def deframe.simps sp c_def)
  next
    case (Some h)
    show ?thesis
    proof (cases "esp_usb_valid_header h")
      case None
      obtain fs r q l where d: "?D p (tl s) = (fs, r, q, l)" by (metis prod_cases4)
      let ?t = "c\<lparr>rx_stream := tl s\<rparr>"
      have D: "?D (rx_pad_expected ctx) (rx_stream ctx) = (fs, r, q, True)"
        by (simp add: deframe.simps [of _ _ _ "rx_stream ctx"] sp Some None d)
      have "esp_usb_parse_stream_locked env ctx queued loss =
          esp_usb_parse_stream_locked env ?t queued True"
        by (simp add: esp_usb_parse_stream_locked.simps [of env ctx] pad Some None)
      moreover obtain gs where "subseq gs fs" "(\<forall>n c. ue_alloc_skb env n c) \<longrightarrow> gs = fs"
        "esp_usb_parse_stream_locked env ?t queued True = rx_outcome ?t queued True (fs, r, q, l) gs"
        using "1.IH"(1) [OF pad [symmetric], of h] Some None d by auto
      ultimately show ?thesis
        unfolding D by (intro exI [of _ gs]) (simp add: rx_outcome_def c_def)
    next
      fix n assume n: "esp_usb_valid_header h = Some n"
      then have n0: "n \<noteq> 0" by (auto simp: esp_usb_valid_header_iff)
      show ?thesis
      proof (cases "length s < n")
        case True
        then show ?thesis
          by (intro exI [of _ "[]"])
            (simp add: esp_usb_parse_stream_locked.simps [of env ctx] pad rx_outcome_def
              deframe.simps sp c_def Some n)
      next
        case False
        obtain ok t where cut: "usb_cut_frame env n c = (ok, t)" by fastforce
        note t = usb_cut_frame_eq [OF cut]
        obtain fs r q l where d: "?D (usb_pad_rule (bulk_in_mps ctx) n) (drop n s) = (fs, r, q, l)"
          by (metis prod_cases4)
        have D: "?D (rx_pad_expected ctx) (rx_stream ctx) = (take n s # fs, r, q, l)"
          using False n0 by (simp add: deframe.simps [of _ _ _ "rx_stream ctx"] sp Some n d)
        have step: "esp_usb_parse_stream_locked env ctx queued loss =
            esp_usb_parse_stream_locked env t (queued \<or> ok) (loss \<or> \<not> ok)"
          using False by (simp add: esp_usb_parse_stream_locked.simps [of env ctx] pad Some n cut)
        from t have tt: "rx_stream t = drop n s" "bulk_in_mps t = bulk_in_mps ctx"
          "rx_pad_expected t = usb_pad_rule (bulk_in_mps ctx) n" by simp_all
        obtain gs where gs: "subseq gs fs" "(\<forall>n c. ue_alloc_skb env n c) \<longrightarrow> gs = fs"
          "esp_usb_parse_stream_locked env t (queued \<or> ok) (loss \<or> \<not> ok) =
             rx_outcome t (queued \<or> ok) (loss \<or> \<not> ok) (fs, r, q, l) gs"
          using "1.IH"(2) [OF pad [symmetric], of h n "(ok, t)" ok t] Some n cut False tt d by auto
        have neq: "gs \<noteq> take n s # fs" using list_emb_length [OF gs(1)] by auto
        show ?thesis
          unfolding D step
          by (intro exI [of _ "if ok then take n s # gs else gs"])
            (use gs t neq in \<open>auto simp: rx_outcome_def c_def\<close>)
      qed
    qed
  qed
qed

text \<open>Between two transfers the accumulator holds no complete frame.\<close>

definition rx_settled :: "esp_usb_context \<Rightarrow> bool" where
  "rx_settled ctx \<longleftrightarrow> rx_stream_cap ctx = 2 * ESP_USB_MAX_XFER \<and>
     host_deframe (bulk_in_mps ctx) (rx_pad_expected ctx) (rx_stream ctx) =
       ([], rx_stream ctx, rx_pad_expected ctx, False)"

lemma rx_settled_length: "rx_settled ctx \<Longrightarrow> length (rx_stream ctx) < ESP_USB_MAX_XFER"
  using host_rx.deframe_rest by (fastforce simp: rx_settled_def)

lemma rx_settled_outcome:
  assumes "rx_stream_cap ctx = 2 * ESP_USB_MAX_XFER"
    and "host_deframe (bulk_in_mps ctx) pad s = d"
  shows "rx_settled (fst (rx_outcome ctx q l d gs))"
proof -
  obtain fs r p e where "d = (fs, r, p, e)" by (metis prod_cases4)
  with assms host_rx.deframe_settled [of "bulk_in_mps ctx" pad s fs r p e] show ?thesis
    by (simp add: rx_outcome_def rx_settled_def)
qed

lemma subseq_append_eq:
  assumes "subseq xs as" and "subseq ys bs"
  shows "xs @ ys = as @ bs \<longleftrightarrow> xs = as \<and> ys = bs"
  using list_emb_length [OF assms(1)] list_emb_length [OF assms(2)]
  by (metis append_eq_append_conv le_antisym length_append nat_add_left_cancel_le add_le_cancel_right)

lemma ingest_refines:
  assumes "rx_settled ctx"
  shows "\<exists>gs. subseq gs (fst (host_deframe (bulk_in_mps ctx) (rx_pad_expected ctx) (rx_stream ctx @ data))) \<and>
     ((\<forall>n c. ue_alloc_skb env n c) \<longrightarrow>
        gs = fst (host_deframe (bulk_in_mps ctx) (rx_pad_expected ctx) (rx_stream ctx @ data))) \<and>
     esp_usb_ingest_loop env data ctx queued loss =
       rx_outcome ctx queued loss
         (host_deframe (bulk_in_mps ctx) (rx_pad_expected ctx) (rx_stream ctx @ data)) gs"
  using assms
proof (induction data arbitrary: ctx queued loss rule: measure_induct_rule [where f = length])
  case (less data)
  show ?case
  proof (cases "data = []")
    case True
    with less show ?thesis
      by (cases ctx) (auto simp: esp_usb_ingest_loop.simps rx_settled_def rx_outcome_def)
  next
    case False
    let ?mps = "bulk_in_mps ctx"
    have cap: "rx_stream_cap ctx = 32768" and len: "length (rx_stream ctx) < 16384"
      using less rx_settled_length by (auto simp: rx_settled_def)
    define copy where "copy = min (length data) (32768 - length (rx_stream ctx))"
    have copy: "copy \<noteq> 0" using len False by (simp add: copy_def)
    define c1 where "c1 = ctx\<lparr>rx_stream := rx_stream ctx @ take copy data\<rparr>"
    obtain f1 r1 p1 l1 where d1:
      "host_deframe ?mps (rx_pad_expected ctx) (rx_stream ctx @ take copy data) = (f1, r1, p1, l1)"
      by (metis prod_cases4)
    obtain g1 where g1: "subseq g1 f1" "(\<forall>n c. ue_alloc_skb env n c) \<longrightarrow> g1 = f1"
      "esp_usb_parse_stream_locked env c1 queued loss = rx_outcome c1 queued loss (f1, r1, p1, l1) g1"
      using parse_refines [of c1 env queued loss] d1 by (auto simp: c1_def)
    obtain c2 q2 l2 where out: "rx_outcome c1 queued loss (f1, r1, p1, l1) g1 = (c2, q2, l2)"
      by (metis prod_cases3)
    have set2: "rx_settled c2"
      using rx_settled_outcome [of c1 "rx_pad_expected ctx" "rx_stream ctx @ take copy data" _ queued loss g1]
        cap d1 out by (simp add: c1_def)
    have c2: "c2 = ctx\<lparr>rx_queue := rx_queue ctx @ g1, rx_stream := r1, rx_pad_expected := p1\<rparr>"
      "q2 = (queued \<or> g1 \<noteq> [])" "l2 = (loss \<or> l1 \<or> g1 \<noteq> f1)"
      using out by (auto simp: rx_outcome_def c1_def)
    obtain f2 r2 p2 e2 where d2: "host_deframe ?mps p1 (r1 @ drop copy data) = (f2, r2, p2, e2)"
      by (metis prod_cases4)
    have step: "esp_usb_ingest_loop env data ctx queued loss =
        esp_usb_ingest_loop env (drop copy data) c2 q2 l2"
      using False cap len copy g1(3) out
      by (simp add: esp_usb_ingest_loop.simps [of env data ctx] copy_def [symmetric] c1_def Let_def)
    obtain g2 where g2: "subseq g2 f2" "(\<forall>n c. ue_alloc_skb env n c) \<longrightarrow> g2 = f2"
      "esp_usb_ingest_loop env (drop copy data) c2 q2 l2 = rx_outcome c2 q2 l2 (f2, r2, p2, e2) g2"
      using less.IH [of "drop copy data", OF _ set2, of q2 l2] False copy c2(1) d2 by auto
    have "host_deframe ?mps (rx_pad_expected ctx) (rx_stream ctx @ data) =
        (f1 @ f2, r2, p2, l1 \<or> e2)"
      using host_rx.deframe_append [OF d1 d2] by simp
    moreover have "subseq (g1 @ g2) (f1 @ f2)" using g1(1) g2(1) by (rule list_emb_append_mono)
    ultimately show ?thesis
      using g1 g2 step c2 subseq_append_eq [OF g1(1) g2(1)]
      by (intro exI [of _ "g1 @ g2"]) (auto simp: rx_outcome_def)
  qed
qed

end
