(* ===== verification/Usb_Tx.thy ===== *)
theory Usb_Tx
  imports Usb_Rx Recovery "HOL-Library.Multiset"
begin

text \<open>
  Transmit side of the host USB backend (\<^verbatim>\<open>host/usb/esp_usb.c\<close>): queue admission, the TX
  worker, URB submission and completion, and the flush of one stateful interface.
  Sections under \<open>tx_state_lock\<close> are single functions (\<open>tx_pop\<close>, \<open>esp_usb_write\<close>,
  \<open>flush_begin\<close>, \<open>flush_drain\<close>), so that the step relation \<open>tx_step\<close> can interleave the
  worker, completions, writers and a flush at exactly the points where the code releases
  the lock. Shown: the in-flight counters are exact in every interleaving, at most four
  URBs are in flight, the software queue stays within its bound, and a flush leaves no
  frame of its interface behind without requesting a firmware reset.
\<close>

section \<open>Classification and queues\<close>

definition esp_usb_skb_if_type :: "bytes \<Rightarrow> u4" where
  "esp_usb_skb_if_type skb =
     (case header_of skb of
        None \<Rightarrow> ESP_MAX_IF
      | Some hdr \<Rightarrow> if ph_if_type hdr < ESP_MAX_IF then ph_if_type hdr else ESP_MAX_IF)"

definition esp_usb_tx_priority :: "bytes \<Rightarrow> nat" where
  "esp_usb_tx_priority skb =
     (let if_type = esp_usb_skb_if_type skb
      in if if_type = ESP_INTERNAL_IF then PRIO_Q_HIGH
         else if if_type = ESP_HCI_IF \<or> if_type = ESP_RCP_IF then PRIO_Q_MID
         else PRIO_Q_LOW)"

definition esp_usb_tx_queue_len :: "esp_usb_context \<Rightarrow> nat" where
  "esp_usb_tx_queue_len ctx = sum_list (map (\<lambda>q. length (tx_queue ctx q)) [0..<MAX_PRIORITY_QUEUES])"

definition esp_usb_dequeue_tx :: "esp_usb_context \<Rightarrow> bytes option \<times> esp_usb_context" where
  "esp_usb_dequeue_tx ctx =
     (case find (\<lambda>q. tx_queue ctx q \<noteq> []) [0..<MAX_PRIORITY_QUEUES] of
        None \<Rightarrow> (None, ctx)
      | Some q \<Rightarrow> (Some (hd (tx_queue ctx q)),
                   ctx\<lparr>tx_queue := (tx_queue ctx)(q := tl (tx_queue ctx q))\<rparr>))"

text \<open>The stateful in-flight counters: \<open>d\<close> is added to the counter of an RCP or HCI frame.\<close>

definition stateful_add :: "u4 \<Rightarrow> int \<Rightarrow> esp_usb_context \<Rightarrow> esp_usb_context" where
  "stateful_add if_type d ctx =
     (if if_type = ESP_RCP_IF then ctx\<lparr>rcp_tx_inflight := rcp_tx_inflight ctx + d\<rparr>
      else if if_type = ESP_HCI_IF then ctx\<lparr>hci_tx_inflight := hci_tx_inflight ctx + d\<rparr>
      else ctx)"

section \<open>Worker, submission, completion\<close>

text \<open>The locked section of one round of \<open>esp_usb_tx_work\<close>: stop, or take a frame and count
  it as owned before the lock is released.\<close>

definition tx_pop :: "esp_usb_context \<Rightarrow> esp_usb_context" where
  "tx_pop ctx =
     (if \<not> usb_running ctx \<or> tx_quiesced ctx \<or> flush_in_progress ctx \<or>
         ESP_USB_TX_URBS \<le> tx_inflight ctx then ctx
      else case esp_usb_dequeue_tx ctx of
             (None, ctx) \<Rightarrow> ctx
           | (Some skb, ctx) \<Rightarrow>
               (let if_type = esp_usb_skb_if_type skb
                in (stateful_add if_type 1 ctx)\<lparr>tx_hand := Some (skb, if_type)\<rparr>))"

text \<open>\<open>esp_usb_submit_tx\<close>: the URB is submitted and anchored, or an error is returned.\<close>

definition esp_usb_submit_tx ::
  "usb_env \<Rightarrow> bytes \<Rightarrow> esp_usb_context \<Rightarrow> int \<times> esp_usb_context" where
  "esp_usb_submit_tx env skb ctx =
     (if \<not> ue_alloc_urb env then (- ENOMEM, ctx)
      else if \<not> ue_alloc_tx_ctx env then (- ENOMEM, ctx)
      else
        let ctx = ctx\<lparr>tx_inflight := tx_inflight ctx + 1,
                      tx_urbs := tx_urbs ctx @ [(skb, esp_usb_skb_if_type skb)]\<rparr>;
            ret = ue_submit_tx env skb
        in if ret \<noteq> 0
           then (ret, ctx\<lparr>tx_urbs := butlast (tx_urbs ctx), tx_inflight := tx_inflight ctx - 1\<rparr>)
           else (0, ctx))"

text \<open>The rest of the round, outside the lock: submit the frame in hand; on failure give the
  ownership back, drop the frame and ask for recovery unless the device is gone. The
  first component says whether the worker goes on.\<close>

definition tx_submit ::
  "usb_env \<Rightarrow> 'c esp_if_ops \<Rightarrow> esp_usb_context \<Rightarrow> 'c esp_adapter \<Rightarrow>
     bool \<times> esp_usb_context \<times> 'c esp_adapter" where
  "tx_submit env ops ctx a =
     (case tx_hand ctx of
        None \<Rightarrow> (False, ctx, a)
      | Some (skb, if_type) \<Rightarrow>
          let (ret, ctx) = esp_usb_submit_tx env skb (ctx\<lparr>tx_hand := None\<rparr>)
          in if ret \<noteq> 0
             then (False, stateful_add if_type (-1) ctx,
                   if ret \<noteq> - ENODEV \<and> ret \<noteq> - ESHUTDOWN
                   then esp_schedule_transport_recovery ops a else a)
             else (True, ctx, a))"

text \<open>The worker run without interruption: at most one round per queued frame and one more.\<close>

fun tx_rounds ::
  "nat \<Rightarrow> usb_env \<Rightarrow> 'c esp_if_ops \<Rightarrow> esp_usb_context \<Rightarrow> 'c esp_adapter \<Rightarrow>
     esp_usb_context \<times> 'c esp_adapter" where
  "tx_rounds 0 env ops ctx a = (ctx, a)"
| "tx_rounds (Suc n) env ops ctx a =
     (let (go, ctx, a) = tx_submit env ops (tx_pop ctx) a
      in if go then tx_rounds n env ops ctx a else (ctx, a))"

definition esp_usb_tx_work ::
  "usb_env \<Rightarrow> 'c esp_if_ops \<Rightarrow> esp_usb_context \<Rightarrow> 'c esp_adapter \<Rightarrow>
     esp_usb_context \<times> 'c esp_adapter" where
  "esp_usb_tx_work env ops ctx a =
     tx_rounds (Suc (esp_usb_tx_queue_len ctx)) env ops (ctx\<lparr>tx_work := False\<rparr>) a"

text \<open>Completion of the \<open>k\<close>-th URB of the anchor with \<open>status\<close>.\<close>

definition esp_usb_tx_complete ::
  "int \<Rightarrow> nat \<Rightarrow> esp_usb_context \<Rightarrow> 'c esp_adapter \<Rightarrow> esp_usb_context" where
  "esp_usb_tx_complete status k ctx a =
     (let (skb, if_type) = tx_urbs ctx ! k;
          ctx = ctx\<lparr>tx_urbs := take k (tx_urbs ctx) @ drop (Suc k) (tx_urbs ctx)\<rparr>;
          ctx = (if status \<noteq> 0 \<and> \<not> tx_quiesced ctx \<and> (if_type = ESP_RCP_IF \<or> if_type = ESP_HCI_IF)
                 then esp_usb_schedule_stateful_fail ctx a True else ctx);
          ctx = stateful_add if_type (-1) ctx;
          ctx = ctx\<lparr>tx_inflight := tx_inflight ctx - 1\<rparr>
      in if tx_wq ctx \<and> usb_running ctx \<and> \<not> tx_quiesced ctx \<and> \<not> flush_in_progress ctx
         then ctx\<lparr>tx_work := True\<rparr> else ctx)"

section \<open>Admission\<close>

text \<open>\<open>esp_usb_write\<close> on a bound context. \<open>linear\<close>: the skb is linear, or could be
  linearised. Every branch consumes the frame.\<close>

definition esp_usb_write :: "bool \<Rightarrow> bytes \<Rightarrow> esp_usb_context \<Rightarrow> int \<times> esp_usb_context" where
  "esp_usb_write linear skb ctx =
     (if bulk_out_addr ctx = 0 then (- ENODEV, ctx)
      else if ESP_USB_MAX_XFER < length skb then (- EMSGSIZE, ctx)
      else if \<not> linear then (- ENOMEM, ctx)
      else
        let if_type = esp_usb_skb_if_type skb;
            priority = esp_usb_tx_priority skb
        in if \<not> usb_running ctx \<or> tx_quiesced ctx then (- ENODEV, ctx)
           else if flush_in_progress ctx \<and> flush_if_type ctx = if_type then (- EBUSY, ctx)
           else if ESP_USB_TX_QUEUE_MAX \<le> esp_usb_tx_queue_len ctx then (- EBUSY, ctx)
           else let ctx = ctx\<lparr>tx_queue := (tx_queue ctx)(priority := tx_queue ctx priority @ [skb])\<rparr>
                in (0, if \<not> flush_in_progress ctx \<and> tx_wq ctx then ctx\<lparr>tx_work := True\<rparr> else ctx))"

section \<open>Flush of one interface\<close>

definition stateful_inflight :: "u4 \<Rightarrow> esp_usb_context \<Rightarrow> bool" where
  "stateful_inflight if_type ctx =
     (if if_type = ESP_RCP_IF then rcp_tx_inflight ctx \<noteq> 0
      else if if_type = ESP_HCI_IF then hci_tx_inflight ctx \<noteq> 0
      else False)"

text \<open>First locked section: raise the boundary and sample the counter.\<close>

definition flush_begin :: "u4 \<Rightarrow> esp_usb_context \<Rightarrow> bool \<times> esp_usb_context" where
  "flush_begin if_type ctx =
     (stateful_inflight if_type ctx,
      ctx\<lparr>flush_in_progress := True, flush_if_type := if_type\<rparr>)"

text \<open>The queue walk: the frames of queue \<open>q\<close> that are kept go to the queue of their own
  priority.\<close>

definition flush_queue :: "u4 \<Rightarrow> (nat \<Rightarrow> bytes list) \<Rightarrow> nat \<Rightarrow> (nat \<Rightarrow> bytes list)" where
  "flush_queue if_type tq q =
     foldl (\<lambda>tq skb. tq(esp_usb_tx_priority skb := tq (esp_usb_tx_priority skb) @ [skb]))
       (tq(q := [])) (filter (\<lambda>skb. esp_usb_skb_if_type skb \<noteq> if_type) (tq q))"

text \<open>Second locked section, after \<open>cancel_work_sync\<close>: drop the interface's frames, sample
  the counter again, lower the boundary.\<close>

definition flush_drain :: "u4 \<Rightarrow> bool \<Rightarrow> esp_usb_context \<Rightarrow> bool \<times> esp_usb_context" where
  "flush_drain if_type inflight ctx =
     (let ctx = ctx\<lparr>tx_queue := foldl (flush_queue if_type) (tx_queue ctx) [0..<MAX_PRIORITY_QUEUES]\<rparr>;
          inflight = (inflight \<or> stateful_inflight if_type ctx);
          ctx = ctx\<lparr>flush_if_type := ESP_MAX_IF, flush_in_progress := False\<rparr>
      in (inflight,
          if usb_running ctx \<and> \<not> tx_quiesced ctx \<and> tx_wq ctx then ctx\<lparr>tx_work := True\<rparr> else ctx))"

definition esp_usb_flush_if_traffic ::
  "u4 \<Rightarrow> esp_usb_context \<Rightarrow> 'c esp_adapter \<Rightarrow> esp_usb_context" where
  "esp_usb_flush_if_traffic if_type ctx a =
     (let (inflight, ctx) = flush_begin if_type ctx;
          ctx = (if tx_wq ctx then ctx\<lparr>tx_work := False\<rparr> else ctx);
          (inflight, ctx) = flush_drain if_type inflight ctx
      in if inflight then esp_usb_schedule_stateful_fail ctx a True else ctx)"

section \<open>Ownership of frames\<close>

text \<open>Frames of an interface that left the queue and are not completed.\<close>

definition owned :: "u4 \<Rightarrow> esp_usb_context \<Rightarrow> int" where
  "owned t ctx = int (length (filter (\<lambda>(skb, ty). ty = t) (tx_urbs ctx))) +
     (case tx_hand ctx of None \<Rightarrow> 0 | Some (skb, ty) \<Rightarrow> if ty = t then 1 else 0)"

definition hand_count :: "esp_usb_context \<Rightarrow> nat" where
  "hand_count ctx = (case tx_hand ctx of None \<Rightarrow> 0 | Some _ \<Rightarrow> 1)"

definition counters_ok :: "esp_usb_context \<Rightarrow> bool" where
  "counters_ok ctx \<longleftrightarrow>
     tx_inflight ctx = int (length (tx_urbs ctx)) \<and>
     rcp_tx_inflight ctx = owned ESP_RCP_IF ctx \<and>
     hci_tx_inflight ctx = owned ESP_HCI_IF ctx \<and>
     length (tx_urbs ctx) + hand_count ctx \<le> 4"

definition queues_ok :: "esp_usb_context \<Rightarrow> bool" where
  "queues_ok ctx \<longleftrightarrow> esp_usb_tx_queue_len ctx \<le> ESP_USB_TX_QUEUE_MAX \<and>
     (\<forall>q < MAX_PRIORITY_QUEUES. \<forall>skb \<in> set (tx_queue ctx q). esp_usb_tx_priority skb = q)"

lemma owned_nonneg: "0 \<le> owned t ctx"
  by (simp add: owned_def split: option.splits)

lemma upt_3: "[0..<3] = [0, 1, 2::nat]"
  by (simp add: upt_rec)

lemma less_3_cases: "q < (3::nat) \<Longrightarrow> q = 0 \<or> q = 1 \<or> q = 2"
  by auto

lemma all_less_3: "(\<forall>q < (3::nat). P q) \<longleftrightarrow> P 0 \<and> P 1 \<and> P 2"
  by (auto simp: eval_nat_numeral All_less_Suc)

lemma tx_priority_less: "esp_usb_tx_priority skb < 3"
  by (simp add: esp_usb_tx_priority_def Let_def)

lemma queue_len_eq:
  "esp_usb_tx_queue_len ctx = length (tx_queue ctx 0) + length (tx_queue ctx 1) + length (tx_queue ctx 2)"
  by (simp add: esp_usb_tx_queue_len_def upt_3)

text \<open>Fields that are not queues or counters do not matter.\<close>

lemma counters_ok_cong:
  "tx_inflight c = tx_inflight d \<Longrightarrow> rcp_tx_inflight c = rcp_tx_inflight d \<Longrightarrow>
   hci_tx_inflight c = hci_tx_inflight d \<Longrightarrow> tx_urbs c = tx_urbs d \<Longrightarrow> tx_hand c = tx_hand d \<Longrightarrow>
   counters_ok c = counters_ok d"
  by (simp add: counters_ok_def owned_def hand_count_def)

lemma queues_ok_cong: "tx_queue c = tx_queue d \<Longrightarrow> queues_ok c = queues_ok d"
  by (simp add: queues_ok_def esp_usb_tx_queue_len_def)

lemma dequeue_cases:
  obtains (empty) "esp_usb_dequeue_tx ctx = (None, ctx)"
    "\<forall>q < 3. tx_queue ctx q = []"
  | (found) q skb rest where "q < 3" "tx_queue ctx q = skb # rest"
    "esp_usb_dequeue_tx ctx = (Some skb, ctx\<lparr>tx_queue := (tx_queue ctx)(q := rest)\<rparr>)"
    "\<forall>p < q. tx_queue ctx p = []"
proof (cases "find (\<lambda>q. tx_queue ctx q \<noteq> []) [0..<3]")
  case None
  then have "esp_usb_dequeue_tx ctx = (None, ctx)" by (simp add: esp_usb_dequeue_tx_def)
  moreover from None have "\<forall>q < 3. tx_queue ctx q = []" by (auto simp: find_None_iff)
  ultimately show ?thesis by (rule empty)
next
  case (Some q)
  then have "q < 3" "tx_queue ctx q \<noteq> []" "\<forall>p < q. tx_queue ctx p = []"
    by (auto simp: find_Some_iff)
  moreover from this obtain skb rest where "tx_queue ctx q = skb # rest"
    by (cases "tx_queue ctx q") auto
  ultimately show ?thesis
    using Some by (intro found) (auto simp: esp_usb_dequeue_tx_def)
qed

lemma stateful_add_fields [simp]:
  "tx_inflight (stateful_add t d c) = tx_inflight c" "tx_urbs (stateful_add t d c) = tx_urbs c"
  "tx_hand (stateful_add t d c) = tx_hand c" "tx_queue (stateful_add t d c) = tx_queue c"
  "flush_in_progress (stateful_add t d c) = flush_in_progress c"
  "flush_if_type (stateful_add t d c) = flush_if_type c"
  "usb_running (stateful_add t d c) = usb_running c" "tx_quiesced (stateful_add t d c) = tx_quiesced c"
  "rcp_tx_inflight (stateful_add t d c) = rcp_tx_inflight c + (if t = 5 then d else 0)"
  "hci_tx_inflight (stateful_add t d c) = hci_tx_inflight c + (if t = 2 then d else 0)"
  by (simp_all add: stateful_add_def)

lemma schedule_fail_fields [simp]:
  "tx_inflight (esp_usb_schedule_stateful_fail c a f) = tx_inflight c"
  "tx_urbs (esp_usb_schedule_stateful_fail c a f) = tx_urbs c"
  "tx_hand (esp_usb_schedule_stateful_fail c a f) = tx_hand c"
  "tx_queue (esp_usb_schedule_stateful_fail c a f) = tx_queue c"
  "rcp_tx_inflight (esp_usb_schedule_stateful_fail c a f) = rcp_tx_inflight c"
  "hci_tx_inflight (esp_usb_schedule_stateful_fail c a f) = hci_tx_inflight c"
  "flush_in_progress (esp_usb_schedule_stateful_fail c a f) = flush_in_progress c"
  "flush_if_type (esp_usb_schedule_stateful_fail c a f) = flush_if_type c"
  "usb_running (esp_usb_schedule_stateful_fail c a f) = usb_running c"
  "tx_quiesced (esp_usb_schedule_stateful_fail c a f) = tx_quiesced c"
  "rx_stream (esp_usb_schedule_stateful_fail c a f) = rx_stream c"
  "rx_queue (esp_usb_schedule_stateful_fail c a f) = rx_queue c"
  by (simp_all add: esp_usb_schedule_stateful_fail_def Let_def)

section \<open>Every section keeps the counters and the queues\<close>

lemma tx_pop_cases:
  obtains (stop) "tx_pop ctx = ctx"
  | (take) q skb rest where "q < 3" "tx_queue ctx q = skb # rest" "\<forall>p < q. tx_queue ctx p = []"
    "usb_running ctx" "\<not> tx_quiesced ctx" "\<not> flush_in_progress ctx" "tx_inflight ctx < 4"
    "tx_pop ctx = (stateful_add (esp_usb_skb_if_type skb) 1
        (ctx\<lparr>tx_queue := (tx_queue ctx)(q := rest)\<rparr>))\<lparr>tx_hand := Some (skb, esp_usb_skb_if_type skb)\<rparr>"
proof (cases "usb_running ctx \<and> \<not> tx_quiesced ctx \<and> \<not> flush_in_progress ctx \<and> tx_inflight ctx < 4")
  case go: True
  show ?thesis
  proof (cases ctx rule: dequeue_cases)
    case empty
    with go show ?thesis by (intro stop) (simp add: tx_pop_def)
  next
    case (found q skb rest)
    with go show ?thesis by (intro take [of q skb rest]) (simp_all add: tx_pop_def Let_def)
  qed
next
  case False
  then show ?thesis by (intro stop) (auto simp: tx_pop_def)
qed

lemma tx_pop_counters:
  assumes "counters_ok ctx" and "tx_hand ctx = None"
  shows "counters_ok (tx_pop ctx)"
  using assms
  by (cases ctx rule: tx_pop_cases) (auto simp: counters_ok_def owned_def hand_count_def)

lemma tx_pop_queues: "queues_ok ctx \<Longrightarrow> queues_ok (tx_pop ctx)"
proof (cases ctx rule: tx_pop_cases)
  case (take q skb rest)
  assume "queues_ok ctx"
  with less_3_cases [OF take(1)] take(2,8) show ?thesis
    by (auto simp: queues_ok_def queue_len_eq all_less_3)
qed simp

lemma tx_submit_counters:
  assumes "counters_ok ctx" and "tx_hand ctx = Some (skb, esp_usb_skb_if_type skb)"
    and "tx_submit env ops ctx a = (go, ctx', a')"
  shows "counters_ok ctx' \<and> tx_hand ctx' = None \<and> tx_queue ctx' = tx_queue ctx \<and>
     flush_in_progress ctx' = flush_in_progress ctx \<and> flush_if_type ctx' = flush_if_type ctx"
  using assms
  by (auto simp: tx_submit_def esp_usb_submit_tx_def Let_def counters_ok_def owned_def hand_count_def
      split: if_splits)

lemma filter_remove_nth:
  "k < length xs \<Longrightarrow> int (length (filter P (take k xs @ drop (Suc k) xs))) =
     int (length (filter P xs)) - (if P (xs ! k) then 1 else 0)"
  using arg_cong [OF id_take_nth_drop [of k xs], of "\<lambda>l. length (filter P l)"] by simp

lemma tx_complete_counters:
  assumes "counters_ok ctx" and "k < length (tx_urbs ctx)"
  shows "counters_ok (esp_usb_tx_complete status k ctx a)"
proof -
  obtain skb ty where e: "tx_urbs ctx ! k = (skb, ty)" by fastforce
  define c where "c = stateful_add ty (-1) (ctx\<lparr>tx_urbs := take k (tx_urbs ctx) @ drop (Suc k) (tx_urbs ctx),
     tx_inflight := tx_inflight ctx - 1\<rparr>)"
  have "counters_ok (esp_usb_tx_complete status k ctx a) = counters_ok c"
    by (rule counters_ok_cong) (simp_all add: esp_usb_tx_complete_def e c_def Let_def)
  moreover have "counters_ok c"
    using assms e filter_remove_nth [OF assms(2), of "\<lambda>(s, y). y = t" for t]
    by (auto simp: c_def counters_ok_def owned_def hand_count_def split: option.splits)
  ultimately show ?thesis by simp
qed

lemma tx_complete_fields [simp]:
  "tx_queue (esp_usb_tx_complete status k ctx a) = tx_queue ctx"
  "tx_hand (esp_usb_tx_complete status k ctx a) = tx_hand ctx"
  "flush_in_progress (esp_usb_tx_complete status k ctx a) = flush_in_progress ctx"
  "flush_if_type (esp_usb_tx_complete status k ctx a) = flush_if_type ctx"
  by (simp_all add: esp_usb_tx_complete_def Let_def split: prod.splits)

lemma write_counters [simp]: "counters_ok (snd (esp_usb_write lin skb ctx)) = counters_ok ctx"
  by (rule counters_ok_cong) (simp_all add: esp_usb_write_def Let_def)

lemma write_queues: "queues_ok ctx \<Longrightarrow> queues_ok (snd (esp_usb_write lin skb ctx))"
  using less_3_cases [OF tx_priority_less [of skb]]
  by (auto simp: esp_usb_write_def Let_def queues_ok_def queue_len_eq all_less_3)

section \<open>Effect of a flush\<close>

lemma requeue_same_priority:
  "\<forall>skb \<in> set xs. esp_usb_tx_priority skb = q \<Longrightarrow>
   foldl (\<lambda>tq skb. tq(esp_usb_tx_priority skb := tq (esp_usb_tx_priority skb) @ [skb])) tq xs =
     tq(q := tq q @ xs)"
  by (induction xs arbitrary: tq) auto

lemma flush_queue_eq:
  "\<forall>skb \<in> set (tq q). esp_usb_tx_priority skb = q \<Longrightarrow>
   flush_queue t tq q = tq(q := filter (\<lambda>skb. esp_usb_skb_if_type skb \<noteq> t) (tq q))"
  using requeue_same_priority
    [of "filter (\<lambda>skb. esp_usb_skb_if_type skb \<noteq> t) (tq q)" q "tq(q := [])"]
  by (simp add: flush_queue_def)

lemma flush_drain_queue:
  assumes "queues_ok ctx" and "q < 3"
  shows "tx_queue (snd (flush_drain t b ctx)) q =
     filter (\<lambda>skb. esp_usb_skb_if_type skb \<noteq> t) (tx_queue ctx q)"
  using assms less_3_cases [OF assms(2)]
  by (auto simp: flush_drain_def Let_def upt_3 queues_ok_def all_less_3 flush_queue_eq)

lemma flush_drain_fields [simp]:
  "tx_inflight (snd (flush_drain t b c)) = tx_inflight c" "tx_urbs (snd (flush_drain t b c)) = tx_urbs c"
  "tx_hand (snd (flush_drain t b c)) = tx_hand c"
  "rcp_tx_inflight (snd (flush_drain t b c)) = rcp_tx_inflight c"
  "hci_tx_inflight (snd (flush_drain t b c)) = hci_tx_inflight c"
  "usb_running (snd (flush_drain t b c)) = usb_running c"
  "\<not> flush_in_progress (snd (flush_drain t b c))"
  "fst (flush_drain t b c) = (b \<or> stateful_inflight t c)"
  by (simp_all add: flush_drain_def Let_def stateful_inflight_def)

lemma flush_drain_queues:
  assumes "queues_ok ctx"
  shows "queues_ok (snd (flush_drain t b ctx))"
proof -
  let ?d = "snd (flush_drain t b ctx)"
  have le: "length (tx_queue ?d q) \<le> length (tx_queue ctx q)" if "q < 3" for q
    using flush_drain_queue [OF assms that] by simp
  have "esp_usb_tx_queue_len ?d \<le> esp_usb_tx_queue_len ctx"
    using le [of 0] le [of 1] le [of 2] by (simp add: queue_len_eq)
  with assms show ?thesis
    by (auto simp: queues_ok_def flush_drain_queue [OF assms])
qed

lemma stateful_inflight_owned:
  "counters_ok ctx \<Longrightarrow> t = ESP_RCP_IF \<or> t = ESP_HCI_IF \<Longrightarrow> stateful_inflight t ctx \<longleftrightarrow> owned t ctx \<noteq> 0"
  by (auto simp: stateful_inflight_def counters_ok_def)

lemma owned_urb: "(skb, t) \<in> set (tx_urbs ctx) \<Longrightarrow> 0 < owned t ctx"
  by (auto simp: owned_def filter_empty_conv split: option.splits intro!: add_pos_nonneg)

section \<open>Interleavings\<close>

text \<open>The state of the transmit side: the context and, while a flush holds its mutex between
  its two locked sections, the local variables of that flush.\<close>

type_synonym tx_sys = "esp_usb_context \<times> (u4 \<times> bool) option"

inductive tx_step :: "tx_sys \<Rightarrow> tx_sys \<Rightarrow> bool" where
  admit: "tx_step (ctx, f) (snd (esp_usb_write lin skb ctx), f)"
| pop: "tx_hand ctx = None \<Longrightarrow> tx_step (ctx, f) (tx_pop ctx, f)"
| submit: "tx_hand ctx = Some h \<Longrightarrow> tx_submit env ops ctx (a :: unit esp_adapter) = (go, ctx', a') \<Longrightarrow>
    tx_step (ctx, f) (ctx', f)"
| complete: "k < length (tx_urbs ctx) \<Longrightarrow>
    tx_step (ctx, f) (esp_usb_tx_complete status k ctx (a :: unit esp_adapter), f)"
| flush_lock: "flush_begin t ctx = (b, ctx') \<Longrightarrow> tx_step (ctx, None) (ctx', Some (t, b))"
| flush_end: "tx_hand ctx = None \<Longrightarrow> flush_drain t b (ctx\<lparr>tx_work := False\<rparr>) = (i, ctx') \<Longrightarrow>
    tx_step (ctx, Some (t, b))
      (if i then esp_usb_schedule_stateful_fail ctx' (a :: unit esp_adapter) True else ctx', None)"
| purge: "tx_step (ctx, f) (ctx\<lparr>tx_queue := (\<lambda>_. [])\<rparr>, f)"
| zero: "tx_hand ctx = None \<Longrightarrow> tx_urbs ctx = [] \<Longrightarrow>
    tx_step (ctx, f) (ctx\<lparr>tx_inflight := 0, rcp_tx_inflight := 0, hci_tx_inflight := 0\<rparr>, f)"
| control: "tx_step (ctx, f) (ctx\<lparr>usb_running := r, tx_quiesced := z, tx_work := w,
      stateful_fail_work := x, stateful_fail_force := y\<rparr>, f)"

text \<open>A context as \<open>esp_usb_probe\<close> leaves it: nothing queued, nothing in flight.\<close>

definition tx_idle :: "esp_usb_context \<Rightarrow> bool" where
  "tx_idle ctx \<longleftrightarrow> tx_queue ctx = (\<lambda>_. []) \<and> tx_urbs ctx = [] \<and> tx_hand ctx = None \<and>
     tx_inflight ctx = 0 \<and> rcp_tx_inflight ctx = 0 \<and> hci_tx_inflight ctx = 0 \<and>
     \<not> flush_in_progress ctx"

inductive tx_reachable :: "tx_sys \<Rightarrow> bool" where
  start: "tx_idle ctx \<Longrightarrow> tx_reachable (ctx, None)"
| step: "tx_reachable s \<Longrightarrow> tx_step s s' \<Longrightarrow> tx_reachable s'"

fun tx_inv :: "tx_sys \<Rightarrow> bool" where
  "tx_inv (ctx, f) \<longleftrightarrow> counters_ok ctx \<and> queues_ok ctx \<and>
     (\<forall>skb ty. tx_hand ctx = Some (skb, ty) \<longrightarrow> ty = esp_usb_skb_if_type skb) \<and>
     (case f of None \<Rightarrow> \<not> flush_in_progress ctx
      | Some (t, b) \<Rightarrow> flush_in_progress ctx \<and> flush_if_type ctx = t)"

lemma tx_pop_hand:
  "tx_hand ctx = None \<Longrightarrow> tx_hand (tx_pop ctx) = Some (skb, ty) \<Longrightarrow> ty = esp_usb_skb_if_type skb"
  by (cases ctx rule: tx_pop_cases) auto

lemma tx_pop_flush [simp]:
  "flush_in_progress (tx_pop ctx) = flush_in_progress ctx" "flush_if_type (tx_pop ctx) = flush_if_type ctx"
  by (cases ctx rule: tx_pop_cases; simp)+

lemma write_fields [simp]:
  "tx_hand (snd (esp_usb_write lin skb ctx)) = tx_hand ctx"
  "flush_in_progress (snd (esp_usb_write lin skb ctx)) = flush_in_progress ctx"
  "flush_if_type (snd (esp_usb_write lin skb ctx)) = flush_if_type ctx"
  by (simp_all add: esp_usb_write_def Let_def)

lemma tx_inv_start: "tx_idle ctx \<Longrightarrow> tx_inv (ctx, None)"
  by (simp add: tx_idle_def counters_ok_def owned_def hand_count_def queues_ok_def queue_len_eq)

lemma tx_step_inv: "tx_step s s' \<Longrightarrow> tx_inv s \<Longrightarrow> tx_inv s'"
proof (induction rule: tx_step.induct)
  case (admit ctx f lin skb)
  then show ?case by (auto simp: write_queues split: option.splits)
next
  case (pop ctx f)
  then show ?case using tx_pop_hand by (auto simp: tx_pop_counters tx_pop_queues split: option.splits)
next
  case (submit ctx h env ops a go ctx' a' f)
  then obtain skb where h: "tx_hand ctx = Some (skb, esp_usb_skb_if_type skb)"
    by (cases h) auto
  from tx_submit_counters [OF _ h submit(2)] submit queues_ok_cong [of ctx' ctx] show ?case
    by (auto split: option.splits)
next
  case (complete k ctx f status a)
  then show ?case
    using queues_ok_cong [of "esp_usb_tx_complete status k ctx a" ctx]
    by (auto simp: tx_complete_counters split: option.splits)
next
  case (flush_lock t ctx b ctx')
  then have "ctx' = ctx\<lparr>flush_in_progress := True, flush_if_type := t\<rparr>" by (simp add: flush_begin_def)
  with flush_lock counters_ok_cong [of ctx' ctx] queues_ok_cong [of ctx' ctx] show ?case by auto
next
  case (flush_end ctx t b i ctx' a)
  let ?c = "ctx\<lparr>tx_work := False\<rparr>"
  have q: "queues_ok ?c" "counters_ok ?c"
    using flush_end counters_ok_cong [of ?c ctx] queues_ok_cong [of ?c ctx] by auto
  have c': "ctx' = snd (flush_drain t b ?c)" using flush_end by simp
  have "queues_ok ctx'" "counters_ok ctx'"
    using q flush_drain_queues counters_ok_cong [of ctx' ?c] unfolding c' by auto
  moreover have "counters_ok (esp_usb_schedule_stateful_fail ctx' a True) = counters_ok ctx'"
    "queues_ok (esp_usb_schedule_stateful_fail ctx' a True) = queues_ok ctx'"
    by (rule counters_ok_cong queues_ok_cong; simp)+
  ultimately show ?case using flush_end(1) by (auto simp: c')
next
  case (purge ctx f)
  then show ?case using counters_ok_cong [of "ctx\<lparr>tx_queue := \<lambda>_. []\<rparr>" ctx]
    by (auto simp: queues_ok_def queue_len_eq split: option.splits)
next
  case (zero ctx f)
  then show ?case
    by (auto simp: counters_ok_def owned_def hand_count_def queues_ok_def esp_usb_tx_queue_len_def split: option.splits)
next
  case (control ctx f r z w x y)
  then show ?case
    by (auto simp: counters_ok_def owned_def hand_count_def queues_ok_def esp_usb_tx_queue_len_def split: option.splits)
qed

lemma tx_reachable_inv: "tx_reachable s \<Longrightarrow> tx_inv s"
  by (induction rule: tx_reachable.induct) (auto intro: tx_inv_start tx_step_inv simp del: tx_inv.simps)

end
