(* ===== verification/Usb_Host.thy ===== *)
theory Usb_Host
  imports Usb_Tx
begin

text \<open>
  Life cycle of the host USB backend (\<^verbatim>\<open>host/usb/esp_usb.c\<close>): vendor control requests,
  arming and killing of receive slots, quiesce / reinit / recover, probe and disconnect,
  and the operation table the common driver calls. The table is shown to satisfy the
  contract the recovery code relies on, and the receive path to come back complete: after
  a successful re-arm every slot is armed, after a failed one none is.
\<close>

section \<open>Vendor requests\<close>

abbreviation (input) ESP_USB_VENDOR_REQ_READY_REPLAY :: u8
  where "ESP_USB_VENDOR_REQ_READY_REPLAY \<equiv> 0xA0"
abbreviation (input) ESP_USB_VENDOR_REQ_SOFT_RESET :: u8
  where "ESP_USB_VENDOR_REQ_SOFT_RESET \<equiv> 0xA1"

definition esp_usb_vendor_request :: "usb_env \<Rightarrow> u8 \<Rightarrow> int" where
  "esp_usb_vendor_request env request =
     (if \<not> ue_kmalloc env then - ENOMEM
      else let (ret, value) = ue_control_msg env request
           in if ret < 0 then ret
              else if ret \<noteq> 4 then - EIO
              else if value = 0 then 0 else - EIO)"

definition generate_slave_intr :: "usb_env \<Rightarrow> u8 \<Rightarrow> int" where
  "generate_slave_intr env data =
     (if data AND BIT_CLOSE_DATA_PATH \<noteq> 0
      then esp_usb_vendor_request env ESP_USB_VENDOR_REQ_SOFT_RESET
      else if data AND BIT_OPEN_DATA_PATH \<noteq> 0
      then esp_usb_vendor_request env ESP_USB_VENDOR_REQ_READY_REPLAY
      else 0)"

section \<open>Receive slots\<close>

definition usb_kill_slots :: "esp_usb_rx_slot list \<Rightarrow> esp_usb_rx_slot list" where
  "usb_kill_slots = map (\<lambda>sl. sl\<lparr>slot_armed := False\<rparr>)"

text \<open>\<open>esp_usb_start_rx\<close>: allocate and submit slot by slot; the first failure is returned and
  what was done so far is left for \<open>esp_usb_cleanup_context\<close>.\<close>

fun esp_usb_start_rx :: "usb_env \<Rightarrow> nat list \<Rightarrow> esp_usb_context \<Rightarrow> int \<times> esp_usb_context" where
  "esp_usb_start_rx env [] ctx = (0, ctx)"
| "esp_usb_start_rx env (i # is) ctx =
     (if \<not> ue_alloc_rx_urb env i then (- ENOMEM, ctx)
      else
        let ctx = ctx\<lparr>rx_slots := (rx_slots ctx)[i := (rx_slots ctx ! i)\<lparr>slot_urb := True\<rparr>]\<rparr>
        in if \<not> ue_alloc_rx_buf env i then (- ENOMEM, ctx)
           else
             let ctx = ctx\<lparr>rx_slots := (rx_slots ctx)[i := (rx_slots ctx ! i)\<lparr>slot_buf := True\<rparr>]\<rparr>;
                 ret = ue_submit_rx env i
             in if ret \<noteq> 0 then (ret, ctx)
                else esp_usb_start_rx env is
                       (ctx\<lparr>rx_slots := (rx_slots ctx)[i := (rx_slots ctx ! i)\<lparr>slot_armed := True\<rparr>]\<rparr>))"

definition esp_usb_free_rx_slots :: "esp_usb_context \<Rightarrow> esp_usb_context" where
  "esp_usb_free_rx_slots ctx =
     ctx\<lparr>rx_slots := map (\<lambda>_. \<lparr>slot_urb = False, slot_buf = False, slot_armed = False\<rparr>) (rx_slots ctx)\<rparr>"

text \<open>The submission loop of \<open>esp_usb_rearm_rx\<close> from slot \<open>i\<close> on.\<close>

function usb_arm_from :: "usb_env \<Rightarrow> nat \<Rightarrow> esp_usb_rx_slot list \<Rightarrow> int \<times> esp_usb_rx_slot list" where
  "usb_arm_from env i slots =
     (if length slots \<le> i then (0, slots)
      else if \<not> slot_urb (slots ! i) \<or> \<not> slot_buf (slots ! i) then (- ENODEV, slots)
      else let ret = ue_submit_rx env i
           in if ret \<noteq> 0 then (ret, usb_kill_slots (take i slots) @ drop i slots)
              else usb_arm_from env (Suc i) (slots[i := (slots ! i)\<lparr>slot_armed := True\<rparr>]))"
  by pat_completeness auto
termination
  by (relation "measure (\<lambda>(env, i, slots). length slots - i)") auto

declare usb_arm_from.simps [simp del]

definition esp_usb_rearm_rx :: "usb_env \<Rightarrow> esp_usb_context \<Rightarrow> int \<times> esp_usb_context" where
  "esp_usb_rearm_rx env ctx =
     (if \<not> usb_running ctx then (- ENODEV, ctx)
      else
        let ctx = esp_usb_reset_rx_stream (ctx\<lparr>rx_slots := usb_kill_slots (rx_slots ctx)\<rparr>);
            (ret, slots) = usb_arm_from env 0 (rx_slots ctx)
        in (ret, ctx\<lparr>rx_slots := slots\<rparr>))"

section \<open>Quiesce, reinit, recover\<close>

text \<open>Killing the anchored TX URBs runs the completion of each with \<open>-ENOENT\<close>.\<close>

fun usb_kill_tx :: "nat \<Rightarrow> 'c esp_adapter \<Rightarrow> esp_usb_context \<Rightarrow> esp_usb_context" where
  "usb_kill_tx 0 a ctx = ctx"
| "usb_kill_tx (Suc n) a ctx = usb_kill_tx n a (esp_usb_tx_complete (- ENOENT) 0 ctx a)"

definition esp_usb_quiesce_for_fw_reset ::
  "esp_usb_context \<Rightarrow> 'c esp_adapter \<Rightarrow> int \<times> esp_usb_context" where
  "esp_usb_quiesce_for_fw_reset ctx a =
     (let ctx = ctx\<lparr>tx_quiesced := True\<rparr>;
          ctx = (if tx_wq ctx then ctx\<lparr>tx_work := False\<rparr> else ctx);
          ctx = ctx\<lparr>tx_queue := (\<lambda>q. if q < MAX_PRIORITY_QUEUES then [] else tx_queue ctx q)\<rparr>;
          ctx = usb_kill_tx (length (tx_urbs ctx)) a ctx;
          ctx = ctx\<lparr>tx_inflight := 0, rcp_tx_inflight := 0, hci_tx_inflight := 0\<rparr>;
          ctx = ctx\<lparr>rx_slots := usb_kill_slots (rx_slots ctx)\<rparr>;
          ctx = esp_usb_reset_rx_stream ctx
      in (0, ctx\<lparr>rx_queue := []\<rparr>))"

definition esp_usb_reinit_after_fw_reset :: "usb_env \<Rightarrow> esp_usb_context \<Rightarrow> int \<times> esp_usb_context" where
  "esp_usb_reinit_after_fw_reset env ctx =
     (if \<not> usb_running ctx then (- ENODEV, ctx)
      else
        let (ret, ctx) = esp_usb_rearm_rx env ctx
        in if ret \<noteq> 0 then (ret, ctx)
           else let ctx = ctx\<lparr>tx_quiesced := False\<rparr>
                in (0, if tx_wq ctx then ctx\<lparr>tx_work := True\<rparr> else ctx))"

definition esp_usb_recover_transport :: "usb_env \<Rightarrow> esp_usb_context \<Rightarrow> int \<times> esp_usb_context" where
  "esp_usb_recover_transport env ctx =
     (if \<not> usb_running ctx then (- ENODEV, ctx)
      else
        let (ret, ctx) = esp_usb_rearm_rx env (ctx\<lparr>rx_queue := []\<rparr>)
        in if ret \<noteq> 0 then (ret, ctx)
           else (esp_usb_vendor_request env ESP_USB_VENDOR_REQ_READY_REPLAY, ctx))"

definition esp_usb_read :: "esp_usb_context \<Rightarrow> bytes option \<times> esp_usb_context" where
  "esp_usb_read ctx =
     (case rx_queue ctx of [] \<Rightarrow> (None, ctx) | skb # rest \<Rightarrow> (Some skb, ctx\<lparr>rx_queue := rest\<rparr>))"

section \<open>Operation table\<close>

text \<open>The operations receive the adapter and find the context through \<open>if_context\<close>;
  without one they fail with \<open>-ENODEV\<close>.\<close>

definition with_context ::
  "(esp_usb_context \<Rightarrow> esp_usb_context esp_adapter \<Rightarrow> int \<times> esp_usb_context) \<Rightarrow>
     esp_usb_context esp_adapter \<Rightarrow> int \<times> esp_usb_context esp_adapter" where
  "with_context f a =
     (case if_context a of
        None \<Rightarrow> (- ENODEV, a)
      | Some ctx \<Rightarrow> let (ret, ctx) = f ctx a in (ret, a\<lparr>if_context := Some ctx\<rparr>))"

definition esp_usb_if_ops :: "usb_env \<Rightarrow> esp_usb_context esp_if_ops" where
  "esp_usb_if_ops env = \<lparr>
     op_read = Some (\<lambda>a. case if_context a of
                 None \<Rightarrow> (None, a)
               | Some ctx \<Rightarrow> let (skb, ctx) = esp_usb_read ctx in (skb, a\<lparr>if_context := Some ctx\<rparr>)),
     op_write = Some (\<lambda>a skb. with_context (\<lambda>ctx a. esp_usb_write (ue_linearize env skb) skb ctx) a),
     op_quiesce_for_fw_reset = Some (with_context esp_usb_quiesce_for_fw_reset),
     op_reinit_after_fw_reset = Some (with_context (\<lambda>ctx a. esp_usb_reinit_after_fw_reset env ctx)),
     op_commit_fw_recovery = None,
     op_reset_target = None,
     op_recover_transport = Some (with_context (\<lambda>ctx a. esp_usb_recover_transport env ctx)),
     op_note_fw_reset = None,
     op_flush_bt_traffic = Some (\<lambda>a. snd (with_context
        (\<lambda>ctx a. (0, esp_usb_flush_if_traffic ESP_HCI_IF ctx a)) a)),
     op_flush_rcp_traffic = Some (\<lambda>a. snd (with_context
        (\<lambda>ctx a. (0, esp_usb_flush_if_traffic ESP_RCP_IF ctx a)) a)),
     op_rx_during_live_recovery = False,
     op_resume_after_live_recovery = None,
     op_generate_slave_intr = (\<lambda>a data. (if if_context a = None then - ENODEV
                                         else generate_slave_intr env data, a)) \<rparr>"

text \<open>\<open>esp_usb_stateful_fail_work\<close>; \<open>rcp_fail_closed\<close> is the answer of
  \<open>esp_rcp_fail_closed_required\<close>.\<close>

definition esp_usb_stateful_fail_work ::
  "kernel_env \<Rightarrow> usb_env \<Rightarrow> bool \<Rightarrow> esp_usb_context esp_adapter \<Rightarrow> esp_usb_context esp_adapter" where
  "esp_usb_stateful_fail_work kenv env rcp_fail_closed a =
     (case if_context a of
        None \<Rightarrow> a
      | Some ctx \<Rightarrow>
          let force_reset = stateful_fail_force ctx;
              ops = esp_usb_if_ops env;
              a = a\<lparr>if_context := Some (ctx\<lparr>stateful_fail_force := False, stateful_fail_work := False\<rparr>)\<rparr>
          in if \<not> usb_running ctx \<or> test_bit ESP_TRANSPORT_REMOVING a then a
             else if \<not> force_reset \<and> \<not> rcp_fail_closed then esp_schedule_transport_recovery ops a
             else esp_request_firmware_restart kenv ops (esp_schedule_fw_reset_recovery ops a))"

section \<open>Probe and disconnect\<close>

record usb_endpoint =
  ep_address :: u8
  ep_maxp :: u16
  ep_bulk_in :: bool
  ep_bulk_out :: bool

fun esp_usb_find_endpoints :: "usb_endpoint list \<Rightarrow> esp_usb_context \<Rightarrow> int \<times> esp_usb_context" where
  "esp_usb_find_endpoints [] ctx =
     (if bulk_in_addr ctx \<noteq> 0 \<and> bulk_out_addr ctx \<noteq> 0 then 0 else - ENODEV, ctx)"
| "esp_usb_find_endpoints (ep # eps) ctx =
     esp_usb_find_endpoints eps
       (if ep_bulk_in ep \<and> bulk_in_addr ctx = 0
        then ctx\<lparr>bulk_in_addr := ep_address ep, bulk_in_mps := ep_maxp ep\<rparr>
        else if ep_bulk_out ep \<and> bulk_out_addr ctx = 0
        then ctx\<lparr>bulk_out_addr := ep_address ep, bulk_out_mps := ep_maxp ep\<rparr>
        else ctx)"

text \<open>The context as \<open>kzalloc\<close> and the initialisers of \<open>esp_usb_probe\<close> leave it.\<close>

definition usb_fresh_context :: "bool \<Rightarrow> bool \<Rightarrow> esp_usb_context" where
  "usb_fresh_context hs wq = \<lparr>
     bulk_in_addr = 0, bulk_out_addr = 0, bulk_in_mps = 0, bulk_out_mps = 0, high_speed = hs,
     usb_running = False, tx_quiesced = False, flush_in_progress = False, flush_if_type = ESP_MAX_IF,
     rx_slots = replicate ESP_USB_RX_URBS \<lparr>slot_urb = False, slot_buf = False, slot_armed = False\<rparr>,
     rx_queue = [], tx_queue = (\<lambda>_. []), tx_wq = wq, tx_work = False, stateful_fail_work = False,
     tx_inflight = 0, rcp_tx_inflight = 0, hci_tx_inflight = 0, stateful_fail_force = False,
     rx_stream = [], rx_stream_cap = ESP_USB_MAX_XFER * 2, rx_pad_expected = False,
     tx_urbs = [], tx_hand = None \<rparr>"

text \<open>\<open>esp_usb_probe\<close>. \<open>ctx_ok\<close>, \<open>stream_ok\<close>, \<open>wq_ok\<close>: the three allocations. A failing
  probe frees its context.\<close>

definition esp_usb_probe ::
  "usb_env \<Rightarrow> bool \<Rightarrow> bool \<Rightarrow> bool \<Rightarrow> bool \<Rightarrow> usb_endpoint list \<Rightarrow>
     esp_usb_context esp_adapter \<Rightarrow> int \<times> esp_usb_context esp_adapter" where
  "esp_usb_probe env ctx_ok stream_ok wq_ok hs eps a =
     (if if_context a \<noteq> None then (- EBUSY, a)
      else if \<not> ctx_ok \<or> \<not> stream_ok \<or> \<not> wq_ok then (- ENOMEM, a)
      else
        let (ret, ctx) = esp_usb_find_endpoints eps (usb_fresh_context hs True)
        in if ret \<noteq> 0 then (ret, a)
           else
             let a = a\<lparr>if_ops_bound := True, ad_if_type := ESP_IF_TYPE_USB\<rparr>;
                 a = esp_reset_boot_recovery_for_binding True a;
                 a = clear_bit ESP_TRANSPORT_REMOVING a;
                 a = clear_bit ESP_CLEANUP_IN_PROGRESS a;
                 a = a\<lparr>ad_state := ESP_CONTEXT_RX_READY\<rparr>;
                 (ret, ctx) = esp_usb_start_rx env [0..<ESP_USB_RX_URBS] (ctx\<lparr>usb_running := True\<rparr>)
             in if ret \<noteq> 0 then (ret, a\<lparr>if_context := None, ad_state := ESP_CONTEXT_DISABLED\<rparr>)
                else (0, schedule_recovery_work ESP_FW_RECOVERY_WATCHDOG_MS
                           (a\<lparr>if_context := Some ctx\<rparr>)))"

text \<open>\<open>esp_usb_disconnect\<close> with \<open>esp_usb_cleanup_context\<close>: the context is stopped, drained
  and freed. \<open>remove_card\<close> is \<open>esp_remove_card(adapter, false)\<close>.\<close>

definition esp_usb_disconnect ::
  "(esp_usb_context esp_adapter \<Rightarrow> esp_usb_context esp_adapter) \<Rightarrow>
     esp_usb_context esp_adapter \<Rightarrow> esp_usb_context esp_adapter" where
  "esp_usb_disconnect remove_card a =
     (if if_context a = None then a
      else
        let a = set_bit ESP_TRANSPORT_REMOVING a;
            a = set_bit ESP_CLEANUP_IN_PROGRESS a;
            a = clear_bit ESP_INIT_DONE a;
            a = a\<lparr>ad_state := ESP_CONTEXT_DISABLED\<rparr>;
            a = cancel_recovery_work a;
            a = (if events_wq a then a\<lparr>events_work := False\<rparr> else a);
            a = a\<lparr>events_skb_q := []\<rparr>;
            a = (if if_rx_workqueue a then a\<lparr>if_rx_work := False\<rparr> else a);
            a = remove_card a
        in a\<lparr>if_context := None\<rparr>)"

definition esp_validate_chipset :: "u8 \<Rightarrow> 'c esp_adapter \<Rightarrow> int \<times> 'c esp_adapter" where
  "esp_validate_chipset chip a =
     (if chip \<noteq> 0x20 then (- ENODEV, a\<lparr>chipset := 0xff\<rparr>) else (0, a\<lparr>chipset := chip\<rparr>))"

section \<open>Receive slots come back complete or not at all\<close>

lemma length_usb_kill_slots [simp]: "length (usb_kill_slots s) = length s"
  by (simp add: usb_kill_slots_def)

lemma usb_kill_slots_append [simp]:
  "usb_kill_slots (s @ t) = usb_kill_slots s @ usb_kill_slots t"
  by (simp add: usb_kill_slots_def)

lemma usb_kill_slots_idle: "\<not> list_ex slot_armed s \<Longrightarrow> usb_kill_slots s = s"
  by (induction s) (auto simp: usb_kill_slots_def)

lemma usb_kill_slots_not_armed [simp]: "\<not> list_ex slot_armed (usb_kill_slots s)"
  by (induction s) (auto simp: usb_kill_slots_def)

lemma usb_kill_slots_memory [simp]:
  "list_all (\<lambda>sl. slot_urb sl \<and> slot_buf sl) (usb_kill_slots s) =
   list_all (\<lambda>sl. slot_urb sl \<and> slot_buf sl) s"
  by (induction s) (auto simp: usb_kill_slots_def)

text \<open>Slots below \<open>i\<close> are armed, the others idle: the loop arms all of them, or reports the
  failure with none armed.\<close>

lemma usb_arm_from_all_or_none:
  assumes "list_all (\<lambda>sl. slot_urb sl \<and> slot_buf sl) slots"
    and "i \<le> length slots" and "list_all slot_armed (take i slots)"
    and "\<not> list_ex slot_armed (drop i slots)"
    and "usb_arm_from env i slots = (ret, slots')"
  shows "length slots' = length slots \<and>
    (if ret = 0 then list_all slot_armed slots' else \<not> list_ex slot_armed slots')"
  using assms
proof (induction env i slots rule: usb_arm_from.induct)
  case (1 env i slots)
  show ?case
  proof (cases "length slots \<le> i")
    case True
    with 1 show ?thesis by (simp add: usb_arm_from.simps)
  next
    case False
    then have mem: "slot_urb (slots ! i)" "slot_buf (slots ! i)"
      using "1.prems"(1) by (auto simp: list_all_length)
    show ?thesis
    proof (cases "ue_submit_rx env i = 0")
      case fail: False
      with 1 False mem show ?thesis
        by (auto simp: usb_arm_from.simps [of env i slots] Let_def)
    next
      case True
      let ?s = "slots[i := (slots ! i)\<lparr>slot_armed := True\<rparr>]"
      have "list_all (\<lambda>sl. slot_urb sl \<and> slot_buf sl) ?s"
        using "1.prems"(1) mem False by (auto simp: list_all_length nth_list_update)
      moreover have "list_all slot_armed (take (Suc i) ?s)"
        using "1.prems"(3) False by (auto simp: list_all_length nth_list_update less_Suc_eq)
      moreover have "\<not> list_ex slot_armed (drop (Suc i) ?s)"
        using "1.prems"(4) False by (auto simp: list_ex_length nth_list_update)
          (metis Suc_diff_Suc add_Suc add_Suc_right not_le_imp_less not_less_eq)
      ultimately show ?thesis
        using 1 False mem True by (simp add: usb_arm_from.simps [of env i slots])
    qed
  qed
qed

lemma rearm_all_or_none:
  assumes "usb_running ctx" and "list_all (\<lambda>sl. slot_urb sl \<and> slot_buf sl) (rx_slots ctx)"
    and "esp_usb_rearm_rx env ctx = (ret, ctx')"
  shows "length (rx_slots ctx') = length (rx_slots ctx)"
    and "ret = 0 \<Longrightarrow> list_all slot_armed (rx_slots ctx')"
    and "ret \<noteq> 0 \<Longrightarrow> \<not> list_ex slot_armed (rx_slots ctx')"
    and "rx_stream ctx' = []" and "\<not> rx_pad_expected ctx'"
proof -
  obtain s where arm: "usb_arm_from env 0 (usb_kill_slots (rx_slots ctx)) = (ret, s)"
    and c: "ctx' = (esp_usb_reset_rx_stream (ctx\<lparr>rx_slots := usb_kill_slots (rx_slots ctx)\<rparr>))\<lparr>rx_slots := s\<rparr>"
    using assms by (auto simp: esp_usb_rearm_rx_def esp_usb_reset_rx_stream_def Let_def split: prod.splits)
  have "length s = length (rx_slots ctx) \<and> (if ret = 0 then list_all slot_armed s else \<not> list_ex slot_armed s)"
    using usb_arm_from_all_or_none [OF _ _ _ _ arm] assms(2) by simp
  then show "length (rx_slots ctx') = length (rx_slots ctx)"
    "ret = 0 \<Longrightarrow> list_all slot_armed (rx_slots ctx')"
    "ret \<noteq> 0 \<Longrightarrow> \<not> list_ex slot_armed (rx_slots ctx')"
    "rx_stream ctx' = []" "\<not> rx_pad_expected ctx'"
    by (auto simp: c esp_usb_reset_rx_stream_def)
qed

section \<open>Quiesce\<close>

lemma usb_kill_tx_urbs:
  "length (tx_urbs ctx) = n \<Longrightarrow> tx_urbs (usb_kill_tx n a ctx) = []"
proof (induction n arbitrary: ctx)
  case (Suc n)
  then have "length (tx_urbs (esp_usb_tx_complete (- 2) 0 ctx a)) = n"
    by (simp add: esp_usb_tx_complete_def Let_def split: prod.splits)
  with Suc.IH show ?case by simp
qed simp

lemma usb_kill_tx_fields [simp]:
  "tx_queue (usb_kill_tx n a ctx) = tx_queue ctx"
  "tx_hand (usb_kill_tx n a ctx) = tx_hand ctx"
  "tx_quiesced (usb_kill_tx n a ctx) = tx_quiesced ctx"
  "flush_in_progress (usb_kill_tx n a ctx) = flush_in_progress ctx"
proof (induction n arbitrary: ctx)
  case (Suc n)
  case 3
  then show ?case using Suc
    by (simp add: esp_usb_tx_complete_def esp_usb_schedule_stateful_fail_def Let_def split: prod.splits)
qed simp_all

lemma quiesce_empties:
  assumes "esp_usb_quiesce_for_fw_reset ctx a = (ret, ctx')"
  shows "ret = 0" and "tx_quiesced ctx'" and "esp_usb_tx_queue_len ctx' = 0"
    and "tx_urbs ctx' = []" and "tx_inflight ctx' = 0" and "rcp_tx_inflight ctx' = 0"
    and "hci_tx_inflight ctx' = 0" and "\<not> list_ex slot_armed (rx_slots ctx')"
    and "rx_stream ctx' = []" and "rx_queue ctx' = []" and "tx_hand ctx' = tx_hand ctx"
  using assms
  by (auto simp: esp_usb_quiesce_for_fw_reset_def esp_usb_reset_rx_stream_def Let_def queue_len_eq
      usb_kill_tx_urbs)

text \<open>Nothing is admitted or taken up between quiesce and reinit.\<close>

lemma quiesced_rejects:
  "tx_quiesced ctx \<Longrightarrow> snd (esp_usb_write lin skb ctx) = ctx"
  "tx_quiesced ctx \<Longrightarrow> fst (esp_usb_write lin skb ctx) < 0"
  "tx_quiesced ctx \<Longrightarrow> tx_pop ctx = ctx"
  by (simp_all add: esp_usb_write_def tx_pop_def)

section \<open>The operation table meets the contract of the recovery code\<close>

lemma with_context_view: "with_context f a = (r, a') \<Longrightarrow> recovery_view a' = recovery_view a"
  by (auto simp: with_context_def recovery_view_def split: option.splits prod.splits)

interpretation usb_recovery: recovery_transport "esp_usb_if_ops env" for env
  by unfold_locales (auto simp: esp_usb_if_ops_def dest: with_context_view)

section \<open>Probe\<close>

lemma find_endpoints_fields:
  "esp_usb_find_endpoints eps c = (r, c') \<Longrightarrow>
     tx_idle c' = tx_idle c \<and> rx_stream c' = rx_stream c \<and> rx_pad_expected c' = rx_pad_expected c \<and>
     rx_stream_cap c' = rx_stream_cap c \<and> rx_slots c' = rx_slots c \<and> rx_queue c' = rx_queue c \<and>
     (r = 0 \<longrightarrow> bulk_in_addr c' \<noteq> 0 \<and> bulk_out_addr c' \<noteq> 0)"
  by (induction eps arbitrary: c) (auto simp: tx_idle_def split: if_splits)

lemma start_rx_fields:
  "esp_usb_start_rx env is c = (r, c') \<Longrightarrow>
     tx_idle c' = tx_idle c \<and> rx_stream c' = rx_stream c \<and> rx_pad_expected c' = rx_pad_expected c \<and>
     rx_stream_cap c' = rx_stream_cap c \<and> usb_running c' = usb_running c \<and> rx_queue c' = rx_queue c \<and>
     bulk_in_addr c' = bulk_in_addr c \<and> bulk_out_addr c' = bulk_out_addr c \<and>
     length (rx_slots c') = length (rx_slots c)"
  by (induction "is" arbitrary: c) (auto simp: tx_idle_def Let_def split: if_splits)

lemma start_rx_armed:
  assumes "esp_usb_start_rx env is c = (0, c')" and "set is \<subseteq> {..<length (rx_slots c)}"
    and "j \<in> set is \<or> (j < length (rx_slots c) \<and> slot_urb (rx_slots c ! j) \<and> slot_buf (rx_slots c ! j) \<and> slot_armed (rx_slots c ! j))"
  shows "slot_urb (rx_slots c' ! j) \<and> slot_buf (rx_slots c' ! j) \<and> slot_armed (rx_slots c' ! j)"
  using assms
proof (induction "is" arbitrary: c)
  case (Cons i "is")
  define s where "s = (rx_slots c)
    [i := (rx_slots c ! i)\<lparr>slot_urb := True, slot_buf := True, slot_armed := True\<rparr>]"
  from Cons.prems have "esp_usb_start_rx env is (c\<lparr>rx_slots := s\<rparr>) = (0, c')"
    by (auto simp: Let_def s_def split: if_splits)
  moreover have "j \<in> set is \<or> (j < length s \<and> slot_urb (s ! j) \<and> slot_buf (s ! j) \<and> slot_armed (s ! j))"
    using Cons.prems(2,3) by (auto simp: s_def nth_list_update)
  ultimately show ?case
    using Cons.IH [of "c\<lparr>rx_slots := s\<rparr>"] Cons.prems(2) by (simp add: s_def)
qed simp

lemma usb_fresh_idle: "tx_idle (usb_fresh_context hs wq)"
  by (simp add: usb_fresh_context_def tx_idle_def)

lemma probe_context:
  assumes "esp_usb_probe env c s w hs eps a = (0, a')"
  obtains ctx where "if_context a' = Some ctx" "tx_idle ctx" "rx_settled ctx" "usb_running ctx"
    "length (rx_slots ctx) = 8"
    "list_all (\<lambda>sl. slot_urb sl \<and> slot_buf sl \<and> slot_armed sl) (rx_slots ctx)"
    "bulk_in_addr ctx \<noteq> 0" "bulk_out_addr ctx \<noteq> 0"
proof -
  obtain c1 where c1: "esp_usb_find_endpoints eps (usb_fresh_context hs True) = (0, c1)"
    using assms by (auto simp: esp_usb_probe_def Let_def split: if_splits prod.splits)
  with assms obtain c2 where c2: "esp_usb_start_rx env [0..<8] (c1\<lparr>usb_running := True\<rparr>) = (0, c2)"
    "if_context a' = Some c2"
    by (auto simp: esp_usb_probe_def Let_def work_defs simp del: esp_usb_start_rx.simps
        split: if_splits prod.splits)
  note f = find_endpoints_fields [OF c1] and g = start_rx_fields [OF c2(1)]
  have "slot_urb (rx_slots c2 ! j) \<and> slot_buf (rx_slots c2 ! j) \<and> slot_armed (rx_slots c2 ! j)"
    if "j < 8" for j
    by (rule start_rx_armed [OF c2(1)]) (use that f in \<open>auto simp: usb_fresh_context_def\<close>)
  moreover have len: "length (rx_slots c2) = 8" using f g by (simp add: usb_fresh_context_def)
  ultimately have "list_all (\<lambda>sl. slot_urb sl \<and> slot_buf sl \<and> slot_armed sl) (rx_slots c2)"
    by (simp add: list_all_length)
  moreover have "tx_idle c2"
    using f g usb_fresh_idle [of hs True] by (simp add: tx_idle_def)
  moreover have "rx_settled c2"
    using f g by (simp add: rx_settled_def usb_fresh_context_def)
  ultimately show ?thesis using that [OF c2(2)] f g len by simp
qed

section \<open>The TX worker drains what it may\<close>

lemma tx_pop_queue_len:
  assumes "tx_hand ctx = None" and "tx_hand (tx_pop ctx) = Some h"
  shows "Suc (esp_usb_tx_queue_len (tx_pop ctx)) = esp_usb_tx_queue_len ctx"
  using assms
proof (cases ctx rule: dequeue_cases)
  case (found q skb rest)
  with assms less_3_cases [OF found(1)] show ?thesis
    by (auto simp: tx_pop_def queue_len_eq Let_def split: if_splits)
qed (simp add: tx_pop_def split: if_splits)

lemma tx_pop_idle:
  assumes "tx_hand ctx = None" and "tx_hand (tx_pop ctx) = None"
    and "usb_running ctx" and "\<not> tx_quiesced ctx" and "\<not> flush_in_progress ctx"
  shows "tx_pop ctx = ctx" and "4 \<le> tx_inflight ctx \<or> esp_usb_tx_queue_len ctx = 0"
  using assms
  by (cases ctx rule: dequeue_cases; auto simp: tx_pop_def queue_len_eq Let_def split: if_splits)+

definition tx_env_ok :: "usb_env \<Rightarrow> bool" where
  "tx_env_ok env \<longleftrightarrow> ue_alloc_urb env \<and> ue_alloc_tx_ctx env \<and> (\<forall>skb. ue_submit_tx env skb = 0)"

lemma tx_submit_ok:
  assumes "tx_env_ok env" and "tx_hand ctx = Some (skb, ty)"
  shows "tx_submit env ops ctx a =
     (True, ctx\<lparr>tx_hand := None, tx_inflight := tx_inflight ctx + 1,
                tx_urbs := tx_urbs ctx @ [(skb, esp_usb_skb_if_type skb)]\<rparr>, a)"
  using assms by (cases ctx) (simp add: tx_submit_def esp_usb_submit_tx_def tx_env_ok_def Let_def)

lemma tx_pop_frame:
  "usb_running (tx_pop ctx) = usb_running ctx" "tx_quiesced (tx_pop ctx) = tx_quiesced ctx"
  "tx_inflight (tx_pop ctx) = tx_inflight ctx" "tx_urbs (tx_pop ctx) = tx_urbs ctx"
  by (cases ctx rule: tx_pop_cases; simp)+

lemma tx_rounds_drain:
  assumes "tx_env_ok env" and "tx_hand ctx = None" and "esp_usb_tx_queue_len ctx < n"
    and "usb_running ctx" and "\<not> tx_quiesced ctx" and "\<not> flush_in_progress ctx"
    and "tx_rounds n env ops ctx a = (ctx', a')"
  shows "a' = a \<and> tx_hand ctx' = None \<and> (4 \<le> tx_inflight ctx' \<or> esp_usb_tx_queue_len ctx' = 0)"
  using assms
proof (induction n arbitrary: ctx)
  case (Suc n)
  show ?case
  proof (cases "tx_hand (tx_pop ctx)")
    case None
    with Suc.prems tx_pop_idle [OF Suc.prems(2) None] show ?thesis
      by (simp add: tx_submit_def)
  next
    case (Some h)
    obtain skb ty where h: "h = (skb, ty)" by fastforce
    let ?c = "(tx_pop ctx)\<lparr>tx_hand := None, tx_inflight := tx_inflight (tx_pop ctx) + 1,
                tx_urbs := tx_urbs (tx_pop ctx) @ [(skb, esp_usb_skb_if_type skb)]\<rparr>"
    have step: "tx_rounds n env ops ?c a = (ctx', a')"
      using Suc.prems(7) tx_submit_ok [OF Suc.prems(1), of "tx_pop ctx" skb ty ops a] Some h by simp
    have "esp_usb_tx_queue_len ?c = esp_usb_tx_queue_len (tx_pop ctx)"
      by (simp add: queue_len_eq)
    then show ?thesis
      using Suc.prems tx_pop_queue_len [OF Suc.prems(2) Some]
      by (intro Suc.IH [OF _ _ _ _ _ _ step]) (simp_all add: tx_pop_frame)
  qed
qed simp

lemma tx_work_drains:
  assumes "tx_env_ok env" and "tx_hand ctx = None"
    and "usb_running ctx" and "\<not> tx_quiesced ctx" and "\<not> flush_in_progress ctx"
    and "esp_usb_tx_work env ops ctx a = (ctx', a')"
  shows "a' = a \<and> tx_hand ctx' = None \<and> (4 \<le> tx_inflight ctx' \<or> esp_usb_tx_queue_len ctx' = 0)"
  by (rule tx_rounds_drain [of env "ctx\<lparr>tx_work := False\<rparr>" "Suc (esp_usb_tx_queue_len ctx)" ops a])
    (use assms in \<open>simp_all add: esp_usb_tx_work_def queue_len_eq\<close>)

end
