(* ===== verification/Fw_Rcp.thy ===== *)
theory Fw_Rcp
  imports Wire Byte_Pipe "HOL-Library.Multiset"
begin

text \<open>
  The firmware's bridge of the IEEE 802.15.4 radio co-processor byte stream
  (\<^verbatim>\<open>esp/.../main/esp_rcp.c\<close>, with the buffer handle of \<^verbatim>\<open>interface.h\<close> and the fatal-restart
  request of \<^verbatim>\<open>app_main.c\<close>): queues, TX slot pool, session nonce, the gate that holds back
  startup bytes until the host has proved the current nonce, and both directions of the
  stream. What the other tasks do while the bridge blocks is an argument: how many frames
  the transport takes off its queue, and whether a mutex is obtained in time. Shown: the
  host-to-radio direction is a byte FIFO, TX slots are conserved (the accounting error
  branch and a full startup queue cannot occur), chunks are published in the order they
  were produced with startup bytes first, and a wrong nonce changes nothing.
\<close>

section \<open>Error codes and buffer handles\<close>

abbreviation (input) ESP_OK :: int where "ESP_OK \<equiv> 0"
abbreviation (input) ESP_FAIL :: int where "ESP_FAIL \<equiv> -1"
abbreviation (input) ESP_ERR_NO_MEM :: int where "ESP_ERR_NO_MEM \<equiv> 0x101"
abbreviation (input) ESP_ERR_INVALID_ARG :: int where "ESP_ERR_INVALID_ARG \<equiv> 0x102"
abbreviation (input) ESP_ERR_INVALID_STATE :: int where "ESP_ERR_INVALID_STATE \<equiv> 0x103"
abbreviation (input) ESP_ERR_TIMEOUT :: int where "ESP_ERR_TIMEOUT \<equiv> 0x107"

abbreviation (input) ESP_HOSTED_RCP_TX_POOL_SIZE :: nat where "ESP_HOSTED_RCP_TX_POOL_SIZE \<equiv> 8"
abbreviation (input) ESP_HOSTED_RCP_CHUNK_MAX :: nat where "ESP_HOSTED_RCP_CHUNK_MAX \<equiv> 1400"

text \<open>\<open>interface_buffer_handle_t\<close>: the payload is its first \<open>payload_len\<close> bytes; \<open>bh_slot\<close>
  is the pool slot that \<open>free_buf_handle\<close> gives back, when there is one.\<close>

record interface_buffer_handle =
  bh_if_type :: u8
  bh_if_num :: u8
  bh_payload :: bytes
  bh_flag :: u8
  bh_raw_tp_seq :: u32
  bh_pkt_type :: u8
  bh_slot :: "nat option"

section \<open>State\<close>

text \<open>The static variables of \<^verbatim>\<open>esp_rcp.c\<close> (a queue is \<open>None\<close> until it is created, a chunk is
  its data, the current chunk carries its read offset), the fatal-restart variables of
  \<^verbatim>\<open>app_main.c\<close>, the middle-priority queue to the host, and what the transport has
  taken from it so far.\<close>

record rcp_bridge =
  s_rx_queue :: "bytes list option"
  s_current_rx :: "(bytes \<times> nat) option"
  s_tx_free_queue :: "nat list option"
  s_preboot_tx_queue :: "interface_buffer_handle list option"
  s_tx_gate_lock :: bool
  s_tx_pool :: bool
  s_bridge_enabled :: bool
  s_host_ready :: bool
  s_host_session_ready :: bool
  s_session_nonce :: u64
  s_rx_notify :: bool
  rx_notified :: nat
  s_rcp_fatal_task :: bool
  s_rcp_fatal_pending :: bool
  s_rcp_fatal_reason :: string
  rcp_datapath :: bool
  to_host_mid :: "interface_buffer_handle list"
  taken_mid :: "interface_buffer_handle list"

text \<open>Answers of FreeRTOS at the \<open>i\<close>-th blocking point: how many frames the transport task
  takes meanwhile, and whether the gate is obtained in time; the capacities of the
  configured queues; whether allocations succeed.\<close>

record rcp_env =
  re_taken :: "nat \<Rightarrow> nat"
  re_gate :: "nat \<Rightarrow> bool"
  re_to_host_size :: nat
  re_rx_queue_size :: nat
  re_malloc :: bool
  re_rx_queue_create :: bool
  re_tx_queue_create :: bool
  re_preboot_create :: bool
  re_mutex_create :: bool
  re_pool_calloc :: bool

section \<open>Fatal restart\<close>

definition esp_hosted_rcp_fatal_restart :: "string \<Rightarrow> rcp_bridge \<Rightarrow> rcp_bridge" where
  "esp_hosted_rcp_fatal_restart reason s =
     (if s_rcp_fatal_task s \<and> \<not> s_rcp_fatal_pending s
      then s\<lparr>s_rcp_fatal_pending := True, s_rcp_fatal_reason := reason, rcp_datapath := False\<rparr>
      else s)"

section \<open>Transmit slots and the transport\<close>

text \<open>A release into a full free queue is the accounting error of the code: it is logged and
  the slot is lost.\<close>

definition esp_hosted_rcp_release_tx_slot :: "nat option \<Rightarrow> rcp_bridge \<Rightarrow> rcp_bridge" where
  "esp_hosted_rcp_release_tx_slot handle s =
     (case (handle, s_tx_free_queue s) of
        (Some slot, Some free) \<Rightarrow>
          if length free < ESP_HOSTED_RCP_TX_POOL_SIZE
          then s\<lparr>s_tx_free_queue := Some (free @ [slot])\<rparr> else s
      | _ \<Rightarrow> s)"

text \<open>The transport task: it takes the first frame, writes it and frees its buffer.\<close>

fun transport_take :: "nat \<Rightarrow> rcp_bridge \<Rightarrow> rcp_bridge" where
  "transport_take 0 s = s"
| "transport_take (Suc n) s =
     (case to_host_mid s of
        [] \<Rightarrow> s
      | b # bs \<Rightarrow> transport_take n (esp_hosted_rcp_release_tx_slot (bh_slot b)
                     (s\<lparr>to_host_mid := bs, taken_mid := taken_mid s @ [b]\<rparr>)))"

text \<open>\<open>send_to_host_timeout(PRIO_Q_MID, ...)\<close> at blocking point \<open>i\<close>.\<close>

definition send_to_host_timeout ::
  "rcp_env \<Rightarrow> nat \<Rightarrow> interface_buffer_handle \<Rightarrow> rcp_bridge \<Rightarrow> bool \<times> rcp_bridge" where
  "send_to_host_timeout env i b s =
     (if length (to_host_mid s) < re_to_host_size env
      then (True, s\<lparr>to_host_mid := to_host_mid s @ [b]\<rparr>)
      else let s = transport_take (re_taken env i) s
           in if length (to_host_mid s) < re_to_host_size env
              then (True, s\<lparr>to_host_mid := to_host_mid s @ [b]\<rparr>)
              else (False, s))"

section \<open>Init and deinit\<close>

text \<open>The do-while draws until the nonce is not zero; \<open>None\<close>: the given draws are all zero.\<close>

fun rcp_draw_nonce :: "(u32 \<times> u32) list \<Rightarrow> u64 option" where
  "rcp_draw_nonce [] = None"
| "rcp_draw_nonce ((hi, lo) # ds) =
     (let n = push_bit 32 (ucast hi) OR ucast lo :: u64
      in if n = 0 then rcp_draw_nonce ds else Some n)"

definition esp_hosted_rcp_init ::
  "rcp_env \<Rightarrow> (u32 \<times> u32) list \<Rightarrow> rcp_bridge \<Rightarrow> (int \<times> rcp_bridge) option" where
  "esp_hosted_rcp_init env draws s =
     (if s_rx_queue s = None \<and> \<not> re_rx_queue_create env then Some (ESP_ERR_NO_MEM, s)
      else let s = (if s_rx_queue s = None then s\<lparr>s_rx_queue := Some []\<rparr> else s)
      in if s_tx_free_queue s = None \<and> \<not> re_tx_queue_create env then Some (ESP_ERR_NO_MEM, s)
      else let s = (if s_tx_free_queue s = None then s\<lparr>s_tx_free_queue := Some []\<rparr> else s)
      in if s_preboot_tx_queue s = None \<and> \<not> re_preboot_create env then Some (ESP_ERR_NO_MEM, s)
      else let s = (if s_preboot_tx_queue s = None then s\<lparr>s_preboot_tx_queue := Some []\<rparr> else s)
      in if \<not> s_tx_gate_lock s \<and> \<not> re_mutex_create env then Some (ESP_ERR_NO_MEM, s)
      else let s = s\<lparr>s_tx_gate_lock := True\<rparr>
      in if \<not> s_tx_pool s \<and> \<not> re_pool_calloc env then Some (ESP_ERR_NO_MEM, s)
      else let s = (if s_tx_pool s then s
                    else s\<lparr>s_tx_pool := True,
                           s_tx_free_queue := Some (the (s_tx_free_queue s) @
                             [0..<ESP_HOSTED_RCP_TX_POOL_SIZE])\<rparr>)
      in map_option (\<lambda>nonce. (ESP_OK,
           s\<lparr>s_session_nonce := nonce, s_host_ready := False, s_host_session_ready := False,
             s_bridge_enabled := True\<rparr>)) (rcp_draw_nonce draws))"

definition esp_hosted_rcp_deinit :: "rcp_bridge \<Rightarrow> rcp_bridge" where
  "esp_hosted_rcp_deinit s =
     (let s = s\<lparr>s_bridge_enabled := False, s_host_ready := False, s_host_session_ready := False,
                s_session_nonce := 0\<rparr>;
          s = (case s_preboot_tx_queue s of
                 None \<Rightarrow> s
               | Some pending \<Rightarrow>
                   foldl (\<lambda>s b. esp_hosted_rcp_release_tx_slot (bh_slot b) s)
                     (s\<lparr>s_preboot_tx_queue := Some []\<rparr>) pending);
          s = s\<lparr>s_current_rx := None\<rparr>;
          s = (if s_rx_queue s = None then s else s\<lparr>s_rx_queue := Some []\<rparr>)
      in s\<lparr>s_rx_notify := False\<rparr>)"

section \<open>Host to radio\<close>

definition esp_hosted_rcp_rx_from_host :: "rcp_env \<Rightarrow> bytes \<Rightarrow> rcp_bridge \<Rightarrow> int \<times> rcp_bridge" where
  "esp_hosted_rcp_rx_from_host env data s =
     (if data = [] then (ESP_ERR_INVALID_ARG, s)
      else if \<not> s_bridge_enabled s \<or> s_rx_queue s = None \<or> \<not> s_host_session_ready s then (ESP_OK, s)
      else if \<not> re_malloc env then (ESP_ERR_NO_MEM, s)
      else let q = the (s_rx_queue s)
           in if re_rx_queue_size env \<le> length q then (ESP_ERR_NO_MEM, s)
              else let s = s\<lparr>s_rx_queue := Some (q @ [data])\<rparr>
                   in (ESP_OK, if s_rx_notify s then s\<lparr>rx_notified := rx_notified s + 1\<rparr> else s))"

text \<open>The copy loop of \<open>esp_hosted_rcp_read\<close> on the current chunk and the queue; \<open>need\<close> is
  the space left in the buffer.\<close>

function rcp_read_loop ::
  "nat \<Rightarrow> (bytes \<times> nat) option \<Rightarrow> bytes list \<Rightarrow> bytes \<times> (bytes \<times> nat) option \<times> bytes list" where
  "rcp_read_loop need cur q =
     (if need = 0 then ([], cur, q)
      else case cur of
             None \<Rightarrow> (case q of [] \<Rightarrow> ([], None, []) | c # q \<Rightarrow> rcp_read_loop need (Some (c, 0)) q)
           | Some (d, off) \<Rightarrow>
               let n = min need (length d - off);
                   got = take n (drop off d)
               in if off + n = length d
                  then let (rest, cur, q) = rcp_read_loop (need - n) None q in (got @ rest, cur, q)
                  else (got, Some (d, off + n), q))"
  by pat_completeness auto
termination
  by (relation "measure (\<lambda>(n, c, q). 2 * length q + (if c = None then 0 else 1))") auto

declare rcp_read_loop.simps [simp del]

definition esp_hosted_rcp_read :: "nat \<Rightarrow> rcp_bridge \<Rightarrow> bytes \<times> rcp_bridge" where
  "esp_hosted_rcp_read buf_size s =
     (case s_rx_queue s of
        None \<Rightarrow> ([], s)
      | Some q \<Rightarrow>
          if buf_size = 0 then ([], s)
          else let (got, cur, q) = rcp_read_loop buf_size (s_current_rx s) q
               in (got, s\<lparr>s_current_rx := cur, s_rx_queue := Some q\<rparr>))"

definition esp_hosted_rcp_set_rx_notify :: "bool \<Rightarrow> rcp_bridge \<Rightarrow> rcp_bridge" where
  "esp_hosted_rcp_set_rx_notify cb s = s\<lparr>s_rx_notify := cb\<rparr>"

definition esp_hosted_rcp_fail_closed_required :: "rcp_bridge \<Rightarrow> bool" where
  "esp_hosted_rcp_fail_closed_required s \<longleftrightarrow> s_bridge_enabled s \<and> s_host_session_ready s"

section \<open>Radio to host\<close>

definition rcp_handle :: "u8 \<Rightarrow> nat \<Rightarrow> bytes \<Rightarrow> interface_buffer_handle" where
  "rcp_handle packet_type slot chunk =
     \<lparr> bh_if_type = ucast ESP_RCP_IF, bh_if_num = 0, bh_payload = chunk, bh_flag = 0,
       bh_raw_tp_seq = 0, bh_pkt_type = packet_type, bh_slot = Some slot \<rparr>"

text \<open>The loop over chunks; \<open>i\<close> counts the blocking points passed.\<close>

function rcp_send_loop ::
  "rcp_env \<Rightarrow> nat \<Rightarrow> u8 \<Rightarrow> bytes \<Rightarrow> rcp_bridge \<Rightarrow> int \<times> rcp_bridge" where
  "rcp_send_loop env i packet_type data s =
     (if data = [] then (ESP_OK, s)
      else
        let chunk = take ESP_HOSTED_RCP_CHUNK_MAX data;
            s = (if s_tx_free_queue s = Some [] then transport_take (re_taken env i) s else s)
        in case s_tx_free_queue s of
             Some (slot # free) \<Rightarrow>
               (let s = s\<lparr>s_tx_free_queue := Some free\<rparr>;
                    b = rcp_handle packet_type slot chunk
                in if \<not> re_gate env i
                   then (ESP_ERR_TIMEOUT,
                         esp_hosted_rcp_fatal_restart ''RCP TX gate timeout''
                           (esp_hosted_rcp_release_tx_slot (Some slot) s))
                   else if s_host_ready s
                   then (case send_to_host_timeout env (i + 1) b s of
                           (True, s) \<Rightarrow> rcp_send_loop env (i + 2) packet_type
                                          (drop ESP_HOSTED_RCP_CHUNK_MAX data) s
                         | (False, s) \<Rightarrow>
                             (ESP_ERR_TIMEOUT,
                              esp_hosted_rcp_fatal_restart ''RCP Hosted TX queue timeout''
                                (esp_hosted_rcp_release_tx_slot (Some slot) s)))
                   else (let pre = the (s_preboot_tx_queue s)
                         in if length pre < ESP_HOSTED_RCP_TX_POOL_SIZE
                            then rcp_send_loop env (i + 2) packet_type
                                   (drop ESP_HOSTED_RCP_CHUNK_MAX data)
                                   (s\<lparr>s_preboot_tx_queue := Some (pre @ [b])\<rparr>)
                            else (ESP_ERR_TIMEOUT,
                                  esp_hosted_rcp_fatal_restart ''RCP preboot TX queue timeout''
                                    (esp_hosted_rcp_release_tx_slot (Some slot) s))))
           | _ \<Rightarrow> (ESP_ERR_TIMEOUT, esp_hosted_rcp_fatal_restart ''RCP TX pool exhausted'' s))"
  by pat_completeness auto
termination
  by (relation "measure (\<lambda>(env, i, t, data, s). length data)") auto

declare rcp_send_loop.simps [simp del]

definition esp_hosted_rcp_send_packet_to_host ::
  "rcp_env \<Rightarrow> nat \<Rightarrow> bytes \<Rightarrow> u8 \<Rightarrow> rcp_bridge \<Rightarrow> int \<times> rcp_bridge" where
  "esp_hosted_rcp_send_packet_to_host env i data packet_type s =
     (if \<not> s_bridge_enabled s \<or> s_tx_free_queue s = None \<or> \<not> s_tx_pool s
      then (ESP_ERR_INVALID_STATE, s)
      else rcp_send_loop env i packet_type data s)"

definition esp_hosted_rcp_send_to_host :: "rcp_env \<Rightarrow> bytes \<Rightarrow> rcp_bridge \<Rightarrow> int \<times> rcp_bridge" where
  "esp_hosted_rcp_send_to_host env data s =
     esp_hosted_rcp_send_packet_to_host env 0 data PACKET_TYPE_DATA s"

text \<open>The drain loop of \<open>esp_hosted_rcp_host_ready\<close>; it runs with the gate held.\<close>

fun rcp_publish_preboot ::
  "rcp_env \<Rightarrow> nat \<Rightarrow> interface_buffer_handle list \<Rightarrow> rcp_bridge \<Rightarrow> int \<times> rcp_bridge" where
  "rcp_publish_preboot env i [] s =
     (ESP_OK, s\<lparr>s_preboot_tx_queue := Some [], s_host_ready := True\<rparr>)"
| "rcp_publish_preboot env i (b # bs) s =
     (case send_to_host_timeout env i b (s\<lparr>s_preboot_tx_queue := Some bs\<rparr>) of
        (True, s) \<Rightarrow> rcp_publish_preboot env (i + 1) bs s
      | (False, s) \<Rightarrow>
          (ESP_ERR_TIMEOUT,
           esp_hosted_rcp_fatal_restart ''buffered startup Spinel publication failed''
             (esp_hosted_rcp_release_tx_slot (bh_slot b) s)))"

definition esp_hosted_rcp_host_ready :: "rcp_env \<Rightarrow> nat \<Rightarrow> rcp_bridge \<Rightarrow> int \<times> rcp_bridge" where
  "esp_hosted_rcp_host_ready env i s =
     (if \<not> s_bridge_enabled s \<or> s_preboot_tx_queue s = None \<or> \<not> s_tx_gate_lock s
      then (ESP_ERR_INVALID_STATE, s)
      else if \<not> re_gate env i then (ESP_ERR_TIMEOUT, s)
      else rcp_publish_preboot env (i + 1) (the (s_preboot_tx_queue s)) s)"

text \<open>Blocking points: 0 is the gate, 1 to 9 belong to \<open>host_ready\<close>, the acknowledgement
  follows.\<close>

definition esp_hosted_rcp_session_start_from_host ::
  "rcp_env \<Rightarrow> u8 \<Rightarrow> u64 \<Rightarrow> rcp_bridge \<Rightarrow> int \<times> rcp_bridge" where
  "esp_hosted_rcp_session_start_from_host env version nonce s =
     (if version \<noteq> ESP_RCP_SESSION_VERSION \<or> nonce = 0 \<or> nonce \<noteq> s_session_nonce s then (ESP_OK, s)
      else if \<not> s_bridge_enabled s \<or> \<not> s_tx_gate_lock s then (ESP_OK, s)
      else if \<not> re_gate env 0 then (ESP_ERR_TIMEOUT, s)
      else
        let (ret, s) = esp_hosted_rcp_host_ready env 1 (s\<lparr>s_host_session_ready := True\<rparr>)
        in if ret \<noteq> ESP_OK then (ret, s)
           else esp_hosted_rcp_send_packet_to_host env 10 (session_marker ESP_RCP_SESSION_VERSION nonce)
                  PACKET_TYPE_RCP_SESSION s)"

text \<open>The RCP branch of \<open>process_rx_pkt\<close> (\<^verbatim>\<open>app_main.c\<close>); \<open>False\<close>: it jumps to \<open>done\<close> and the rest of
  the buffer is not processed.\<close>

definition process_rx_rcp :: "rcp_env \<Rightarrow> u8 \<Rightarrow> bytes \<Rightarrow> rcp_bridge \<Rightarrow> bool \<times> rcp_bridge" where
  "process_rx_rcp env packet_type payload s =
     (if packet_type = PACKET_TYPE_RCP_SESSION
      then if length payload = 12
           then let (ret, s) = esp_hosted_rcp_session_start_from_host env (payload ! 0)
                                 (le_word (drop 4 payload)) s
                in if ret \<noteq> ESP_OK
                   then (False, esp_hosted_rcp_fatal_restart ''H2E RCP session marker processing failed'' s)
                   else (True, s)
           else (True, s)
      else if packet_type \<noteq> PACKET_TYPE_DATA
      then (False, esp_hosted_rcp_fatal_restart ''invalid H2E RCP packet type'' s)
      else let (ret, s) = esp_hosted_rcp_rx_from_host env payload s
           in if ret \<noteq> ESP_OK
              then (False, esp_hosted_rcp_fatal_restart ''H2E RCP queue overflow/unavailable'' s)
              else (True, s))"

section \<open>The host-to-radio direction is a byte FIFO\<close>

definition rcp_pending :: "(bytes \<times> nat) option \<Rightarrow> bytes list \<Rightarrow> bytes" where
  "rcp_pending cur q = (case cur of None \<Rightarrow> [] | Some (d, off) \<Rightarrow> drop off d) @ concat q"

definition cur_ok :: "(bytes \<times> nat) option \<Rightarrow> bool" where
  "cur_ok cur \<longleftrightarrow> (case cur of None \<Rightarrow> True | Some (d, off) \<Rightarrow> off \<le> length d)"

lemma rcp_pending_simps [simp]:
  "rcp_pending None q = concat q"
  "rcp_pending (Some (d, off)) q = drop off d @ concat q"
  "cur_ok None" "cur_ok (Some (d, off)) \<longleftrightarrow> off \<le> length d"
  by (simp_all add: rcp_pending_def cur_ok_def)

lemma rcp_read_loop_spec:
  "rcp_read_loop need cur q = (got, cur', q') \<Longrightarrow> cur_ok cur \<Longrightarrow>
   got = take need (rcp_pending cur q) \<and> rcp_pending cur' q' = drop need (rcp_pending cur q) \<and> cur_ok cur'"
proof (induction need cur q arbitrary: got cur' q' rule: rcp_read_loop.induct)
  case (1 need cur q)
  consider (zero) "need = 0" | (idle) "need \<noteq> 0" "cur = None" "q = []"
    | (more) c r where "need \<noteq> 0" "cur = None" "q = c # r"
    | (chunk) d off where "need \<noteq> 0" "cur = Some (d, off)"
    by (metis list.exhaust not_None_eq prod.exhaust)
  then show ?case
  proof cases
    case more
    then show ?thesis using 1 by (simp add: rcp_read_loop.simps [of need None])
  next
    case chunk
    define n where "n = min need (length d - off)"
    show ?thesis
    proof (cases "off + n = length d")
      case True
      obtain r c u where r: "rcp_read_loop (need - n) None q = (r, c, u)" by (metis prod_cases3)
      with True chunk 1 have "r = take (need - n) (concat q)" "rcp_pending c u = drop (need - n) (concat q)"
        "cur_ok c" by (auto simp: n_def)
      moreover have "n = length d - off" using True chunk "1.prems" by simp
      ultimately show ?thesis using "1.prems" True chunk r n_def
        by (auto simp: rcp_read_loop.simps [of need "Some (d, off)"] Let_def)
    next
      case False
      then have "n = need" "need < length d - off" using "1.prems"(2) chunk by (auto simp: n_def)
      with "1.prems" False chunk show ?thesis
        by (auto simp: rcp_read_loop.simps [of need "Some (d, off)"] add.commute)
    qed
  qed (use "1.prems" in \<open>auto simp: rcp_read_loop.simps\<close>)
qed

definition h2e_bytes :: "rcp_bridge \<Rightarrow> bytes" where
  "h2e_bytes s = rcp_pending (s_current_rx s) (case s_rx_queue s of None \<Rightarrow> [] | Some q \<Rightarrow> q)"

text \<open>An accepted chunk: the call returned \<open>ESP_OK\<close> inside an established session.\<close>

definition rcp_accept :: "rcp_env \<Rightarrow> bytes \<Rightarrow> rcp_bridge \<Rightarrow> bool \<times> rcp_bridge" where
  "rcp_accept env data s =
     (let (ret, s') = esp_hosted_rcp_rx_from_host env data s
      in (ret = ESP_OK \<and> esp_hosted_rcp_fail_closed_required s \<and> s_rx_queue s \<noteq> None, s'))"

interpretation rcp_h2e: byte_pipe "\<lambda>s. cur_ok (s_current_rx s) \<and> (s_rx_queue s = None \<longrightarrow> s_current_rx s = None)"
  h2e_bytes "rcp_accept env" esp_hosted_rcp_read for env
proof (unfold_locales, goal_cases)
  case (1 s d b s')
  then show ?case
    by (auto simp: rcp_accept_def esp_hosted_rcp_rx_from_host_def Let_def split: if_splits)
next
  case (2 s d b s')
  then show ?case
    by (cases "s_current_rx s")
      (auto simp: rcp_accept_def esp_hosted_rcp_rx_from_host_def Let_def h2e_bytes_def
        esp_hosted_rcp_fail_closed_required_def split: if_splits)
next
  case (3 s n g s')
  then show ?case
    by (auto simp: esp_hosted_rcp_read_def dest: rcp_read_loop_spec split: option.splits if_splits prod.splits)
next
  case (4 s n g s')
  then show ?case
    by (auto simp: esp_hosted_rcp_read_def h2e_bytes_def dest!: rcp_read_loop_spec
        split: option.splits if_splits prod.splits)
qed

section \<open>Slots are conserved and chunks keep their order\<close>

definition slots_of :: "interface_buffer_handle list \<Rightarrow> nat multiset" where
  "slots_of bs = mset (List.map_filter bh_slot bs)"

lemma slots_of_simps [simp]:
  "slots_of [] = {#}"
  "slots_of (b # bs) = (case bh_slot b of None \<Rightarrow> {#} | Some x \<Rightarrow> {#x#}) + slots_of bs"
  "slots_of (as @ bs) = slots_of as + slots_of bs"
  by (simp_all add: slots_of_def map_filter_def split: option.splits)

definition free_slots :: "rcp_bridge \<Rightarrow> nat list" where
  "free_slots s = (case s_tx_free_queue s of None \<Rightarrow> [] | Some free \<Rightarrow> free)"

definition preboot :: "rcp_bridge \<Rightarrow> interface_buffer_handle list" where
  "preboot s = (case s_preboot_tx_queue s of None \<Rightarrow> [] | Some q \<Rightarrow> q)"

text \<open>All slots are accounted for: free, in the startup queue, in the queue to the host, or in
  \<open>X\<close>, the slots held by the running function.\<close>

definition pool_ok :: "nat multiset \<Rightarrow> rcp_bridge \<Rightarrow> bool" where
  "pool_ok X s \<longleftrightarrow> (s_tx_pool s \<longrightarrow> s_tx_free_queue s \<noteq> None) \<and>
     mset (free_slots s) + slots_of (preboot s) + slots_of (to_host_mid s) + X =
       (if s_tx_pool s then mset [0..<8] else {#})"

text \<open>What was produced for the host, in order.\<close>

definition e2h_stream :: "rcp_bridge \<Rightarrow> interface_buffer_handle list" where
  "e2h_stream s = taken_mid s @ to_host_mid s @ preboot s"

lemma pool_ok_size:
  assumes "pool_ok X s" and "s_tx_pool s"
  shows "length (free_slots s) + size (slots_of (preboot s)) + size (slots_of (to_host_mid s)) + size X = 8"
proof -
  from assms have "mset (free_slots s) + slots_of (preboot s) + slots_of (to_host_mid s) + X = mset [0..<8]"
    by (simp add: pool_ok_def)
  then have "size (mset (free_slots s) + slots_of (preboot s) + slots_of (to_host_mid s) + X) = size (mset [0..<8])"
    by (simp only:)
  then show ?thesis by simp
qed

lemma pool_ok_cong:
  "s_tx_free_queue s = s_tx_free_queue t \<Longrightarrow> s_preboot_tx_queue s = s_preboot_tx_queue t \<Longrightarrow>
   to_host_mid s = to_host_mid t \<Longrightarrow> s_tx_pool s = s_tx_pool t \<Longrightarrow> pool_ok X s = pool_ok X t"
  by (simp add: pool_ok_def free_slots_def preboot_def)

lemma fatal_fields [simp]:
  "s_tx_free_queue (esp_hosted_rcp_fatal_restart r s) = s_tx_free_queue s"
  "s_preboot_tx_queue (esp_hosted_rcp_fatal_restart r s) = s_preboot_tx_queue s"
  "to_host_mid (esp_hosted_rcp_fatal_restart r s) = to_host_mid s"
  "taken_mid (esp_hosted_rcp_fatal_restart r s) = taken_mid s"
  "s_tx_pool (esp_hosted_rcp_fatal_restart r s) = s_tx_pool s"
  "s_bridge_enabled (esp_hosted_rcp_fatal_restart r s) = s_bridge_enabled s"
  "s_host_ready (esp_hosted_rcp_fatal_restart r s) = s_host_ready s"
  "s_host_session_ready (esp_hosted_rcp_fatal_restart r s) = s_host_session_ready s"
  "s_session_nonce (esp_hosted_rcp_fatal_restart r s) = s_session_nonce s"
  "s_rx_queue (esp_hosted_rcp_fatal_restart r s) = s_rx_queue s"
  "s_current_rx (esp_hosted_rcp_fatal_restart r s) = s_current_rx s"
  "s_tx_gate_lock (esp_hosted_rcp_fatal_restart r s) = s_tx_gate_lock s"
  "s_rcp_fatal_task (esp_hosted_rcp_fatal_restart r s) = s_rcp_fatal_task s"
  "s_rcp_fatal_pending (esp_hosted_rcp_fatal_restart r s) \<longleftrightarrow> s_rcp_fatal_pending s \<or> s_rcp_fatal_task s"
  by (auto simp: esp_hosted_rcp_fatal_restart_def)

lemma release_fields [simp]:
  "s_preboot_tx_queue (esp_hosted_rcp_release_tx_slot h s) = s_preboot_tx_queue s"
  "to_host_mid (esp_hosted_rcp_release_tx_slot h s) = to_host_mid s"
  "taken_mid (esp_hosted_rcp_release_tx_slot h s) = taken_mid s"
  "s_tx_pool (esp_hosted_rcp_release_tx_slot h s) = s_tx_pool s"
  "s_bridge_enabled (esp_hosted_rcp_release_tx_slot h s) = s_bridge_enabled s"
  "s_host_ready (esp_hosted_rcp_release_tx_slot h s) = s_host_ready s"
  "s_host_session_ready (esp_hosted_rcp_release_tx_slot h s) = s_host_session_ready s"
  "s_session_nonce (esp_hosted_rcp_release_tx_slot h s) = s_session_nonce s"
  "s_rx_queue (esp_hosted_rcp_release_tx_slot h s) = s_rx_queue s"
  "s_current_rx (esp_hosted_rcp_release_tx_slot h s) = s_current_rx s"
  "s_tx_gate_lock (esp_hosted_rcp_release_tx_slot h s) = s_tx_gate_lock s"
  "s_rcp_fatal_task (esp_hosted_rcp_release_tx_slot h s) = s_rcp_fatal_task s"
  "(s_tx_free_queue (esp_hosted_rcp_release_tx_slot h s) = None) = (s_tx_free_queue s = None)"
  by (simp_all add: esp_hosted_rcp_release_tx_slot_def split: option.splits)

lemma release_pool:
  assumes "pool_ok (add_mset x X) s"
  shows "pool_ok X (esp_hosted_rcp_release_tx_slot (Some x) s)"
proof -
  from assms have pool: "s_tx_pool s" by (auto simp: pool_ok_def split: if_splits)
  with assms obtain free where f: "s_tx_free_queue s = Some free" by (auto simp: pool_ok_def)
  from pool_ok_size [OF assms pool] f have "length free < 8" by (simp add: free_slots_def)
  with assms f pool show ?thesis
    by (simp add: pool_ok_def free_slots_def preboot_def esp_hosted_rcp_release_tx_slot_def)
qed

lemma release_None [simp]: "esp_hosted_rcp_release_tx_slot None s = s"
  by (simp add: esp_hosted_rcp_release_tx_slot_def)

text \<open>Fields the transport and the queue to the host leave alone.\<close>

definition bridge_core :: "rcp_bridge \<Rightarrow> _" where
  "bridge_core s = (s_tx_pool s, s_bridge_enabled s, s_host_ready s, s_host_session_ready s,
     s_session_nonce s, s_rx_queue s, s_current_rx s, s_tx_gate_lock s, s_rcp_fatal_task s)"

definition bridge_rest :: "rcp_bridge \<Rightarrow> _" where
  "bridge_rest s = (s_preboot_tx_queue s, bridge_core s)"

lemma bridge_coreD:
  assumes "bridge_core s = bridge_core t"
  shows "s_tx_pool s = s_tx_pool t" "s_bridge_enabled s = s_bridge_enabled t"
    "s_host_ready s = s_host_ready t" "s_host_session_ready s = s_host_session_ready t"
    "s_session_nonce s = s_session_nonce t" "s_rx_queue s = s_rx_queue t"
    "s_current_rx s = s_current_rx t" "s_tx_gate_lock s = s_tx_gate_lock t"
    "s_rcp_fatal_task s = s_rcp_fatal_task t"
  using assms by (simp_all add: bridge_core_def)

lemma bridge_restD:
  assumes "bridge_rest s = bridge_rest t"
  shows "s_preboot_tx_queue s = s_preboot_tx_queue t" "preboot s = preboot t"
    "bridge_core s = bridge_core t"
  using assms by (simp_all add: bridge_rest_def preboot_def)

lemma transport_take_spec:
  "bridge_rest (transport_take n s) = bridge_rest s \<and>
   e2h_stream (transport_take n s) = e2h_stream s \<and>
   (pool_ok X s \<longrightarrow> pool_ok X (transport_take n s)) \<and>
   (s_tx_free_queue (transport_take n s) = None) = (s_tx_free_queue s = None)"
proof (induction n s rule: transport_take.induct)
  case (2 n s)
  show ?case
  proof (cases "to_host_mid s")
    case (Cons b bs)
    let ?s = "s\<lparr>to_host_mid := bs, taken_mid := taken_mid s @ [b]\<rparr>"
    let ?t = "esp_hosted_rcp_release_tx_slot (bh_slot b) ?s"
    have "pool_ok X ?t" if "pool_ok X s"
    proof (cases "bh_slot b")
      case None
      with that Cons show ?thesis by (simp add: pool_ok_def free_slots_def preboot_def)
    next
      case (Some x)
      with that Cons have "pool_ok (add_mset x X) ?s"
        by (simp add: pool_ok_def free_slots_def preboot_def)
      with Some show ?thesis by (simp add: release_pool)
    qed
    moreover have "bridge_rest ?t = bridge_rest s" by (simp add: bridge_rest_def bridge_core_def)
    moreover have "e2h_stream ?t = e2h_stream s" using Cons by (simp add: e2h_stream_def preboot_def)
    ultimately show ?thesis using 2 Cons by simp
  qed simp
qed simp

lemma push_pool:
  "pool_ok (case bh_slot b of None \<Rightarrow> X | Some x \<Rightarrow> add_mset x X) t \<Longrightarrow>
   pool_ok X (t\<lparr>to_host_mid := to_host_mid t @ [b]\<rparr>)"
  "pool_ok (case bh_slot b of None \<Rightarrow> X | Some x \<Rightarrow> add_mset x X) t \<Longrightarrow> s_preboot_tx_queue t = Some q \<Longrightarrow>
   pool_ok X (t\<lparr>s_preboot_tx_queue := Some (q @ [b])\<rparr>)"
  by (cases "bh_slot b"; simp add: pool_ok_def free_slots_def preboot_def)+

lemma send_to_host_spec:
  assumes "send_to_host_timeout env i b s = (ok, s')"
  shows "bridge_rest s' = bridge_rest s"
    and "preboot s = [] \<Longrightarrow> e2h_stream s' = e2h_stream s @ (if ok then [b] else [])"
    and "taken_mid s' @ to_host_mid s' = taken_mid s @ to_host_mid s @ (if ok then [b] else [])"
    and "pool_ok (case bh_slot b of None \<Rightarrow> X | Some x \<Rightarrow> add_mset x X) s \<Longrightarrow>
      pool_ok (if ok then X else case bh_slot b of None \<Rightarrow> X | Some x \<Rightarrow> add_mset x X) s'"
    and "(s_tx_free_queue s' = None) = (s_tx_free_queue s = None)"
proof -
  obtain t where t: "t = s \<or> t = transport_take (re_taken env i) s"
    "s' = (if ok then t\<lparr>to_host_mid := to_host_mid t @ [b]\<rparr> else t)"
    using assms by (auto simp: send_to_host_timeout_def Let_def split: if_splits)
  note sp = transport_take_spec [of "re_taken env i" s]
  have r: "bridge_rest t = bridge_rest s" and e: "e2h_stream t = e2h_stream s"
    and p: "pool_ok Y s \<Longrightarrow> pool_ok Y t" and n: "(s_tx_free_queue t = None) = (s_tx_free_queue s = None)" for Y
    using t(1) sp by auto
  have pb: "preboot t = preboot s" using r by (rule bridge_restD)
  have m: "taken_mid t @ to_host_mid t = taken_mid s @ to_host_mid s"
    using e pb by (simp add: e2h_stream_def flip: append_assoc)
  show "bridge_rest s' = bridge_rest s" using r t(2) by (simp add: bridge_rest_def bridge_core_def)
  show *: "taken_mid s' @ to_host_mid s' = taken_mid s @ to_host_mid s @ (if ok then [b] else [])"
    using m t(2) by (simp flip: append_assoc)
  have "preboot s' = preboot s" using pb t(2) by (simp add: preboot_def)
  then show "preboot s = [] \<Longrightarrow> e2h_stream s' = e2h_stream s @ (if ok then [b] else [])"
    using * by (simp add: e2h_stream_def)
  show "pool_ok (case bh_slot b of None \<Rightarrow> X | Some x \<Rightarrow> add_mset x X) s \<Longrightarrow>
      pool_ok (if ok then X else case bh_slot b of None \<Rightarrow> X | Some x \<Rightarrow> add_mset x X) s'"
    using p t(2) push_pool(1) by (cases ok) simp_all
  show "(s_tx_free_queue s' = None) = (s_tx_free_queue s = None)" using n t(2) by simp
qed

definition rcp_chunks :: "u8 \<Rightarrow> interface_buffer_handle list \<Rightarrow> bool" where
  "rcp_chunks t cs \<longleftrightarrow> (\<forall>c \<in> set cs. bh_if_type c = 5 \<and> bh_pkt_type c = t \<and>
     bh_payload c \<noteq> [] \<and> length (bh_payload c) \<le> 1400) \<and>
     (\<forall>c \<in> set (butlast cs). length (bh_payload c) = 1400)"

lemma rcp_chunks_single:
  assumes "rcp_chunks t cs" "concat (map bh_payload cs) = d" "d \<noteq> []" "length d < 1400"
  obtains c where "cs = [c]" "bh_payload c = d" "bh_pkt_type c = t"
proof (cases cs)
  case (Cons c ds)
  have "ds = []"
  proof (rule ccontr)
    assume "ds \<noteq> []"
    with Cons assms(1) have "length (bh_payload c) = 1400" by (simp add: rcp_chunks_def)
    moreover from Cons assms(2) have "length (bh_payload c) \<le> length d" by auto
    ultimately show False using assms(4) by simp
  qed
  with Cons assms that show ?thesis by (simp add: rcp_chunks_def)
qed (use assms in simp)

text \<open>Preconditions of a send that the entry guards and the invariant establish.\<close>

definition send_ready :: "rcp_bridge \<Rightarrow> bool" where
  "send_ready s \<longleftrightarrow> pool_ok {#} s \<and> s_tx_pool s \<and> s_preboot_tx_queue s \<noteq> None \<and>
     (s_host_ready s \<longrightarrow> preboot s = []) \<and> (\<forall>b \<in> set (preboot s). bh_slot b \<noteq> None)"

text \<open>Outcome of a send: the chunks \<open>cs\<close> were appended to the stream; a failure leaves a
  prefix of the data and asks for the fatal restart.\<close>

definition send_outcome ::
  "u8 \<Rightarrow> bytes \<Rightarrow> rcp_bridge \<Rightarrow> int \<Rightarrow> rcp_bridge \<Rightarrow> interface_buffer_handle list \<Rightarrow> bool" where
  "send_outcome t data s ret s' cs \<longleftrightarrow>
     send_ready s' \<and> bridge_core s' = bridge_core s \<and> e2h_stream s' = e2h_stream s @ cs \<and>
     rcp_chunks t cs \<and> (\<exists>rest. data = concat (map bh_payload cs) @ rest \<and> (ret = 0 \<longrightarrow> rest = [])) \<and>
     (ret = 0 \<or> ret = 0x107) \<and> (ret \<noteq> 0 \<and> s_rcp_fatal_task s \<longrightarrow> s_rcp_fatal_pending s')"

lemma send_outcome_step:
  assumes "send_ready s1" "bridge_core s1 = bridge_core s"
    "e2h_stream s1 = e2h_stream s @ [rcp_handle t slot (take 1400 data)]" "data \<noteq> []"
    "send_outcome t (drop 1400 data) s1 ret s' cs"
  shows "send_outcome t data s ret s' (rcp_handle t slot (take 1400 data) # cs)"
proof -
  let ?c = "rcp_handle t slot (take 1400 data)"
  from assms(5) obtain rest where rest: "drop 1400 data = concat (map bh_payload cs) @ rest"
    "ret = 0 \<longrightarrow> rest = []" by (auto simp: send_outcome_def)
  have full: "cs \<noteq> [] \<Longrightarrow> length (take 1400 data) = 1400"
  proof -
    assume "cs \<noteq> []"
    moreover from assms(5) have "rcp_chunks t cs" by (simp add: send_outcome_def)
    ultimately have "concat (map bh_payload cs) \<noteq> []" by (cases cs) (simp_all add: rcp_chunks_def)
    with rest(1) have "drop 1400 data \<noteq> []" by simp
    then show "length (take 1400 data) = 1400" by simp
  qed
  have "data = take 1400 data @ drop 1400 data" by simp
  then have "data = concat (map bh_payload (?c # cs)) @ rest"
    unfolding rest(1) by (simp add: rcp_handle_def)
  moreover have "rcp_chunks t (?c # cs)"
  proof -
    from assms(5) have "rcp_chunks t cs" by (simp add: send_outcome_def)
    with assms(4) full show ?thesis by (auto simp: rcp_chunks_def rcp_handle_def)
  qed
  ultimately show ?thesis
    using assms rest(2) bridge_coreD(9) [OF assms(2)] unfolding send_outcome_def by auto
qed

lemma send_outcome_fail:
  assumes "send_ready s1" "bridge_core s1 = bridge_core s" "e2h_stream s1 = e2h_stream s"
  shows "send_outcome t data s 0x107 (esp_hosted_rcp_fatal_restart r s1) []"
  using assms bridge_coreD(9) [OF assms(2)]
  by (auto simp: send_outcome_def rcp_chunks_def send_ready_def e2h_stream_def preboot_def
      bridge_core_def pool_ok_def free_slots_def)

lemma send_ready_release:
  assumes "pool_ok {#x#} s" "s_preboot_tx_queue s \<noteq> None" "s_host_ready s \<longrightarrow> preboot s = []"
    "\<forall>b \<in> set (preboot s). bh_slot b \<noteq> None"
  shows "send_ready (esp_hosted_rcp_release_tx_slot (Some x) s)"
    "bridge_core (esp_hosted_rcp_release_tx_slot (Some x) s) = bridge_core s"
    "e2h_stream (esp_hosted_rcp_release_tx_slot (Some x) s) = e2h_stream s"
proof -
  have "s_tx_pool s" using assms(1) by (auto simp: pool_ok_def split: if_splits)
  with assms release_pool [of x "{#}" s] show "send_ready (esp_hosted_rcp_release_tx_slot (Some x) s)"
    by (simp add: send_ready_def preboot_def)
qed (simp_all add: bridge_core_def e2h_stream_def preboot_def)

text \<open>Taking a slot off the free queue, waiting for one when it is empty.\<close>

lemma take_slot:
  assumes "send_ready s" "t = (if s_tx_free_queue s = Some [] then transport_take n s else s)"
    "s_tx_free_queue t = Some (slot # free)"
  shows "pool_ok {#slot#} (t\<lparr>s_tx_free_queue := Some free\<rparr>)"
    "bridge_rest (t\<lparr>s_tx_free_queue := Some free\<rparr>) = bridge_rest s"
    "e2h_stream (t\<lparr>s_tx_free_queue := Some free\<rparr>) = e2h_stream s"
proof -
  have t: "pool_ok {#} t" "bridge_rest t = bridge_rest s" "e2h_stream t = e2h_stream s"
    using assms(1,2) transport_take_spec [of n s "{#}"] by (auto simp: send_ready_def)
  with assms(3) show "pool_ok {#slot#} (t\<lparr>s_tx_free_queue := Some free\<rparr>)"
    by (simp add: pool_ok_def free_slots_def preboot_def)
  from t show "bridge_rest (t\<lparr>s_tx_free_queue := Some free\<rparr>) = bridge_rest s"
    "e2h_stream (t\<lparr>s_tx_free_queue := Some free\<rparr>) = e2h_stream s"
    by (simp_all add: bridge_rest_def bridge_core_def e2h_stream_def preboot_def)
qed

lemma rcp_handle_fields [simp]:
  "bh_slot (rcp_handle t slot c) = Some slot" "bh_payload (rcp_handle t slot c) = c"
  by (simp_all add: rcp_handle_def)

lemma push_host:
  assumes "pool_ok {#slot#} s1" "bridge_rest s1 = bridge_rest s" "e2h_stream s1 = e2h_stream s"
    "send_ready s" "s_host_ready s" "send_to_host_timeout env i (rcp_handle t slot c) s1 = (ok, s2)"
  shows "ok \<Longrightarrow> send_ready s2" "bridge_core s2 = bridge_core s"
    "e2h_stream s2 = e2h_stream s @ (if ok then [rcp_handle t slot c] else [])"
    "\<not> ok \<Longrightarrow> pool_ok {#slot#} s2" "s_preboot_tx_queue s2 = s_preboot_tx_queue s"
proof -
  note sp = send_to_host_spec [OF assms(6)] and r = bridge_restD [OF assms(2)]
  note r2 = bridge_restD [OF sp(1)]
  show core: "bridge_core s2 = bridge_core s" and pq: "s_preboot_tx_queue s2 = s_preboot_tx_queue s"
    using r r2 by simp_all
  have pre: "preboot s1 = []" "preboot s2 = []" using r r2 assms(4,5) by (simp_all add: send_ready_def)
  show "e2h_stream s2 = e2h_stream s @ (if ok then [rcp_handle t slot c] else [])"
    using sp(2) [OF pre(1)] assms(3) by simp
  have pool: "pool_ok (if ok then {#} else {#slot#}) s2"
    using sp(4) [of "{#}"] assms(1) by (cases ok) simp_all
  then show "\<not> ok \<Longrightarrow> pool_ok {#slot#} s2" by simp
  show "ok \<Longrightarrow> send_ready s2"
    using pool pre(2) pq bridge_coreD(1) [OF core] assms(4) by (simp add: send_ready_def)
qed

text \<open>The startup queue has room whenever a slot is in hand: it is as long as the pool.\<close>

lemma preboot_room:
  assumes "pool_ok {#slot#} s" "\<forall>b \<in> set (preboot s). bh_slot b \<noteq> None"
  shows "length (preboot s) < 8"
proof -
  have "s_tx_pool s" using assms(1) by (auto simp: pool_ok_def split: if_splits)
  from pool_ok_size [OF assms(1) this] have "size (slots_of (preboot s)) < 8" by simp
  moreover have "size (slots_of bs) = length bs" if "\<forall>b \<in> set bs. bh_slot b \<noteq> None" for bs
    using that by (induction bs) auto
  ultimately show ?thesis using assms(2) by metis
qed

lemma push_preboot:
  assumes "pool_ok {#slot#} s1" "bridge_rest s1 = bridge_rest s" "e2h_stream s1 = e2h_stream s"
    "send_ready s" "\<not> s_host_ready s"
    and s2: "s2 = s1\<lparr>s_preboot_tx_queue := Some (the (s_preboot_tx_queue s1) @ [rcp_handle t slot c])\<rparr>"
  shows "send_ready s2" "bridge_core s2 = bridge_core s"
    "e2h_stream s2 = e2h_stream s @ [rcp_handle t slot c]"
proof -
  note r = bridge_restD [OF assms(2)]
  obtain q where q: "s_preboot_tx_queue s1 = Some q" using r assms(4) by (auto simp: send_ready_def)
  show core: "bridge_core s2 = bridge_core s" using r(3) by (simp add: bridge_core_def s2)
  show "e2h_stream s2 = e2h_stream s @ [rcp_handle t slot c]"
    using assms(3) q by (auto simp: e2h_stream_def preboot_def s2)
  have "pool_ok {#} s2"
    using push_pool(2) [where b = "rcp_handle t slot c" and X = "{#}" and t = s1 and q = q] assms(1) q by (simp add: rcp_handle_def s2)
  then show "send_ready s2"
    using bridge_coreD(1,3) [OF core] assms(4,5) r(1,2) q by (auto simp: send_ready_def s2 preboot_def)
qed

lemma rcp_send_loop_outcome:
  "send_ready s \<Longrightarrow> rcp_send_loop env i t data s = (ret, s') \<Longrightarrow> \<exists>cs. send_outcome t data s ret s' cs"
proof (induction data arbitrary: i s rule: measure_induct_rule [where f = length])
  case (less data)
  show ?case
  proof (cases "data = []")
    case True
    with less.prems show ?thesis
      by (intro exI [of _ "[]"]) (auto simp: rcp_send_loop.simps send_outcome_def rcp_chunks_def)
  next
    case ne: False
    define u where "u = (if s_tx_free_queue s = Some [] then transport_take (re_taken env i) s else s)"
    have IH: "\<exists>cs. send_outcome t data s ret s' cs"
      if "send_ready s1" "bridge_core s1 = bridge_core s"
        "e2h_stream s1 = e2h_stream s @ [rcp_handle t slot (take 1400 data)]"
        "rcp_send_loop env (i + 2) t (drop 1400 data) s1 = (ret, s')" for s1 slot
      using less.IH [OF _ that(1,4)] send_outcome_step [OF that(1-3) ne] ne by fastforce
    show ?thesis
    proof (cases "\<exists>slot free. s_tx_free_queue u = Some (slot # free)")
      case False
      have u: "pool_ok {#} u" "bridge_rest u = bridge_rest s" "e2h_stream u = e2h_stream s"
        using transport_take_spec [of "re_taken env i" s "{#}"] less.prems(1)
        by (auto simp: u_def send_ready_def)
      have "send_ready u"
        using u(1) bridge_restD [OF u(2)] bridge_coreD [OF bridge_restD(3) [OF u(2)]] less.prems(1)
        by (simp add: send_ready_def)
      moreover have "ret = 0x107 \<and> s' = esp_hosted_rcp_fatal_restart ''RCP TX pool exhausted'' u"
        using less.prems(2) ne False unfolding rcp_send_loop.simps [of env i t data s] u_def [symmetric]
        by (auto simp: Let_def split: option.splits list.splits)
      ultimately show ?thesis
        using send_outcome_fail [of u s t data] u bridge_restD(3) [OF u(2)] by blast
    next
      case True
      then obtain slot free where sl: "s_tx_free_queue u = Some (slot # free)" by blast
      define s1 where "s1 = u\<lparr>s_tx_free_queue := Some free\<rparr>"
      note s1 = take_slot [OF less.prems(1) u_def sl, folded s1_def]
      note r = bridge_restD [OF s1(2)] and c = bridge_coreD [OF bridge_restD(3) [OF s1(2)]]
      have run: "rcp_send_loop env i t data s = (let b = rcp_handle t slot (take 1400 data) in
          if \<not> re_gate env i then (0x107, esp_hosted_rcp_fatal_restart ''RCP TX gate timeout''
             (esp_hosted_rcp_release_tx_slot (Some slot) s1))
          else if s_host_ready s1 then (case send_to_host_timeout env (i + 1) b s1 of
             (True, s2) \<Rightarrow> rcp_send_loop env (i + 2) t (drop 1400 data) s2
           | (False, s2) \<Rightarrow> (0x107, esp_hosted_rcp_fatal_restart ''RCP Hosted TX queue timeout''
                (esp_hosted_rcp_release_tx_slot (Some slot) s2)))
          else if length (the (s_preboot_tx_queue s1)) < 8
          then rcp_send_loop env (i + 2) t (drop 1400 data)
                 (s1\<lparr>s_preboot_tx_queue := Some (the (s_preboot_tx_queue s1) @ [b])\<rparr>)
          else (0x107, esp_hosted_rcp_fatal_restart ''RCP preboot TX queue timeout''
                 (esp_hosted_rcp_release_tx_slot (Some slot) s1)))"
        unfolding rcp_send_loop.simps [of env i t data s] Let_def u_def [symmetric] s1_def
        using ne sl by simp
      have fail: "send_outcome t data s 0x107
          (esp_hosted_rcp_fatal_restart m (esp_hosted_rcp_release_tx_slot (Some slot) s2)) []"
        if "pool_ok {#slot#} s2" "bridge_core s2 = bridge_core s" "e2h_stream s2 = e2h_stream s"
          "s_preboot_tx_queue s2 = s_preboot_tx_queue s" for s2 m
        using send_ready_release [OF that(1)] that(2-4) bridge_coreD(3) [OF that(2)] less.prems(1)
        by (intro send_outcome_fail) (simp_all add: send_ready_def preboot_def)
      note fail1 = fail [OF s1(1) r(3) s1(3) r(1)]
      show ?thesis
      proof (cases "re_gate env i \<and> s_host_ready s")
        case True
        obtain ok s2 where s2: "send_to_host_timeout env (i + 1) (rcp_handle t slot (take 1400 data)) s1 = (ok, s2)"
          by fastforce
        note h = push_host [OF s1 less.prems(1) conjunct2 [OF True] s2]
        show ?thesis
          using less.prems(2) run True c s2 h IH [of s2 slot] fail [of s2] by (cases ok) auto
      next
        case False
        then show ?thesis
          using less.prems(2) run c fail1 IH [OF push_preboot [OF s1 less.prems(1) _ refl]]
          by (auto simp: Let_def split: if_splits)
      qed
    qed
  qed
qed

lemma publish_preboot_spec:
  assumes "rcp_publish_preboot env i bs s = (ret, s')"
    and "pool_ok {#} s" and "s_preboot_tx_queue s = Some bs"
  shows "pool_ok {#} s' \<and> s_preboot_tx_queue s' \<noteq> None \<and> set (preboot s') \<subseteq> set bs \<and>
    (if ret = 0 then bridge_core s' = bridge_core (s\<lparr>s_host_ready := True\<rparr>) \<and> preboot s' = [] \<and>
                     e2h_stream s' = e2h_stream s
     else ret = 0x107 \<and> bridge_core s' = bridge_core s \<and> (s_rcp_fatal_task s \<longrightarrow> s_rcp_fatal_pending s'))"
  using assms
proof (induction env i bs s rule: rcp_publish_preboot.induct)
  case (1 env i s)
  then have s': "s' = s\<lparr>s_preboot_tx_queue := Some [], s_host_ready := True\<rparr>" "ret = 0" by simp_all
  have "pool_ok {#} s'" using pool_ok_cong [of s' s "{#}"] 1(2,3) s'(1) by simp
  with s' 1(3) show ?case by (simp add: bridge_core_def e2h_stream_def preboot_def)
next
  case (2 env i b bs s)
  let ?s = "s\<lparr>s_preboot_tx_queue := Some bs\<rparr>"
  let ?X = "case bh_slot b of None \<Rightarrow> {#} | Some x \<Rightarrow> {#x#}"
  obtain ok u where u: "send_to_host_timeout env i b ?s = (ok, u)" by fastforce
  note sp = send_to_host_spec [OF u] and r = bridge_restD [OF send_to_host_spec(1) [OF u]]
  have pool: "pool_ok ?X ?s"
    using "2.prems"(2,3) by (simp add: pool_ok_def free_slots_def preboot_def union_ac)
  then have pu: "pool_ok (if ok then {#} else ?X) u" using sp(4) [of "{#}"] by simp
  have core: "bridge_core u = bridge_core s" using r(3) by (simp add: bridge_core_def)
  show ?case
  proof (cases ok)
    case True
    have e: "e2h_stream u = e2h_stream s"
      using sp(3) True r(2) "2.prems"(3) by (simp add: e2h_stream_def preboot_def flip: append_assoc)
    from True 2 u pu r(1) have "pool_ok {#} s' \<and> s_preboot_tx_queue s' \<noteq> None \<and> set (preboot s') \<subseteq> set bs \<and>
    (if ret = 0 then bridge_core s' = bridge_core (u\<lparr>s_host_ready := True\<rparr>) \<and> preboot s' = [] \<and>
                     e2h_stream s' = e2h_stream u
     else ret = 0x107 \<and> bridge_core s' = bridge_core u \<and> (s_rcp_fatal_task u \<longrightarrow> s_rcp_fatal_pending s'))"
      by simp
    moreover have "bridge_core (u\<lparr>s_host_ready := True\<rparr>) = bridge_core (s\<lparr>s_host_ready := True\<rparr>)"
      using core by (simp add: bridge_core_def)
    ultimately show ?thesis using e core bridge_coreD(9) [OF core] by (cases "ret = 0") auto
  next
    case False
    let ?u = "esp_hosted_rcp_release_tx_slot (bh_slot b) u"
    have "pool_ok {#} ?u" using pu False release_pool [of _ "{#}" u] by (auto split: option.splits)
    then have "pool_ok {#} (esp_hosted_rcp_fatal_restart m ?u)" for m
      using pool_ok_cong [of "esp_hosted_rcp_fatal_restart m ?u" ?u] by simp
    moreover have "bridge_core (esp_hosted_rcp_fatal_restart m ?u) = bridge_core s" for m
      using core by (simp add: bridge_core_def)
    moreover have "preboot (esp_hosted_rcp_fatal_restart m ?u) = bs" for m
      using r(1) by (simp add: preboot_def)
    ultimately show ?thesis
      using "2.prems"(1) False u r(1) bridge_coreD(9) [OF core] by auto
  qed
qed

section \<open>Invariant of the bridge\<close>

definition bridge_inv :: "rcp_bridge \<Rightarrow> bool" where
  "bridge_inv s \<longleftrightarrow> pool_ok {#} s \<and> (\<forall>b \<in> set (preboot s). bh_slot b \<noteq> None) \<and>
     (s_host_ready s \<longrightarrow> preboot s = [] \<and> s_host_session_ready s) \<and>
     (s_host_session_ready s \<longrightarrow> s_bridge_enabled s) \<and>
     (s_bridge_enabled s \<longrightarrow> s_rx_queue s \<noteq> None \<and> s_preboot_tx_queue s \<noteq> None \<and>
        s_tx_gate_lock s \<and> s_tx_pool s \<and> s_session_nonce s \<noteq> 0) \<and>
     cur_ok (s_current_rx s) \<and> (s_rx_queue s = None \<longrightarrow> s_current_rx s = None)"

lemma send_packet_inv:
  assumes "bridge_inv s" and "esp_hosted_rcp_send_packet_to_host env i data t s = (ret, s')"
  shows "bridge_inv s'" and "bridge_core s' = bridge_core s"
    and "s_bridge_enabled s \<Longrightarrow> \<exists>cs. send_outcome t data s ret s' cs"
proof -
  have "bridge_inv s' \<and> bridge_core s' = bridge_core s \<and>
    (s_bridge_enabled s \<longrightarrow> (\<exists>cs. send_outcome t data s ret s' cs))"
  proof (cases "s_bridge_enabled s")
    case False
    with assms show ?thesis by (simp add: esp_hosted_rcp_send_packet_to_host_def)
  next
    case True
    with assms(1) have ready: "send_ready s" and "s_tx_free_queue s \<noteq> None" "s_tx_pool s"
      by (auto simp: bridge_inv_def send_ready_def pool_ok_def)
    with assms(2) True have "rcp_send_loop env i t data s = (ret, s')"
      by (simp add: esp_hosted_rcp_send_packet_to_host_def)
    from rcp_send_loop_outcome [OF ready this] obtain cs where o: "send_outcome t data s ret s' cs" ..
    then have "send_ready s'" and core: "bridge_core s' = bridge_core s" by (auto simp: send_outcome_def)
    with assms(1) True bridge_coreD [OF core] have "bridge_inv s'"
      by (simp add: bridge_inv_def send_ready_def)
    with o core show ?thesis by blast
  qed
  then show "bridge_inv s'" "bridge_core s' = bridge_core s"
    "s_bridge_enabled s \<Longrightarrow> \<exists>cs. send_outcome t data s ret s' cs" by blast+
qed

text \<open>\<open>host_ready\<close> is called with the session established; on success nothing is left behind
  the gate and the order of the stream is unchanged.\<close>

lemma host_ready_inv:
  assumes "bridge_inv s" "s_host_session_ready s" "esp_hosted_rcp_host_ready env i s = (ret, s')"
  shows "bridge_inv s'" and "ret = 0 \<Longrightarrow> s_host_ready s' \<and> e2h_stream s' = e2h_stream s"
    and "s_bridge_enabled s'" and "s_session_nonce s' = s_session_nonce s"
proof -
  from assms(1,2) have en: "s_bridge_enabled s" by (simp add: bridge_inv_def)
  have "bridge_inv s' \<and> (ret = 0 \<longrightarrow> s_host_ready s' \<and> e2h_stream s' = e2h_stream s) \<and>
    s_bridge_enabled s' \<and> s_session_nonce s' = s_session_nonce s"
  proof (cases "re_gate env i")
    case False
    with assms en show ?thesis by (auto simp: esp_hosted_rcp_host_ready_def split: if_splits)
  next
    case True
    from assms(1) en obtain q where q: "s_preboot_tx_queue s = Some q" and "s_tx_gate_lock s"
      by (auto simp: bridge_inv_def)
    with assms(3) en True have run: "rcp_publish_preboot env (i + 1) q s = (ret, s')"
      by (simp add: esp_hosted_rcp_host_ready_def)
    have "pool_ok {#} s" "preboot s = q" using assms(1) q by (simp_all add: bridge_inv_def preboot_def)
    note sp = publish_preboot_spec [OF run this(1) q]
    show ?thesis
    proof (cases "ret = 0")
      case True
      with sp have c: "bridge_core s' = bridge_core (s\<lparr>s_host_ready := True\<rparr>)" "preboot s' = []"
        "e2h_stream s' = e2h_stream s" "pool_ok {#} s'" by auto
      from bridge_coreD [OF c(1)] assms(1,2) en sp c(2-4) show ?thesis
        by (simp add: bridge_inv_def)
    next
      case False
      with sp have c: "bridge_core s' = bridge_core s" "set (preboot s') \<subseteq> set (preboot s)" "pool_ok {#} s'"
        using \<open>preboot s = q\<close> by auto
      from bridge_coreD [OF c(1)] assms(1,2) en sp c(2,3) False show ?thesis
        by (auto simp: bridge_inv_def)
    qed
  qed
  then show "bridge_inv s'" "ret = 0 \<Longrightarrow> s_host_ready s' \<and> e2h_stream s' = e2h_stream s"
    "s_bridge_enabled s'" "s_session_nonce s' = s_session_nonce s" by blast+
qed

lemma session_start_stale:
  "version \<noteq> 1 \<or> nonce = 0 \<or> nonce \<noteq> s_session_nonce s \<Longrightarrow>
   esp_hosted_rcp_session_start_from_host env version nonce s = (0, s)"
  by (auto simp: esp_hosted_rcp_session_start_from_host_def)

lemma bridge_inv_session:
  "bridge_inv s \<Longrightarrow> s_bridge_enabled s \<Longrightarrow> bridge_inv (s\<lparr>s_host_session_ready := True\<rparr>)"
  by (simp add: bridge_inv_def pool_ok_def free_slots_def preboot_def)

lemma session_start_inv:
  assumes "bridge_inv s" "esp_hosted_rcp_session_start_from_host env version nonce s = (ret, s')"
  shows "bridge_inv s'"
proof -
  consider "s' = s" | (run) "s_bridge_enabled s"
    "esp_hosted_rcp_host_ready env 1 (s\<lparr>s_host_session_ready := True\<rparr>) = (ret, s')"
  | (ack) s1 where "s_bridge_enabled s"
    "esp_hosted_rcp_host_ready env 1 (s\<lparr>s_host_session_ready := True\<rparr>) = (0, s1)"
    "esp_hosted_rcp_send_packet_to_host env 10 (session_marker 1 nonce) 5 s1 = (ret, s')"
    using assms(2) by (auto simp: esp_hosted_rcp_session_start_from_host_def split: if_splits prod.splits)
  then show ?thesis
  proof cases
    case run
    then show ?thesis using host_ready_inv(1) [OF bridge_inv_session [OF assms(1)]] by simp
  next
    case ack
    then show ?thesis
      using host_ready_inv(1) [OF bridge_inv_session [OF assms(1)], of env 1 0 s1] send_packet_inv(1) by simp
  qed (use assms in simp)
qed

text \<open>A matching nonce, when nothing times out: the startup bytes are published first, then
  the acknowledgement that carries the same nonce.\<close>

lemma session_start_success:
  assumes "bridge_inv s" "s_bridge_enabled s"
    "esp_hosted_rcp_session_start_from_host env 1 (s_session_nonce s) s = (0, s')"
  obtains ack where "s_host_ready s'" "s_host_session_ready s'" "e2h_stream s' = e2h_stream s @ [ack]"
    "bh_pkt_type ack = 5" "bh_payload ack = session_marker 1 (s_session_nonce s)" "preboot s' = []"
proof -
  let ?t = "s\<lparr>s_host_session_ready := True\<rparr>"
  have nz: "s_session_nonce s \<noteq> 0" "s_tx_gate_lock s" using assms(1,2) by (auto simp: bridge_inv_def)
  obtain r1 s1 where h: "esp_hosted_rcp_host_ready env 1 ?t = (r1, s1)" by fastforce
  with assms(2,3) nz have z: "r1 = 0"
    and ack: "esp_hosted_rcp_send_packet_to_host env 10 (session_marker 1 (s_session_nonce s)) 5 s1 = (0, s')"
    by (auto simp: esp_hosted_rcp_session_start_from_host_def split: if_splits)
  note hi = host_ready_inv [OF bridge_inv_session [OF assms(1,2)] _ h, simplified]
  from send_packet_inv [OF hi(1) ack] hi(3) obtain cs where o: "send_outcome 5 (session_marker 1 (s_session_nonce s)) s1 0 s' cs"
    and inv: "bridge_inv s'" and core: "bridge_core s' = bridge_core s1" by blast
  have len: "length (session_marker 1 (s_session_nonce s)) = 12" by (simp add: session_marker_def)
  have ready: "s_host_ready s'" using hi(2) z bridge_coreD(3) [OF core] by simp
  from o have "concat (map bh_payload cs) = session_marker 1 (s_session_nonce s)" and ch: "rcp_chunks 5 cs"
    and e: "e2h_stream s' = e2h_stream s1 @ cs" by (auto simp: send_outcome_def)
  moreover have "session_marker 1 (s_session_nonce s) \<noteq> []" using len by auto
  ultimately obtain c where c: "cs = [c]" "bh_payload c = session_marker 1 (s_session_nonce s)" "bh_pkt_type c = 5"
    using len by (auto elim: rcp_chunks_single)
  have "e2h_stream ?t = e2h_stream s" by (simp add: e2h_stream_def preboot_def)
  then show ?thesis
    using that [of c] ready inv c e hi(2) z by (simp add: bridge_inv_def)
qed

section \<open>Every reachable state keeps the invariant\<close>

text \<open>The static variables at boot, with the fatal worker created or not.\<close>

definition bridge_boot :: "bool \<Rightarrow> rcp_bridge" where
  "bridge_boot task = \<lparr>
     s_rx_queue = None, s_current_rx = None, s_tx_free_queue = None, s_preboot_tx_queue = None,
     s_tx_gate_lock = False, s_tx_pool = False, s_bridge_enabled = False, s_host_ready = False,
     s_host_session_ready = False, s_session_nonce = 0, s_rx_notify = False, rx_notified = 0,
     s_rcp_fatal_task = task, s_rcp_fatal_pending = False, s_rcp_fatal_reason = [],
     rcp_datapath = True, to_host_mid = [], taken_mid = [] \<rparr>"

inductive bridge_reachable :: "rcp_bridge \<Rightarrow> bool" where
  boot: "bridge_reachable (bridge_boot task)"
| init: "bridge_reachable s \<Longrightarrow> \<not> s_bridge_enabled s \<Longrightarrow>
    esp_hosted_rcp_init env draws s = Some (ret, s') \<Longrightarrow> bridge_reachable s'"
| deinit: "bridge_reachable s \<Longrightarrow> bridge_reachable (esp_hosted_rcp_deinit s)"
| rx: "bridge_reachable s \<Longrightarrow> bridge_reachable (snd (process_rx_rcp env t payload s))"
| read: "bridge_reachable s \<Longrightarrow> esp_hosted_rcp_read n s = (got, s') \<Longrightarrow> bridge_reachable s'"
| notify: "bridge_reachable s \<Longrightarrow> bridge_reachable (esp_hosted_rcp_set_rx_notify cb s)"
| send: "bridge_reachable s \<Longrightarrow> esp_hosted_rcp_send_to_host env data s = (ret, s') \<Longrightarrow> bridge_reachable s'"
| transport: "bridge_reachable s \<Longrightarrow> bridge_reachable (transport_take n s)"
| fatal: "bridge_reachable s \<Longrightarrow> bridge_reachable (esp_hosted_rcp_fatal_restart reason s)"
| other_sender: "bridge_reachable s \<Longrightarrow> bh_slot b = None \<Longrightarrow>
    bridge_reachable (s\<lparr>to_host_mid := to_host_mid s @ [b]\<rparr>)"

lemma rcp_draw_nonce_nonzero: "rcp_draw_nonce ds = Some n \<Longrightarrow> n \<noteq> 0"
  by (induction ds rule: rcp_draw_nonce.induct) (auto simp: Let_def split: if_splits)

lemma pool_ok_frame [simp]:
  "pool_ok X (s\<lparr>s_rx_queue := v0\<rparr>) = pool_ok X s"
  "pool_ok X (s\<lparr>s_current_rx := v1\<rparr>) = pool_ok X s"
  "pool_ok X (s\<lparr>s_bridge_enabled := v2\<rparr>) = pool_ok X s"
  "pool_ok X (s\<lparr>s_host_ready := v3\<rparr>) = pool_ok X s"
  "pool_ok X (s\<lparr>s_host_session_ready := v4\<rparr>) = pool_ok X s"
  "pool_ok X (s\<lparr>s_session_nonce := v5\<rparr>) = pool_ok X s"
  "pool_ok X (s\<lparr>s_rx_notify := v6\<rparr>) = pool_ok X s"
  "pool_ok X (s\<lparr>rx_notified := v7\<rparr>) = pool_ok X s"
  "pool_ok X (s\<lparr>s_tx_gate_lock := v8\<rparr>) = pool_ok X s"
  by (rule pool_ok_cong; simp)+

lemma preboot_frame [simp]:
  "preboot (s\<lparr>s_rx_queue := w0\<rparr>) = preboot s"
  "preboot (s\<lparr>s_current_rx := w1\<rparr>) = preboot s"
  "preboot (s\<lparr>s_bridge_enabled := w2\<rparr>) = preboot s"
  "preboot (s\<lparr>s_host_ready := w3\<rparr>) = preboot s"
  "preboot (s\<lparr>s_host_session_ready := w4\<rparr>) = preboot s"
  "preboot (s\<lparr>s_session_nonce := w5\<rparr>) = preboot s"
  "preboot (s\<lparr>s_rx_notify := w6\<rparr>) = preboot s"
  "preboot (s\<lparr>rx_notified := w7\<rparr>) = preboot s"
  "preboot (s\<lparr>s_tx_gate_lock := w8\<rparr>) = preboot s"
  "preboot (s\<lparr>s_tx_free_queue := w9\<rparr>) = preboot s"
  "preboot (s\<lparr>s_tx_pool := w10\<rparr>) = preboot s"
  "preboot (s\<lparr>to_host_mid := w11\<rparr>) = preboot s"
  "preboot (s\<lparr>taken_mid := w12\<rparr>) = preboot s"
  "preboot (s\<lparr>s_preboot_tx_queue := Some q\<rparr>) = q"
  by (simp_all add: preboot_def)

lemma pool_ok_create:
  "pool_ok X s \<Longrightarrow> s_tx_free_queue s = None \<Longrightarrow> pool_ok X (s\<lparr>s_tx_free_queue := Some []\<rparr>)"
  "pool_ok X s \<Longrightarrow> s_preboot_tx_queue s = None \<Longrightarrow> pool_ok X (s\<lparr>s_preboot_tx_queue := Some []\<rparr>)"
  by (simp_all add: pool_ok_def free_slots_def preboot_def split: if_splits)

lemma pool_ok_fill:
  assumes "pool_ok {#} s" "\<not> s_tx_pool s" "s_tx_free_queue s = Some f"
  shows "pool_ok {#} (s\<lparr>s_tx_pool := True, s_tx_free_queue := Some (f @ [0..<8])\<rparr>)"
  using assms by (simp add: pool_ok_def free_slots_def preboot_def)

lemma deinit_release:
  "pool_ok (slots_of bs) s \<Longrightarrow>
   pool_ok {#} (foldl (\<lambda>s b. esp_hosted_rcp_release_tx_slot (bh_slot b) s) s bs) \<and>
   bridge_rest (foldl (\<lambda>s b. esp_hosted_rcp_release_tx_slot (bh_slot b) s) s bs) = bridge_rest s"
proof (induction bs arbitrary: s)
  case (Cons b bs)
  have "pool_ok (slots_of bs) (esp_hosted_rcp_release_tx_slot (bh_slot b) s)"
    using Cons.prems release_pool by (cases "bh_slot b") auto
  moreover have "bridge_rest (esp_hosted_rcp_release_tx_slot (bh_slot b) s) = bridge_rest s"
    by (simp add: bridge_rest_def bridge_core_def)
  ultimately show ?case using Cons.IH by simp
qed simp

lemma deinit_inv:
  assumes "bridge_inv s"
  shows "bridge_inv (esp_hosted_rcp_deinit s)"
proof (cases "s_preboot_tx_queue s")
  case None
  then show ?thesis
    using assms by (simp add: esp_hosted_rcp_deinit_def Let_def bridge_inv_def)
next
  case (Some q)
  define t where "t = s\<lparr>s_bridge_enabled := False, s_host_ready := False, s_host_session_ready := False,
                s_session_nonce := 0, s_preboot_tx_queue := Some []\<rparr>"
  define u where "u = foldl (\<lambda>s b. esp_hosted_rcp_release_tx_slot (bh_slot b) s) t q"
  have "pool_ok (slots_of q) t"
    using assms Some by (simp add: bridge_inv_def pool_ok_def free_slots_def preboot_def t_def union_ac)
  from deinit_release [OF this, folded u_def] have u: "pool_ok {#} u" "bridge_rest u = bridge_rest t" by auto
  have p: "preboot u = []" using bridge_restD(2) [OF u(2)] by (simp add: t_def preboot_def)
  have "esp_hosted_rcp_deinit s =
      (let s = u\<lparr>s_current_rx := None\<rparr>
       in (if s_rx_queue s = None then s else s\<lparr>s_rx_queue := Some []\<rparr>)\<lparr>s_rx_notify := False\<rparr>)"
    using Some by (simp add: esp_hosted_rcp_deinit_def u_def t_def Let_def)
  with u(1) p bridge_coreD [OF bridge_restD(3) [OF u(2)]] show ?thesis
    by (simp add: bridge_inv_def t_def Let_def)
qed

text \<open>What the allocation steps of \<open>init\<close> keep.\<close>

definition init_ok :: "rcp_bridge \<Rightarrow> bool" where
  "init_ok s \<longleftrightarrow> bridge_inv s \<and> \<not> s_bridge_enabled s"

lemma init_ok_steps:
  "init_ok s \<Longrightarrow> s_rx_queue s = None \<Longrightarrow> init_ok (s\<lparr>s_rx_queue := Some []\<rparr>)"
  "init_ok s \<Longrightarrow> s_tx_free_queue s = None \<Longrightarrow> init_ok (s\<lparr>s_tx_free_queue := Some []\<rparr>)"
  "init_ok s \<Longrightarrow> s_preboot_tx_queue s = None \<Longrightarrow> init_ok (s\<lparr>s_preboot_tx_queue := Some []\<rparr>)"
  "init_ok s \<Longrightarrow> init_ok (s\<lparr>s_tx_gate_lock := True\<rparr>)"
  "init_ok s \<Longrightarrow> \<not> s_tx_pool s \<Longrightarrow> s_tx_free_queue s = Some f \<Longrightarrow>
     init_ok (s\<lparr>s_tx_pool := True, s_tx_free_queue := Some (f @ [0..<8])\<rparr>)"
  by (auto simp: init_ok_def bridge_inv_def pool_ok_create pool_ok_fill)

lemma init_inv:
  assumes "bridge_inv s" "\<not> s_bridge_enabled s" "esp_hosted_rcp_init env draws s = Some (ret, s')"
  shows "bridge_inv s'"
proof -
  define s1 where "s1 = (if s_rx_queue s = None then s\<lparr>s_rx_queue := Some []\<rparr> else s)"
  define s2 where "s2 = (if s_tx_free_queue s1 = None then s1\<lparr>s_tx_free_queue := Some []\<rparr> else s1)"
  define s3 where "s3 = (if s_preboot_tx_queue s2 = None then s2\<lparr>s_preboot_tx_queue := Some []\<rparr> else s2)"
  define s4 where "s4 = s3\<lparr>s_tx_gate_lock := True\<rparr>"
  define s5 where "s5 = (if s_tx_pool s4 then s4 else s4\<lparr>s_tx_pool := True,
    s_tx_free_queue := Some (the (s_tx_free_queue s4) @ [0..<8])\<rparr>)"
  have "init_ok s" using assms(1,2) by (simp add: init_ok_def)
  then have i1: "init_ok s1" by (simp add: s1_def init_ok_steps)
  then have i2: "init_ok s2" by (simp add: s2_def init_ok_steps)
  then have i3: "init_ok s3" by (simp add: s3_def init_ok_steps)
  then have i4: "init_ok s4" by (simp add: s4_def init_ok_steps)
  have "s_tx_free_queue s4 \<noteq> None" by (simp add: s4_def s3_def s2_def)
  with i4 have i5: "init_ok s5" by (auto simp: s5_def init_ok_steps)
  have f: "s_rx_queue s5 \<noteq> None" "s_preboot_tx_queue s5 \<noteq> None" "s_tx_gate_lock s5" "s_tx_pool s5"
    by (auto simp: s5_def s4_def s3_def s2_def s1_def)
  consider "s' = s" | "s' = s1" | "s' = s2" | "s' = s3" | "s' = s4"
    | (ok) n where "rcp_draw_nonce draws = Some n" "s' = s5\<lparr>s_session_nonce := n, s_host_ready := False,
         s_host_session_ready := False, s_bridge_enabled := True\<rparr>"
    using assms(3) unfolding esp_hosted_rcp_init_def Let_def s1_def [symmetric] s2_def [symmetric]
      s3_def [symmetric] s4_def [symmetric] s5_def [symmetric]
    by (auto split: if_splits)
  then show ?thesis
  proof cases
    case ok
    with i5 f rcp_draw_nonce_nonzero [OF ok(1)] show ?thesis by (auto simp: init_ok_def bridge_inv_def)
  qed (use assms(1) i1 i2 i3 i4 in \<open>simp_all add: init_ok_def\<close>)
qed

lemma bridge_inv_cong:
  "bridge_core s = bridge_core t \<Longrightarrow> pool_ok {#} s \<Longrightarrow> s_preboot_tx_queue s = s_preboot_tx_queue t \<Longrightarrow>
   bridge_inv t \<Longrightarrow> bridge_inv s"
  using bridge_coreD [of s t] by (simp add: bridge_inv_def preboot_def)

lemma fatal_inv: "bridge_inv s \<Longrightarrow> bridge_inv (esp_hosted_rcp_fatal_restart r s)"
  by (rule bridge_inv_cong [of _ s])
    (simp_all add: bridge_core_def bridge_inv_def pool_ok_cong [of "esp_hosted_rcp_fatal_restart r s" s])

lemma rx_from_host_inv:
  "bridge_inv s \<Longrightarrow> esp_hosted_rcp_rx_from_host env d s = (ret, s') \<Longrightarrow> bridge_inv s'"
  by (auto simp: esp_hosted_rcp_rx_from_host_def Let_def bridge_inv_def split: if_splits)

lemma process_rx_rcp_inv: "bridge_inv s \<Longrightarrow> bridge_inv (snd (process_rx_rcp env t payload s))"
  by (auto simp: process_rx_rcp_def split: prod.splits intro: fatal_inv rx_from_host_inv session_start_inv)

lemma read_inv:
  "bridge_inv s \<Longrightarrow> esp_hosted_rcp_read n s = (got, s') \<Longrightarrow> bridge_inv s'"
  by (auto simp: esp_hosted_rcp_read_def bridge_inv_def dest: rcp_read_loop_spec split: option.splits if_splits prod.splits)

lemma bridge_reachable_inv: "bridge_reachable s \<Longrightarrow> bridge_inv s"
proof (induction rule: bridge_reachable.induct)
  case (boot task)
  then show ?case by (simp add: bridge_boot_def bridge_inv_def pool_ok_def free_slots_def preboot_def)
next
  case (send s env data ret s')
  then show ?case using send_packet_inv(1) by (simp add: esp_hosted_rcp_send_to_host_def)
next
  case (transport s n)
  note sp = transport_take_spec [of n s "{#}"]
  have "bridge_rest (transport_take n s) = bridge_rest s" using sp by simp
  note r = bridge_restD [OF this]
  have "pool_ok {#} (transport_take n s)" using transport.IH sp by (simp add: bridge_inv_def)
  from bridge_inv_cong [OF r(3) this r(1) transport.IH] show ?case .
next
  case (notify s cb)
  then show ?case
    by (simp add: esp_hosted_rcp_set_rx_notify_def bridge_inv_def)
next
  case (other_sender s b)
  then have "pool_ok {#} (s\<lparr>to_host_mid := to_host_mid s @ [b]\<rparr>)"
    using push_pool(1) [where b = b and X = "{#}" and t = s] by (simp add: bridge_inv_def)
  with other_sender show ?case by (simp add: bridge_inv_def)
qed (auto intro: init_inv deinit_inv process_rx_rcp_inv read_inv fatal_inv)

end
