(* ===== verification/Usb_Device.thy ===== *)
theory Usb_Device
  imports Fw_Rcp Deframer "HOL-Library.Sublist"
begin

text \<open>
  The firmware's USB transport (\<^verbatim>\<open>esp/.../main/usb/esp_usb_device.c\<close>): its context, the
  receive parser, the blocking writer with its deadline and packet-boundary padding, the
  frame builder, control requests, and the boot-up event with its TLVs (the MAC TLV is
  \<open>esp_hosted_add_boot_mac_tlv\<close> of \<^verbatim>\<open>app_main.c\<close>). Answers of TinyUSB and FreeRTOS are
  arguments. Shown: the header check equals the host's, the parser refines the reference
  receiver while no host session is at stake and fails closed otherwise, a write that
  succeeds puts exactly the padded frame on the wire, and the writer returns.
\<close>

section \<open>Context\<close>

abbreviation (input) FW_USB_MAX_XFER :: nat where "FW_USB_MAX_XFER \<equiv> 16384"
abbreviation (input) ESP_USB_RX_STREAM_CAP :: nat where "ESP_USB_RX_STREAM_CAP \<equiv> 32768"
abbreviation (input) ESP_USB_RX_QUEUE_DEPTH :: nat where "ESP_USB_RX_QUEUE_DEPTH \<equiv> 32"
abbreviation (input) ESP_USB_RX_DRAIN_BURST :: nat where "ESP_USB_RX_DRAIN_BURST \<equiv> 16"
abbreviation (input) ESP_USB_HS_MPS :: nat where "ESP_USB_HS_MPS \<equiv> 512"
abbreviation (input) ESP_USB_TX_TIMEOUT_MS :: nat where "ESP_USB_TX_TIMEOUT_MS \<equiv> 1000"

text \<open>\<open>esp_usb_device_ctx_t\<close> with \<open>s_usb_ctrl_status\<close>; \<open>rx_signal\<close> is the binary semaphore's
  count, \<open>restarted\<close> records \<open>esp_restart\<close>.\<close>

record esp_usb_device_ctx =
  fd_installed :: bool
  fd_running :: bool
  fd_rx_queue :: "interface_buffer_handle list option"
  fd_rx_sem :: bool
  fd_rx_signal :: bool
  fd_rx_task :: bool
  fd_rx_stream_buf :: bool
  fd_rx_read_buf :: bool
  fd_rx_stream :: bytes
  fd_ep_mps :: nat
  fd_boot_cap :: u32
  fd_boot_ext_cap :: u32
  fd_boot_cap_valid :: bool
  fd_ready_replay_pending :: bool
  fd_soft_reset_pending :: bool
  fd_detached_pending :: bool
  fd_ctrl_status :: u32
  fd_restarted :: bool

section \<open>Receive parser\<close>

definition usb_header_valid :: "esp_payload_header \<Rightarrow> nat option" where
  "usb_header_valid hdr =
     (if ESP_MAX_IF \<le> ph_if_type hdr then None
      else if ph_len hdr = 0 \<or> \<not> ESP_OFFSET_VALID (unat (ph_offset hdr)) then None
      else let frame_len = unat (ph_offset hdr) + unat (ph_len hdr)
           in if frame_len \<le> FW_USB_MAX_XFER then Some frame_len else None)"

definition usb_stateful_rcp_loss :: "string \<Rightarrow> rcp_bridge \<Rightarrow> bool \<times> rcp_bridge" where
  "usb_stateful_rcp_loss reason rcp =
     (if esp_hosted_rcp_fail_closed_required rcp
      then (True, esp_hosted_rcp_fatal_restart reason rcp) else (False, rcp))"

text \<open>The handle queued for a received frame.\<close>

definition usb_frame_handle :: "bytes \<Rightarrow> interface_buffer_handle" where
  "usb_frame_handle frame =
     (case header_of frame of
        None \<Rightarrow> \<lparr>bh_if_type = 0, bh_if_num = 0, bh_payload = frame, bh_flag = 0, bh_raw_tp_seq = 0,
                 bh_pkt_type = 0, bh_slot = None\<rparr>
      | Some hdr \<Rightarrow> \<lparr>bh_if_type = ucast (ph_if_type hdr), bh_if_num = ucast (ph_if_num hdr),
                     bh_payload = frame, bh_flag = ph_flags hdr, bh_raw_tp_seq = 0,
                     bh_pkt_type = ph_packet_type hdr, bh_slot = None\<rparr>)"

text \<open>\<open>malloc\<close> answers by frame length and context.\<close>

definition usb_queue_frame ::
  "(nat \<Rightarrow> esp_usb_device_ctx \<Rightarrow> bool) \<Rightarrow> bytes \<Rightarrow> esp_usb_device_ctx \<Rightarrow> bool \<times> esp_usb_device_ctx" where
  "usb_queue_frame malloc frame c =
     (if \<not> malloc (length frame) c then (False, c)
      else case fd_rx_queue c of
             None \<Rightarrow> (False, c)
           | Some q \<Rightarrow>
               if ESP_USB_RX_QUEUE_DEPTH \<le> length q then (False, c)
               else (True, c\<lparr>fd_rx_queue := Some (q @ [usb_frame_handle frame])\<rparr>))"

lemma usb_queue_frame_stream [simp]:
  "fd_rx_stream (snd (usb_queue_frame malloc frame c)) = fd_rx_stream c"
  by (simp add: usb_queue_frame_def split: option.splits)

lemma usb_header_valid_iff:
  "usb_header_valid h = Some n \<longleftrightarrow>
     ph_if_type h < 7 \<and> 0 < unat (ph_len h) \<and> 12 \<le> unat (ph_offset h) \<and>
     unat (ph_offset h) \<le> 16 \<and> unat (ph_offset h) + unat (ph_len h) \<le> 16384 \<and>
     n = unat (ph_offset h) + unat (ph_len h)"
  by (auto simp: usb_header_valid_def Let_def ESP_OFFSET_VALID_iff unat_gt_0)

function usb_parse_stream ::
  "(nat \<Rightarrow> esp_usb_device_ctx \<Rightarrow> bool) \<Rightarrow> esp_usb_device_ctx \<Rightarrow> rcp_bridge \<Rightarrow>
     int \<times> esp_usb_device_ctx \<times> rcp_bridge" where
  "usb_parse_stream malloc c rcp =
     (case header_of (fd_rx_stream c) of
        None \<Rightarrow> (ESP_OK, c, rcp)
      | Some hdr \<Rightarrow>
          (case usb_header_valid hdr of
             None \<Rightarrow>
               (let (lost, rcp) = usb_stateful_rcp_loss ''USB RX framing corruption'' rcp
                in if lost then (ESP_FAIL, c\<lparr>fd_rx_stream := []\<rparr>, rcp)
                   else usb_parse_stream malloc (c\<lparr>fd_rx_stream := tl (fd_rx_stream c)\<rparr>) rcp)
           | Some frame_len \<Rightarrow>
               if length (fd_rx_stream c) < frame_len then (ESP_OK, c, rcp)
               else
                 let (ok, c) = usb_queue_frame malloc (take frame_len (fd_rx_stream c)) c;
                     (lost, rcp) = (if \<not> ok \<and> ph_if_type hdr = ESP_RCP_IF
                                    then usb_stateful_rcp_loss ''USB RX RCP queue loss'' rcp
                                    else (False, rcp))
                 in if lost then (ESP_FAIL, c\<lparr>fd_rx_stream := []\<rparr>, rcp)
                    else usb_parse_stream malloc
                           (c\<lparr>fd_rx_stream := drop frame_len (fd_rx_stream c)\<rparr>) rcp))"
  by pat_completeness auto
termination
proof (relation "measure (\<lambda>(m, c, r). length (fd_rx_stream c))", goal_cases)
  case (2 malloc c rcp hdr p lost rcp')
  then have "12 \<le> length (fd_rx_stream c)" by (auto dest: header_of_SomeD)
  then show ?case by simp
next
  case (3 malloc c rcp hdr n p ok c' p' lost rcp')
  then have "fd_rx_stream c' = fd_rx_stream c"
    by (metis snd_conv usb_queue_frame_stream)
  moreover from 3 have "0 < n" by (auto simp: usb_header_valid_iff)
  moreover from 3 have "12 \<le> length (fd_rx_stream c)" by (auto dest: header_of_SomeD)
  ultimately show ?case by simp
qed simp

declare usb_parse_stream.simps [simp del]

text \<open>The ingestion loop. A pass that copies nothing is cut off, as on the host side.\<close>

function usb_ingest ::
  "(nat \<Rightarrow> esp_usb_device_ctx \<Rightarrow> bool) \<Rightarrow> bytes \<Rightarrow> esp_usb_device_ctx \<Rightarrow> rcp_bridge \<Rightarrow>
     int \<times> esp_usb_device_ctx \<times> rcp_bridge" where
  "usb_ingest malloc data c rcp =
     (if data = [] then (ESP_OK, c, rcp)
      else
        let full = length (fd_rx_stream c) = ESP_USB_RX_STREAM_CAP;
            (lost, rcp) = (if full then usb_stateful_rcp_loss ''USB RX partial-stream overflow'' rcp
                           else (False, rcp));
            c = (if full then c\<lparr>fd_rx_stream := []\<rparr> else c)
        in if lost then (ESP_FAIL, c, rcp)
           else
             let copy = min (length data) (ESP_USB_RX_STREAM_CAP - length (fd_rx_stream c));
                 c = c\<lparr>fd_rx_stream := fd_rx_stream c @ take copy data\<rparr>;
                 (ret, c, rcp) = usb_parse_stream malloc c rcp
             in if ret \<noteq> ESP_OK then (ESP_FAIL, c, rcp)
                else if copy = 0 then (ESP_OK, c, rcp)
                else usb_ingest malloc (drop copy data) c rcp)"
  by pat_completeness auto
termination
  by (relation "measure (\<lambda>(m, data, c, r). length data)") auto

declare usb_ingest.simps [simp del]

text \<open>\<open>fifo\<close>: the bytes TinyUSB has received; the read takes at most one transfer.\<close>

definition usb_read_available_once ::
  "(nat \<Rightarrow> esp_usb_device_ctx \<Rightarrow> bool) \<Rightarrow> bytes \<Rightarrow> esp_usb_device_ctx \<Rightarrow> rcp_bridge \<Rightarrow>
     int \<times> bytes \<times> esp_usb_device_ctx \<times> rcp_bridge" where
  "usb_read_available_once malloc fifo c rcp =
     (if fifo = [] then (ESP_ERR_TIMEOUT, fifo, c, rcp)
      else if \<not> fd_rx_read_buf c then (ESP_ERR_NO_MEM, fifo, c, rcp)
      else let (ret, c, rcp) = usb_ingest malloc (take FW_USB_MAX_XFER fifo) c rcp
           in (ret, drop FW_USB_MAX_XFER fifo, c, rcp))"

section \<open>Writer\<close>

text \<open>One pass of a polling loop: whether the device is mounted, the free space of the TX
  FIFO, how many bytes \<open>tud_vendor_n_write\<close> takes, and the tick count at the deadline test.\<close>

record tud_poll =
  tp_mounted :: bool
  tp_available :: nat
  tp_written :: nat
  tp_tick :: u32

text \<open>The send loop on what is left of the frame. The result is the error code, the bytes
  TinyUSB took and the unused polls; \<open>None\<close>: still looping when the polls are used up.
  \<open>buffered\<close> is \<open>CFG_TUD_VENDOR_TX_BUFSIZE > 0\<close>.\<close>

fun usb_write_loop ::
  "bool \<Rightarrow> u32 \<Rightarrow> tud_poll list \<Rightarrow> bytes \<Rightarrow> (int \<times> bytes \<times> tud_poll list) option" where
  "usb_write_loop buffered deadline polls [] = Some (ESP_OK, [], polls)"
| "usb_write_loop buffered deadline [] rest = None"
| "usb_write_loop buffered deadline (p # ps) rest =
     (if \<not> tp_mounted p then Some (ESP_ERR_INVALID_STATE, [], ps)
      else if buffered \<and> tp_available p = 0
      then (if deadline \<le> tp_tick p then Some (ESP_ERR_TIMEOUT, [], ps)
            else usb_write_loop buffered deadline ps rest)
      else
        let chunk = (if buffered then min (length rest) (tp_available p) else length rest);
            written = min (tp_written p) chunk
        in if written = 0
           then (if deadline \<le> tp_tick p then Some (ESP_ERR_TIMEOUT, [], ps)
                 else usb_write_loop buffered deadline ps rest)
           else map_option (\<lambda>(ret, out, ps). (ret, take written rest @ out, ps))
                  (usb_write_loop buffered deadline ps (drop written rest)))"

fun usb_pad_wait :: "u32 \<Rightarrow> tud_poll list \<Rightarrow> (int \<times> tud_poll list) option" where
  "usb_pad_wait deadline [] = None"
| "usb_pad_wait deadline (p # ps) =
     (if tp_available p \<noteq> 0 then Some (ESP_OK, p # ps)
      else if deadline \<le> tp_tick p then Some (ESP_ERR_TIMEOUT, ps)
      else usb_pad_wait deadline ps)"

definition usb_write_pad :: "bool \<Rightarrow> u32 \<Rightarrow> tud_poll list \<Rightarrow> (int \<times> bytes) option" where
  "usb_write_pad buffered deadline polls =
     (case (if buffered then usb_pad_wait deadline polls else Some (ESP_OK, polls)) of
        None \<Rightarrow> None
      | Some (ret, ps) \<Rightarrow>
          if ret \<noteq> ESP_OK then Some (ret, [])
          else (case ps of
                  [] \<Rightarrow> None
                | p # _ \<Rightarrow> if tp_written p = 0 then Some (ESP_FAIL, []) else Some (ESP_OK, [0])))"

definition usb_write_all ::
  "bool \<Rightarrow> u32 \<Rightarrow> tud_poll list \<Rightarrow> bytes \<Rightarrow> esp_usb_device_ctx \<Rightarrow> (int \<times> bytes) option" where
  "usb_write_all buffered deadline polls data c =
     (if data = [] then Some (ESP_ERR_INVALID_ARG, [])
      else case usb_write_loop buffered deadline polls data of
             None \<Rightarrow> None
           | Some (ret, out, ps) \<Rightarrow>
               if ret \<noteq> ESP_OK then Some (ret, out)
               else if length data mod fd_ep_mps c = 0 \<and> length data < FW_USB_MAX_XFER
               then map_option (\<lambda>(ret, pad). (ret, out @ pad)) (usb_write_pad buffered deadline ps)
               else Some (ESP_OK, out))"

definition debug_raw_tp_set_seq :: "esp_payload_header \<Rightarrow> u32 \<Rightarrow> esp_payload_header" where
  "debug_raw_tp_set_seq h seq =
     h\<lparr>ph_flags := ucast (seq AND 0xff), ph_reserved1 := ucast (drop_bit 8 seq AND 0xff),
       ph_reserved2 := ucast (drop_bit 16 seq AND 0xff), ph_union := ucast (drop_bit 24 seq AND 0xff)\<rparr>"

text \<open>The frame \<open>esp_usb_write\<close> builds: zeroed header, four-bit interface fields.\<close>

definition usb_build_frame :: "interface_buffer_handle \<Rightarrow> bytes" where
  "usb_build_frame b =
     (let hdr = \<lparr>ph_if_type = ucast (bh_if_type b), ph_if_num = ucast (bh_if_num b),
                 ph_flags = bh_flag b, ph_packet_type = bh_pkt_type b, ph_reserved1 = 0,
                 ph_len = of_nat (length (bh_payload b)), ph_offset = of_nat HDR_SIZE,
                 ph_checksum = 0, ph_reserved2 = 0, ph_union = 0\<rparr>;
          hdr = (if ph_if_type hdr = ESP_TEST_IF then debug_raw_tp_set_seq hdr (bh_raw_tp_seq b) else hdr)
      in header_bytes hdr @ bh_payload b)"

text \<open>\<open>esp_usb_write\<close> of the firmware: return value and bytes on the wire.\<close>

definition fw_usb_write ::
  "bool \<Rightarrow> bool \<Rightarrow> u32 \<Rightarrow> tud_poll list \<Rightarrow> interface_buffer_handle \<Rightarrow> esp_usb_device_ctx \<Rightarrow>
     (int \<times> bytes) option" where
  "fw_usb_write alloc buffered deadline polls b c =
     (if bh_payload b = [] then Some (ESP_FAIL, [])
      else if FW_USB_MAX_XFER < HDR_SIZE + length (bh_payload b) then Some (ESP_FAIL, [])
      else if \<not> alloc then Some (ESP_ERR_NO_MEM, [])
      else map_option (\<lambda>(ret, out). (if ret = ESP_OK then int (length (bh_payload b)) else ESP_FAIL, out))
             (usb_write_all buffered deadline polls (usb_build_frame b) c))"

definition fw_usb_read ::
  "esp_usb_device_ctx \<Rightarrow> int \<times> interface_buffer_handle option \<times> esp_usb_device_ctx" where
  "fw_usb_read c =
     (case fd_rx_queue c of
        None \<Rightarrow> (ESP_FAIL, None, c)
      | Some [] \<Rightarrow> (0, None, c)
      | Some (b # q) \<Rightarrow> (int (length (bh_payload b)), Some b, c\<lparr>fd_rx_queue := Some q\<rparr>))"

section \<open>Boot-up event\<close>

abbreviation (input) ESP_INTERNAL_BOOTUP_EVENT :: u8 where "ESP_INTERNAL_BOOTUP_EVENT \<equiv> 1"
abbreviation (input) ESP_BOOTUP_CAPABILITY :: u8 where "ESP_BOOTUP_CAPABILITY \<equiv> 0"
abbreviation (input) ESP_BOOTUP_FW_DATA :: u8 where "ESP_BOOTUP_FW_DATA \<equiv> 1"
abbreviation (input) ESP_BOOTUP_SPI_CLK_MHZ :: u8 where "ESP_BOOTUP_SPI_CLK_MHZ \<equiv> 2"
abbreviation (input) ESP_BOOTUP_FIRMWARE_CHIP_ID :: u8 where "ESP_BOOTUP_FIRMWARE_CHIP_ID \<equiv> 3"
abbreviation (input) ESP_BOOTUP_TEST_RAW_TP :: u8 where "ESP_BOOTUP_TEST_RAW_TP \<equiv> 4"
abbreviation (input) ESP_BOOTUP_RX_BUF_SIZE :: u8 where "ESP_BOOTUP_RX_BUF_SIZE \<equiv> 5"
abbreviation (input) ESP_BOOTUP_EXT_CAPABILITY :: u8 where "ESP_BOOTUP_EXT_CAPABILITY \<equiv> 6"
abbreviation (input) ESP_BOOTUP_RCP_SESSION_NONCE :: u8 where "ESP_BOOTUP_RCP_SESSION_NONCE \<equiv> 7"
abbreviation (input) ESP_BOOTUP_BASE_MAC_INFO :: u8 where "ESP_BOOTUP_BASE_MAC_INFO \<equiv> 8"

text \<open>\<open>PROJECT_NAME\<close> "NG", version 1.0.6.0.23 (\<^verbatim>\<open>esp_fw_version.h\<close>).\<close>

definition fw_version_bytes :: bytes where
  "fw_version_bytes = [0x4E, 0x47, 0, 1, 0, 6, 0, 23]"

text \<open>\<open>mac\<close>: the station MAC, when \<open>esp_read_mac\<close> succeeds.\<close>

definition esp_hosted_add_boot_mac_tlv :: "bytes option \<Rightarrow> u8 \<Rightarrow> bytes" where
  "esp_hosted_add_boot_mac_tlv mac universal =
     (case mac of
        None \<Rightarrow> []
      | Some m \<Rightarrow>
          if hd m AND 1 \<noteq> 0 \<or> (universal \<noteq> 1 \<and> universal \<noteq> 2 \<and> universal \<noteq> 4) then []
          else [ESP_BOOTUP_BASE_MAC_INFO, 7] @ take MAC_ADDR_LEN m @ [universal])"

definition bootup_tlvs :: "u8 \<Rightarrow> u32 \<Rightarrow> u32 \<Rightarrow> bytes option \<Rightarrow> u8 \<Rightarrow> u32 \<Rightarrow> bytes" where
  "bootup_tlvs chip cap ext_cap mac universal reset_reason =
     [ESP_BOOTUP_FIRMWARE_CHIP_ID, 1, chip] @
     [ESP_BOOTUP_CAPABILITY, 4] @ le_bytes 4 cap @
     (if ext_cap \<noteq> 0 then [ESP_BOOTUP_EXT_CAPABILITY, 4] @ le_bytes 4 ext_cap else []) @
     esp_hosted_add_boot_mac_tlv mac universal @
     [ESP_BOOTUP_RX_BUF_SIZE, 4] @ le_bytes 4 (of_nat FW_USB_MAX_XFER :: u32) @
     [ESP_BOOTUP_FW_DATA, 12] @ fw_version_bytes @ le_bytes 4 reset_reason"

text \<open>\<open>struct esp_internal_bootup_event\<close> with its TLVs.\<close>

definition bootup_event_bytes :: "bytes \<Rightarrow> bytes" where
  "bootup_event_bytes tlvs =
     [ESP_INTERNAL_BOOTUP_EVENT, 0] @ le_bytes 2 (of_nat (length tlvs + 1) :: u16) @
     [of_nat (length tlvs), 0, 0, 0] @ tlvs"

text \<open>\<open>send_bootup_event_to_host\<close>: the parameters are remembered for a replay; the queued
  handle is the result. \<open>queued\<close>: the answer of \<open>send_to_host\<close>.\<close>

definition send_bootup_event_to_host ::
  "bool \<Rightarrow> bool \<Rightarrow> u8 \<Rightarrow> bytes option \<Rightarrow> u8 \<Rightarrow> u32 \<Rightarrow> u32 \<Rightarrow> u32 \<Rightarrow> esp_usb_device_ctx \<Rightarrow>
     int \<times> interface_buffer_handle option \<times> esp_usb_device_ctx" where
  "send_bootup_event_to_host alloc queued chip mac universal reset_reason cap ext_cap c =
     (let c = c\<lparr>fd_boot_cap := cap, fd_boot_ext_cap := ext_cap, fd_boot_cap_valid := True\<rparr>
      in if \<not> alloc then (ESP_ERR_NO_MEM, None, c)
         else
           let b = \<lparr>bh_if_type = ucast ESP_INTERNAL_IF, bh_if_num = 0,
                    bh_payload = bootup_event_bytes (bootup_tlvs chip cap ext_cap mac universal reset_reason),
                    bh_flag = 0, bh_raw_tp_seq = 0, bh_pkt_type = PACKET_TYPE_EVENT, bh_slot = None\<rparr>
           in if \<not> queued then (ESP_FAIL, None, c)
              else (ESP_OK, Some b, c\<lparr>fd_ready_replay_pending := False\<rparr>))"

section \<open>Control requests and life cycle\<close>

definition usb_wake_rx_task :: "esp_usb_device_ctx \<Rightarrow> esp_usb_device_ctx" where
  "usb_wake_rx_task c = (if fd_rx_sem c then c\<lparr>fd_rx_signal := True\<rparr> else c)"

text \<open>\<open>boot\<close> is \<open>send_bootup_event_to_host\<close> with its environment.\<close>

definition usb_service_control_requests ::
  "(u32 \<Rightarrow> u32 \<Rightarrow> esp_usb_device_ctx \<Rightarrow> int \<times> interface_buffer_handle option \<times> esp_usb_device_ctx) \<Rightarrow>
     esp_usb_device_ctx \<Rightarrow> interface_buffer_handle option \<times> esp_usb_device_ctx" where
  "usb_service_control_requests boot c =
     (let c = (if fd_detached_pending c
               then c\<lparr>fd_detached_pending := False, fd_rx_stream := []\<rparr> else c);
          (sent, c) = (if fd_ready_replay_pending c \<and> fd_boot_cap_valid c
                       then (let (ret, b, c) = boot (fd_boot_cap c) (fd_boot_ext_cap c) c in (b, c))
                       else (None, c));
          c = (if fd_soft_reset_pending c
               then c\<lparr>fd_soft_reset_pending := False, fd_restarted := True\<rparr> else c)
      in (sent, c))"

text \<open>\<open>tusb_control_request_t\<close>: the fields the callback reads.\<close>

record control_request =
  rq_vendor :: bool
  rq_rcpt_interface :: bool
  rq_dir_in :: bool
  rq_index :: u16
  rq_length :: u16
  rq_request :: u8

text \<open>Result: whether the stage is accepted (a setup that is not stalls), and the status word
  sent at the setup stage.\<close>

definition tud_vendor_control_xfer_cb ::
  "bool \<Rightarrow> control_request \<Rightarrow> esp_usb_device_ctx \<Rightarrow> bool \<times> u32 option \<times> esp_usb_device_ctx" where
  "tud_vendor_control_xfer_cb setup rq c =
     (if \<not> setup then (True, None, c)
      else if \<not> rq_vendor rq \<or> \<not> rq_rcpt_interface rq \<or> \<not> rq_dir_in rq then (False, None, c)
      else if rq_index rq AND 0xff \<noteq> 0 \<or> rq_length rq < 4 then (False, None, c)
      else
        let c = (if rq_request rq = 0xA0
                 then usb_wake_rx_task (c\<lparr>fd_ready_replay_pending := True, fd_ctrl_status := 0\<rparr>)
                 else if rq_request rq = 0xA1
                 then usb_wake_rx_task (c\<lparr>fd_soft_reset_pending := True, fd_ctrl_status := 0\<rparr>)
                 else c\<lparr>fd_ctrl_status := 2\<rparr>)
        in (True, Some (fd_ctrl_status c), c))"

definition usb_event_detached :: "esp_usb_device_ctx \<Rightarrow> esp_usb_device_ctx" where
  "usb_event_detached c = usb_wake_rx_task (c\<lparr>fd_detached_pending := True\<rparr>)"

definition fw_usb_reset :: "esp_usb_device_ctx \<Rightarrow> int \<times> esp_usb_device_ctx" where
  "fw_usb_reset c = (ESP_OK, usb_wake_rx_task (c\<lparr>fd_soft_reset_pending := True\<rparr>))"

text \<open>\<open>memset(&s_usb, 0, ...)\<close>; the status word is a separate variable.\<close>

definition usb_zero :: "esp_usb_device_ctx \<Rightarrow> esp_usb_device_ctx" where
  "usb_zero c = \<lparr>
     fd_installed = False, fd_running = False, fd_rx_queue = None, fd_rx_sem = False,
     fd_rx_signal = False, fd_rx_task = False, fd_rx_stream_buf = False, fd_rx_read_buf = False,
     fd_rx_stream = [], fd_ep_mps = 0, fd_boot_cap = 0, fd_boot_ext_cap = 0,
     fd_boot_cap_valid = False, fd_ready_replay_pending = False, fd_soft_reset_pending = False,
     fd_detached_pending = False, fd_ctrl_status = fd_ctrl_status c, fd_restarted = fd_restarted c \<rparr>"

text \<open>\<open>esp_usb_init\<close> of the firmware with the results of its allocations and calls, in the
  order of the code; every failure leaves the zeroed context.\<close>

definition fw_usb_init ::
  "bool \<Rightarrow> bool \<Rightarrow> bool \<Rightarrow> bool \<Rightarrow> bool \<Rightarrow> bool \<Rightarrow> esp_usb_device_ctx \<Rightarrow> bool \<times> esp_usb_device_ctx" where
  "fw_usb_init stream_ok read_ok queue_ok sem_ok install_ok task_ok c =
     (if fd_installed c then (True, c)
      else
        let c = (usb_zero c)\<lparr>fd_ep_mps := ESP_USB_HS_MPS\<rparr>
        in if \<not> (stream_ok \<and> read_ok \<and> queue_ok \<and> sem_ok \<and> install_ok \<and> task_ok)
           then (False, usb_zero c)
           else (True, c\<lparr>fd_rx_stream_buf := True, fd_rx_read_buf := True, fd_rx_queue := Some [],
                         fd_rx_sem := True, fd_running := True, fd_rx_task := True,
                         fd_installed := True\<rparr>))"

definition fw_usb_deinit :: "esp_usb_device_ctx \<Rightarrow> esp_usb_device_ctx" where
  "fw_usb_deinit c = (if \<not> fd_installed c then c else usb_zero c)"

section \<open>The parser refines the reference receiver or fails closed\<close>

interpretation fw_rx: frame_format usb_header_valid "\<lambda>_. False" FW_USB_MAX_XFER
  by unfold_locales (auto simp: usb_header_valid_iff)

abbreviation fw_deframe :: "bytes \<Rightarrow> bytes list \<times> bytes \<times> bool \<times> bool" where
  "fw_deframe \<equiv> deframe usb_header_valid (\<lambda>_. False) False"

definition fw_received ::
  "esp_usb_device_ctx \<Rightarrow> interface_buffer_handle list \<Rightarrow> bytes list \<Rightarrow> bytes \<Rightarrow> esp_usb_device_ctx" where
  "fw_received c q fs r = c\<lparr>fd_rx_stream := r, fd_rx_queue := Some (q @ map usb_frame_handle fs)\<rparr>"

text \<open>With room in the queue: unless the stream is corrupt while a session is established,
  exactly the frames of the reference are queued and its rest is kept; otherwise the stream
  is cleared, the fatal restart is requested and only frames before the corruption are
  queued.\<close>

lemma fw_parse_refines:
  assumes "\<forall>n c. malloc n c" "fd_rx_queue c = Some q" "fw_deframe (fd_rx_stream c) = (fs, r, p, l)"
    "length q + length fs \<le> 32"
  shows "if esp_hosted_rcp_fail_closed_required rcp \<and> l
     then \<exists>k. usb_parse_stream malloc c rcp = (ESP_FAIL, fw_received c q (take k fs) [],
            esp_hosted_rcp_fatal_restart ''USB RX framing corruption'' rcp)
     else usb_parse_stream malloc c rcp = (ESP_OK, fw_received c q fs r, rcp)"
  using assms(2-)
proof (induction "False" "fd_rx_stream c" arbitrary: c q fs r p l rule: fw_rx.deframe_induct)
  case empty
  then show ?case by (cases c) (simp add: usb_parse_stream.simps fw_received_def)
next
  case wait
  then show ?case by (cases c) (auto simp: usb_parse_stream.simps fw_received_def deframe_wait)
next
  case (partial h n)
  then show ?case by (cases c) (auto simp: usb_parse_stream.simps fw_received_def deframe_partial)
next
  case (invalid h)
  obtain fs' r' p' l' where d: "fw_deframe (tl (fd_rx_stream c)) = (fs', r', p', l')" by (metis prod_cases4)
  with invalid have e: "fs = fs'" "r = r'" "l" by (auto simp: deframe_invalid)
  show ?case
  proof (cases "esp_hosted_rcp_fail_closed_required rcp")
    case True
    with invalid e show ?thesis
      by (auto simp: usb_parse_stream.simps [of malloc c] usb_stateful_rcp_loss_def fw_received_def intro: exI [of _ 0])
  next
    case False
    let ?c = "c\<lparr>fd_rx_stream := tl (fd_rx_stream c)\<rparr>"
    have "usb_parse_stream malloc ?c rcp = (ESP_OK, fw_received ?c q fs' r', rcp)"
      using invalid.hyps(3) [of ?c q fs' r' p' l'] invalid.prems d e False by simp
    with invalid False e show ?thesis
      by (simp add: usb_parse_stream.simps [of malloc c] usb_stateful_rcp_loss_def fw_received_def)
  qed
next
  case (frame h n)
  let ?s = "fd_rx_stream c"
  obtain fs' r' p' l' where d: "fw_deframe (drop n ?s) = (fs', r', p', l')" by (metis prod_cases4)
  with frame have e: "fs = take n ?s # fs'" "r = r'" "l = l'" by (auto simp: deframe_frame)
  let ?c = "c\<lparr>fd_rx_queue := Some (q @ [usb_frame_handle (take n ?s)]), fd_rx_stream := drop n ?s\<rparr>"
  have "usb_queue_frame malloc (take n ?s) c =
      (True, c\<lparr>fd_rx_queue := Some (q @ [usb_frame_handle (take n ?s)])\<rparr>)"
    using frame.prems assms(1) e by (simp add: usb_queue_frame_def)
  then have step: "usb_parse_stream malloc c rcp = usb_parse_stream malloc ?c rcp"
    using frame.hyps by (simp add: usb_parse_stream.simps [of malloc c])
  have rec: "fw_received ?c (q @ [usb_frame_handle (take n ?s)]) gs t = fw_received c q (take n ?s # gs) t" for gs t
    by (simp add: fw_received_def)
  have IH: "if esp_hosted_rcp_fail_closed_required rcp \<and> l'
     then \<exists>k. usb_parse_stream malloc ?c rcp = (ESP_FAIL, fw_received c q (take n ?s # take k fs') [],
            esp_hosted_rcp_fatal_restart ''USB RX framing corruption'' rcp)
     else usb_parse_stream malloc ?c rcp = (ESP_OK, fw_received c q (take n ?s # fs') r', rcp)"
    using frame.hyps(5) [of ?c "q @ [usb_frame_handle (take n ?s)]" fs' r' p' l'] frame.prems d e
    unfolding rec by (cases "esp_hosted_rcp_fail_closed_required rcp \<and> l'") simp_all
  show ?case
  proof (cases "esp_hosted_rcp_fail_closed_required rcp \<and> l")
    case True
    with IH e obtain k where "usb_parse_stream malloc c rcp = (ESP_FAIL, fw_received c q (take (Suc k) fs) [],
            esp_hosted_rcp_fatal_restart ''USB RX framing corruption'' rcp)"
      unfolding step by auto
    with True show ?thesis by auto
  next
    case False
    with IH e have "usb_parse_stream malloc c rcp = (ESP_OK, fw_received c q fs r, rcp)"
      unfolding step e(2) by (simp only: if_False)
    with False show ?thesis by (simp only: if_False)
  qed
qed auto

section \<open>The writer\<close>

lemma usb_write_loop_out:
  "usb_write_loop buffered deadline polls data = Some (ret, out, ps) \<Longrightarrow>
   (ret = 0 \<longrightarrow> out = data) \<and> prefix out data"
proof (induction polls arbitrary: data ret out ps)
  case Nil
  then show ?case by (cases data) auto
next
  case (Cons p polls)
  show ?case
  proof (cases data)
    case Nil
    with Cons.prems show ?thesis by simp
  next
    case data: (Cons b bs)
    define written where "written = min (tp_written p)
      (if buffered then min (length data) (tp_available p) else length data)"
    have split: "take written data @ drop written data = data" by (rule append_take_drop_id)
    consider (stop) "out = []" "ret \<noteq> 0" | (again) "usb_write_loop buffered deadline polls data = Some (ret, out, ps)"
      | (some) out' where "usb_write_loop buffered deadline polls (drop written data) = Some (ret, out', ps)"
        "out = take written data @ out'"
      using Cons.prems data by (auto simp: Let_def written_def split: if_splits)
    then show ?thesis
    proof cases
      case some
      from Cons.IH [OF some(1)] have "ret = 0 \<longrightarrow> out' = drop written data" "prefix out' (drop written data)" by auto
      with some(2) split show ?thesis by (metis same_prefix_prefix)
    qed (use Cons.IH in auto)
  qed
qed

text \<open>Every pass of the loop sends a byte, ends it, or happens before the deadline; so with
  more polls than bytes and early passes together it has returned.\<close>

definition early_polls :: "u32 \<Rightarrow> tud_poll list \<Rightarrow> nat" where
  "early_polls deadline ps = length (filter (\<lambda>p. tp_tick p < deadline) ps)"

lemma early_polls_simps [simp]:
  "early_polls d [] = 0"
  "early_polls d (p # ps) = (if tp_tick p < d then 1 else 0) + early_polls d ps"
  by (simp_all add: early_polls_def)

lemma usb_write_loop_returns:
  "length data + early_polls deadline polls < length polls \<Longrightarrow>
   \<exists>ret out ps. usb_write_loop buffered deadline polls data = Some (ret, out, ps) \<and>
     (ret = 0 \<longrightarrow> early_polls deadline ps < length ps)"
proof (induction polls arbitrary: data)
  case (Cons p polls)
  show ?case
  proof (cases data)
    case Nil
    with Cons.prems show ?thesis by simp
  next
    case data: (Cons b bs)
    define written where "written = min (tp_written p)
      (if buffered then min (length data) (tp_available p) else length data)"
    have rest: "\<exists>ret out ps. usb_write_loop buffered deadline polls (drop written data) = Some (ret, out, ps) \<and>
        (ret = 0 \<longrightarrow> early_polls deadline ps < length ps)" if "written \<noteq> 0"
      using Cons.prems that data
      by (intro Cons.IH) (auto simp: written_def split: if_splits)
    have again: "\<exists>ret out ps. usb_write_loop buffered deadline polls data = Some (ret, out, ps) \<and>
        (ret = 0 \<longrightarrow> early_polls deadline ps < length ps)" if "tp_tick p < deadline"
      using Cons.prems that by (intro Cons.IH) simp
    show ?thesis
      using rest again data by (auto simp: Let_def written_def [symmetric] not_le split: if_splits) (auto simp: written_def)
  qed
qed simp

lemma usb_pad_wait_returns:
  "early_polls deadline polls < length polls \<Longrightarrow>
   \<exists>ret ps. usb_pad_wait deadline polls = Some (ret, ps) \<and> (ret = 0 \<longrightarrow> ps \<noteq> [])"
  by (induction polls) (auto simp: not_le split: if_splits)

lemma usb_write_all_returns:
  assumes "length data + early_polls deadline polls < length polls"
  shows "usb_write_all buffered deadline polls data c \<noteq> None"
proof -
  from usb_write_loop_returns [OF assms, of buffered] obtain ret out ps where
    w: "usb_write_loop buffered deadline polls data = Some (ret, out, ps)"
    and r: "ret = 0 \<longrightarrow> early_polls deadline ps < length ps" by blast
  have "usb_write_pad buffered deadline ps \<noteq> None" if "ret = 0"
  proof -
    from r that have e: "early_polls deadline ps < length ps" by simp
    then have "ps \<noteq> []" by auto
    with usb_pad_wait_returns [OF e] show ?thesis
      by (auto simp: usb_write_pad_def split: option.splits list.splits)
  qed
  with w show ?thesis by (auto simp: usb_write_all_def)
qed

definition fw_pad_rule :: "nat \<Rightarrow> nat \<Rightarrow> bool" where
  "fw_pad_rule mps n \<longleftrightarrow> n mod mps = 0 \<and> n < FW_USB_MAX_XFER"

lemma usb_write_all_out:
  assumes "usb_write_all buffered deadline polls data c = Some (ret, out)"
  shows "ret = 0 \<Longrightarrow> out = emit (fw_pad_rule (fd_ep_mps c)) data"
    and "prefix out (emit (fw_pad_rule (fd_ep_mps c)) data)"
proof -
  let ?pad = "fw_pad_rule (fd_ep_mps c)"
  have pad: "(r = 0 \<longrightarrow> p = [0]) \<and> (p = [0] \<or> p = [])" if "usb_write_pad buffered deadline ps = Some (r, p)" for ps r p
    using that by (auto simp: usb_write_pad_def split: option.splits list.splits if_splits)
  have "(ret = 0 \<longrightarrow> out = emit ?pad data) \<and> prefix out (emit ?pad data)"
  proof (cases "data = []")
    case True
    with assms show ?thesis by (auto simp: usb_write_all_def)
  next
    case False
    with assms obtain r o1 ps where w: "usb_write_loop buffered deadline polls data = Some (r, o1, ps)"
      by (auto simp: usb_write_all_def split: option.splits)
    note o1 = usb_write_loop_out [OF w]
    show ?thesis
    proof (cases "r = 0 \<and> ?pad (length data)")
      case True
      with assms False w obtain p where "usb_write_pad buffered deadline ps = Some (ret, p)" "out = o1 @ p"
        by (auto simp: usb_write_all_def fw_pad_rule_def)
      with pad [of ps ret p] True o1 show ?thesis by (auto simp: emit_def)
    next
      case fls: False
      with assms False w have "ret = r" "out = o1" by (auto simp: usb_write_all_def fw_pad_rule_def split: if_splits)
      with o1 fls show ?thesis by (auto simp: emit_def)
    qed
  qed
  then show "ret = 0 \<Longrightarrow> out = emit ?pad data" "prefix out (emit ?pad data)" by auto
qed

lemma length_usb_build_frame: "length (usb_build_frame b) = 12 + length (bh_payload b)"
  by (simp add: usb_build_frame_def Let_def)

text \<open>When the frame buffer can be allocated, a return value above zero means that the whole
  padded frame is on the wire.\<close>

lemma fw_usb_write_out:
  assumes "fw_usb_write True buffered deadline polls b c = Some (ret, out)" "0 < ret"
  shows "out = emit (fw_pad_rule (fd_ep_mps c)) (usb_build_frame b)" "ret = int (length (bh_payload b))"
    "12 + length (bh_payload b) \<le> 16384" "bh_payload b \<noteq> []"
  using assms usb_write_all_out(1)
  by (auto simp: fw_usb_write_def HDR_SIZE_def split: if_splits)

lemma build_frame_valid:
  assumes "bh_payload b \<noteq> []" "12 + length (bh_payload b) \<le> 16384" "ucast (bh_if_type b) < (7 :: u4)"
  shows "complete_frame usb_header_valid (usb_build_frame b)"
proof -
  have "unat (of_nat (length (bh_payload b)) :: u16) = length (bh_payload b)"
    using assms(2) by (simp add: unat_of_nat)
  with assms show ?thesis
    by (simp add: complete_frame_iff usb_build_frame_def Let_def usb_header_valid_iff HDR_SIZE_def
        debug_raw_tp_set_seq_def)
qed

section \<open>Ingestion\<close>

lemma fw_received_simps [simp]:
  "fd_rx_stream (fw_received c q fs r) = r"
  "fd_rx_queue (fw_received c q fs r) = Some (q @ map usb_frame_handle fs)"
  "fw_received (fw_received c q fs r) (q @ map usb_frame_handle fs) gs t = fw_received c q (fs @ gs) t"
  by (simp_all add: fw_received_def)

text \<open>A corruption-free stream: the frames of the reference are queued and the rest is kept,
  whatever the session state.\<close>

lemma fw_ingest_clean:
  assumes "\<forall>n c. malloc n c" "fd_rx_queue c = Some q" "fw_deframe (fd_rx_stream c @ data) = (fs, r, p, False)"
    "length q + length fs \<le> 32" "fw_deframe (fd_rx_stream c) = ([], fd_rx_stream c, False, False)"
  shows "usb_ingest malloc data c rcp = (ESP_OK, fw_received c q fs r, rcp)"
  using assms(2-)
proof (induction data arbitrary: c q fs r p rule: measure_induct_rule [where f = length])
  case (less data)
  let ?s = "fd_rx_stream c"
  show ?case
  proof (cases "data = []")
    case True
    with less.prems show ?thesis by (cases c) (simp add: usb_ingest.simps fw_received_def)
  next
    case False
    have len: "length ?s < 16384" using fw_rx.deframe_rest less.prems(4) by blast
    define copy where "copy = min (length data) (32768 - length ?s)"
    have copy: "copy \<noteq> 0" using len False by (simp add: copy_def)
    obtain f1 r1 p1 l1 where d0: "fw_deframe (?s @ take copy data) = (f1, r1, p1, l1)" by (metis prod_cases4)
    have "p1 = False" using fw_rx.deframe_no_pad [OF d0] by simp
    with d0 have d1: "fw_deframe (?s @ take copy data) = (f1, r1, False, l1)" by simp
    obtain f2 r2 p2 l2 where d2: "fw_deframe (r1 @ drop copy data) = (f2, r2, p2, l2)" by (metis prod_cases4)
    have all: "fs = f1 @ f2" "r = r2" "\<not> l1" "\<not> l2"
      using fw_rx.deframe_append [OF d1 d2] less.prems(2) by auto
    define c1 where "c1 = c\<lparr>fd_rx_stream := ?s @ take copy data\<rparr>"
    have parse: "usb_parse_stream malloc c1 rcp = (ESP_OK, fw_received c q f1 r1, rcp)"
      using fw_parse_refines [OF assms(1), of c1 q f1 r1 False l1 rcp] less.prems d1 all
      by (simp add: c1_def fw_received_def)
    have "usb_ingest malloc data c rcp = usb_ingest malloc (drop copy data) (fw_received c q f1 r1) rcp"
      using False len copy parse
      by (simp add: usb_ingest.simps [of malloc data] Let_def copy_def [symmetric] c1_def)
    also have "\<dots> = (ESP_OK, fw_received (fw_received c q f1 r1) (q @ map usb_frame_handle f1) f2 r2, rcp)"
      using less.prems(3) d2 all fw_rx.deframe_settled [OF d1] copy False
      by (intro less.IH) (auto simp: min_def copy_def)
    finally show ?thesis using all by simp
  qed
qed

end
