(* ===== verification/Usb_Link.thy ===== *)
theory Usb_Link
  imports Usb_Host Usb_Device
begin

text \<open>
  Both ends of the USB link together. The two header checks agree; a sequence of frames
  the firmware wrote completely arrives in the host's receive queue unchanged, in order
  and without a loss report, however the bulk transfers cut the stream; and the frames the
  host submits arrive in the firmware's queue the same way.
\<close>

lemma header_checks_agree: "usb_header_valid = esp_usb_valid_header"
proof
  fix h
  show "usb_header_valid h = esp_usb_valid_header h"
  proof -
    have "usb_header_valid h = Some n \<longleftrightarrow> esp_usb_valid_header h = Some n" for n
      by (simp only: usb_header_valid_iff esp_usb_valid_header_iff)
    then show ?thesis by (metis not_None_eq)
  qed
qed

section \<open>Device to host\<close>

text \<open>A sequence of completed receive transfers.\<close>

fun host_ingest_all ::
  "usb_env \<Rightarrow> bytes list \<Rightarrow> esp_usb_context \<Rightarrow> 'c esp_adapter \<Rightarrow> esp_usb_context \<times> 'c esp_adapter" where
  "host_ingest_all env [] ctx a = (ctx, a)"
| "host_ingest_all env (d # ds) ctx a =
     (let (ctx, a) = esp_usb_ingest_stream env d ctx a in host_ingest_all env ds ctx a)"

lemma ingest_stream_clean:
  assumes "rx_settled ctx" "\<forall>n c. ue_alloc_skb env n c"
    "host_deframe (bulk_in_mps ctx) (rx_pad_expected ctx) (rx_stream ctx @ data) = (fs, r, p, False)"
  shows "fst (esp_usb_ingest_stream env data ctx a) =
    ctx\<lparr>rx_queue := rx_queue ctx @ fs, rx_stream := r, rx_pad_expected := p\<rparr>"
proof (cases "data = []")
  case True
  with assms(1,3) have "fs = []" "r = rx_stream ctx" "p = rx_pad_expected ctx" by (auto simp: rx_settled_def)
  with True show ?thesis by (cases ctx) (simp add: esp_usb_ingest_stream_def)
next
  case False
  from ingest_refines [OF assms(1), of data env False False] assms(2,3)
  have "esp_usb_ingest_loop env data ctx False False =
      (ctx\<lparr>rx_queue := rx_queue ctx @ fs, rx_stream := r, rx_pad_expected := p\<rparr>, fs \<noteq> [], False)"
    by (auto simp: rx_outcome_def)
  with False show ?thesis by (simp add: esp_usb_ingest_stream_def)
qed

lemma host_ingest_all_clean:
  assumes "rx_settled ctx" "\<forall>n c. ue_alloc_skb env n c"
    "host_deframe (bulk_in_mps ctx) (rx_pad_expected ctx) (rx_stream ctx @ concat ds) = (fs, r, p, False)"
  shows "fst (host_ingest_all env ds ctx a) =
    ctx\<lparr>rx_queue := rx_queue ctx @ fs, rx_stream := r, rx_pad_expected := p\<rparr>"
  using assms(1,3)
proof (induction ds arbitrary: ctx fs a)
  case Nil
  then have "fs = []" "r = rx_stream ctx" "p = rx_pad_expected ctx" by (auto simp: rx_settled_def)
  then show ?case by (cases ctx) simp
next
  case (Cons d ds)
  let ?mps = "bulk_in_mps ctx"
  obtain f1 r1 p1 l1 where d1: "host_deframe ?mps (rx_pad_expected ctx) (rx_stream ctx @ d) = (f1, r1, p1, l1)"
    by (metis prod_cases4)
  obtain f2 r2 p2 l2 where d2: "host_deframe ?mps p1 (r1 @ concat ds) = (f2, r2, p2, l2)" by (metis prod_cases4)
  have all: "fs = f1 @ f2" "r = r2" "p = p2" "\<not> l1" "\<not> l2"
    using host_rx.deframe_append [OF d1 d2] Cons.prems(2) by auto
  define c1 where "c1 = ctx\<lparr>rx_queue := rx_queue ctx @ f1, rx_stream := r1, rx_pad_expected := p1\<rparr>"
  obtain c a1 where run: "esp_usb_ingest_stream env d ctx a = (c, a1)" by fastforce
  with ingest_stream_clean [OF Cons.prems(1) assms(2), of d f1 r1 p1 a] d1 all have c: "c = c1"
    by (simp add: c1_def)
  have "rx_settled c1"
    using host_rx.deframe_settled [OF d1] Cons.prems(1) by (simp add: rx_settled_def c1_def)
  then have "fst (host_ingest_all env ds c1 a1) =
      c1\<lparr>rx_queue := rx_queue c1 @ f2, rx_stream := r2, rx_pad_expected := p2\<rparr>"
    using Cons.IH [of c1 f2 a1] d2 all by (simp add: c1_def)
  with run c all show ?case by (simp add: c1_def)
qed

text \<open>The firmware's padding at high speed is the host's expectation.\<close>

lemma pad_rules_agree: "fw_pad_rule 512 = usb_pad_rule 512"
  by (rule ext) (auto simp: fw_pad_rule_def usb_pad_rule_def)

text \<open>A sequence of complete writes: the handles with the polls of each write, and the bytes
  each put on the wire.\<close>

definition fw_wrote ::
  "esp_usb_device_ctx \<Rightarrow> bool \<Rightarrow> u32 \<Rightarrow> (interface_buffer_handle \<times> tud_poll list) \<Rightarrow> bytes \<Rightarrow> bool" where
  "fw_wrote c buffered deadline w out \<longleftrightarrow>
     fw_usb_write True buffered deadline (snd w) (fst w) c = Some (int (length (bh_payload (fst w))), out) \<and>
     bh_payload (fst w) \<noteq> [] \<and> ucast (bh_if_type (fst w)) < (7 :: u4)"

lemma fw_wrote_emit:
  assumes "fw_wrote c buffered deadline w out" "fd_ep_mps c = 512"
  shows "out = emit (usb_pad_rule 512) (usb_build_frame (fst w))"
    and "complete_frame esp_usb_valid_header (usb_build_frame (fst w))"
proof -
  have w: "fw_usb_write True buffered deadline (snd w) (fst w) c =
      Some (int (length (bh_payload (fst w))), out)" "bh_payload (fst w) \<noteq> []" "ucast (bh_if_type (fst w)) < (7 :: u4)"
    using assms by (auto simp: fw_wrote_def)
  note o = fw_usb_write_out [OF w(1)]
  show "out = emit (usb_pad_rule 512) (usb_build_frame (fst w))"
    using o(1) w(2) assms(2) by (simp add: pad_rules_agree)
  show "complete_frame esp_usb_valid_header (usb_build_frame (fst w))"
    using build_frame_valid [OF w(2) o(3) w(3)] w(2) by (simp add: header_checks_agree)
qed

lemma device_to_host:
  assumes "list_all2 (fw_wrote c buffered deadline) ws outs" "fd_ep_mps c = 512"
    and "rx_settled ctx" "rx_stream ctx = []" "\<not> rx_pad_expected ctx" "bulk_in_mps ctx = 512"
    and "\<forall>n c. ue_alloc_skb env n c" "concat transfers = concat outs"
  shows "fst (host_ingest_all env transfers ctx a) =
    ctx\<lparr>rx_queue := rx_queue ctx @ map (usb_build_frame \<circ> fst) ws\<rparr>"
proof -
  have outs: "outs = map (emit (usb_pad_rule 512)) (map (usb_build_frame \<circ> fst) ws)"
    and ok: "\<forall>f \<in> set (map (usb_build_frame \<circ> fst) ws). complete_frame esp_usb_valid_header f"
    using assms(1) by (induction rule: list_all2_induct) (auto dest: fw_wrote_emit [OF _ assms(2)])
  have "host_deframe (bulk_in_mps ctx) (rx_pad_expected ctx) (rx_stream ctx @ concat transfers) =
      (map (usb_build_frame \<circ> fst) ws, [], False, False)"
    using host_rx.deframe_emit [OF ok, of 512] assms(4-6,8) outs by simp
  from host_ingest_all_clean [OF assms(3,7) this, of a] assms(4,5) show ?thesis
    by (cases ctx) simp
qed

section \<open>Host to device\<close>

text \<open>The host submits one frame per URB and terminates it with a zero-length packet, so the
  stream is the concatenation of the frames.\<close>

lemma host_to_device:
  assumes "\<forall>f \<in> set skbs. complete_frame esp_usb_valid_header f" "\<forall>n c. malloc n c"
    and "fd_rx_queue c = Some q" "fd_rx_stream c = []" "length q + length skbs \<le> 32"
  shows "usb_ingest malloc (concat skbs) c rcp =
    (ESP_OK, c\<lparr>fd_rx_queue := Some (q @ map usb_frame_handle skbs)\<rparr>, rcp)"
proof -
  have "fw_deframe (concat (map (emit (\<lambda>_. False)) skbs)) = (skbs, [], False, False)"
    by (rule fw_rx.deframe_emit) (use assms(1) in \<open>simp add: header_checks_agree\<close>)
  then have d: "fw_deframe (fd_rx_stream c @ concat skbs) = (skbs, [], False, False)"
    using assms(4) by (simp add: emit_def cong: map_cong)
  from fw_ingest_clean [OF assms(2,3) d assms(5)] assms(4) show ?thesis
    by (cases c) (simp add: fw_received_def)
qed

section \<open>Full speed\<close>

text \<open>At full speed the bulk packets have 64 bytes, the host expects a pad byte after every
  64-byte boundary, and the firmware, which keeps 512, does not send one. Two station data
  frames: the first ends on such a boundary, the second begins with a zero byte, which the
  host takes for padding.\<close>

definition fs_handle :: "nat \<Rightarrow> interface_buffer_handle" where
  "fs_handle n = \<lparr>bh_if_type = 0, bh_if_num = 0, bh_payload = replicate n 1, bh_flag = 0,
     bh_raw_tp_seq = 0, bh_pkt_type = PACKET_TYPE_DATA, bh_slot = None\<rparr>"

lemma full_speed_second_frame_lost:
  "host_deframe 64 False (concat (map (emit (fw_pad_rule 512) \<circ> usb_build_frame \<circ> fs_handle) [52, 1])) =
     ([usb_build_frame (fs_handle 52)], drop 2 (usb_build_frame (fs_handle 1)), False, True)"
proof -
  let ?f = "usb_build_frame (fs_handle 52)"
  have f: "complete_frame esp_usb_valid_header ?f" "length ?f = 64"
    using build_frame_valid [of "fs_handle 52"] length_usb_build_frame [of "fs_handle 52"]
    by (simp_all add: fs_handle_def header_checks_agree)
  have g: "usb_build_frame (fs_handle 1) = [0, 0, 0, 0, 1, 0, 12, 0, 0, 0, 0, 0, 1]"
    by code_simp
  obtain h where h: "header_of ?f = Some h" "esp_usb_valid_header h = Some 64"
    using f by (auto simp: complete_frame_iff)
  let ?g = "[0, 0, 0, 0, 1, 0, 12, 0, 0, 0, 0, 0, 1] :: bytes"
  have "host_deframe 64 False (?f @ ?g) =
     (case host_deframe 64 True ?g of (fs, r, p, l) \<Rightarrow> (?f # fs, r, p, l))"
    using deframe_frame [where v = esp_usb_valid_header and q = "usb_pad_rule 64" and s = "?f @ ?g", of h 64]
      header_of_append [OF h(1)] h(2) f(2) by (simp add: usb_pad_rule_def)
  moreover have "host_deframe 64 True ?g = ([], drop 2 ?g, False, True)"
  proof -
    have "Option.bind (header_of (tl ?g)) esp_usb_valid_header = None" by code_simp
    moreover have "header_of (tl ?g) \<noteq> None" by (simp add: header_of_eq_None_iff)
    ultimately obtain k where "header_of (tl ?g) = Some k" "esp_usb_valid_header k = None" by auto
    then show ?thesis by (simp add: deframe_strip deframe_invalid deframe_wait header_of_eq_None_iff)
  qed
  moreover have "emit (fw_pad_rule 512) ?f = ?f" "emit (fw_pad_rule 512) ?g = ?g"
    using f(2) by (simp_all add: emit_def fw_pad_rule_def)
  ultimately show ?thesis using g by simp
qed

end
