(* ===== verification/Boot_Event.thy ===== *)
theory Boot_Event
  imports Usb_Link
begin

text \<open>
  The firmware boot event on the host (\<^verbatim>\<open>host/main.c\<close>): structural checks of the event,
  the TLV parser with its metadata, the version check, the validation of the announced
  capabilities, and the whole handler \<open>process_event_esp_bootup\<close> that tears the old
  incarnation down and brings the new one up. Interface and radio set-up (\<open>esp_add_card\<close>,
  \<open>esp_init_rcp\<close>, ...) are functions of the environment record. Shown: accepted metadata is
  well formed and depends on the event alone, every failure requests a counted retry, and
  the event the USB firmware builds is accepted and read back exactly.
\<close>

section \<open>Metadata\<close>

abbreviation (input) ESP_WLAN_SDIO_SUPPORT :: u32 where "ESP_WLAN_SDIO_SUPPORT \<equiv> 0x001"
abbreviation (input) ESP_BT_SDIO_SUPPORT :: u32 where "ESP_BT_SDIO_SUPPORT \<equiv> 0x004"
abbreviation (input) ESP_WLAN_SPI_SUPPORT :: u32 where "ESP_WLAN_SPI_SUPPORT \<equiv> 0x020"
abbreviation (input) ESP_BT_SPI_SUPPORT :: u32 where "ESP_BT_SPI_SUPPORT \<equiv> 0x040"
abbreviation (input) ESP_CHECKSUM_ENABLED :: u32 where "ESP_CHECKSUM_ENABLED \<equiv> 0x080"
abbreviation (input) ESP_WLAN_USB_SUPPORT :: u32 where "ESP_WLAN_USB_SUPPORT \<equiv> 0x200"
abbreviation (input) ESP_BT_USB_SUPPORT :: u32 where "ESP_BT_USB_SUPPORT \<equiv> 0x400"
abbreviation (input) ESP_EXT_CAP_RCP :: u32 where "ESP_EXT_CAP_RCP \<equiv> 0x40"
abbreviation (input) ESP_EXT_CAP_RADIO_SERVICE_CTRL :: u32
  where "ESP_EXT_CAP_RADIO_SERVICE_CTRL \<equiv> 0x4000"
abbreviation (input) ESP_FIRMWARE_CHIP_UNRECOGNIZED :: u8 where "ESP_FIRMWARE_CHIP_UNRECOGNIZED \<equiv> 0xff"
abbreviation (input) ESP_TX_AGGR_SIZE_MAX :: u32 where "ESP_TX_AGGR_SIZE_MAX \<equiv> 15872"
abbreviation (input) ESP_USB_TX_AGGR_SIZE_MAX :: u32 where "ESP_USB_TX_AGGR_SIZE_MAX \<equiv> 16384"
abbreviation (input) ESP_TX_AGGR_SIZE_ALIGN :: u32 where "ESP_TX_AGGR_SIZE_ALIGN \<equiv> 512"

text \<open>Boot metadata belongs to one firmware incarnation and is cleared first.\<close>

definition boot_reset_metadata :: "'c esp_adapter \<Rightarrow> 'c esp_adapter" where
  "boot_reset_metadata a =
     a\<lparr>capabilities := 0, ext_capabilities := 0, rcp_session_nonce := 0, base_mac := replicate 6 0,
       base_mac_count := 0, base_mac_present := False, radio_service_active := 0,
       radio_service_flags := 0, chipset := ESP_FIRMWARE_CHIP_UNRECOGNIZED, tx_aggr_size := 0\<rparr>"

text \<open>The locals \<open>seen_...\<close>.\<close>

record boot_seen =
  seen_capability :: bool
  seen_chipset :: bool
  seen_fw_data :: bool
  seen_rx_buf_size :: bool
  seen_spi_clk :: bool
  seen_ext_capability :: bool
  seen_rcp_nonce :: bool

definition nothing_seen :: boot_seen where
  "nothing_seen = \<lparr>seen_capability = False, seen_chipset = False, seen_fw_data = False,
     seen_rx_buf_size = False, seen_spi_clk = False, seen_ext_capability = False,
     seen_rcp_nonce = False\<rparr>"

text \<open>What the handler calls outside this file: the transport's chipset check and clock
  change, removal and creation of interfaces, OTA, raw-throughput set-up, radio endpoints.
  \<open>None\<close>: not requested. A negative first component is an error.\<close>

record 'c boot_env =
  be_validate_chipset :: "u8 \<Rightarrow> 'c esp_adapter \<Rightarrow> int \<times> 'c esp_adapter"
  be_adjust_spi_clock :: "u8 \<Rightarrow> 'c esp_adapter \<Rightarrow> int \<times> 'c esp_adapter"
  be_remove_card :: "bool \<Rightarrow> 'c esp_adapter \<Rightarrow> int \<times> 'c esp_adapter"
  be_wiphy_stale :: "'c esp_adapter \<Rightarrow> bool"
  be_remove_wiphy :: "'c esp_adapter \<Rightarrow> int \<times> 'c esp_adapter"
  be_add_card :: "'c esp_adapter \<Rightarrow> int \<times> 'c esp_adapter"
  be_ota :: "('c esp_adapter \<Rightarrow> int \<times> 'c esp_adapter) option"
  be_raw_tp :: "('c esp_adapter \<Rightarrow> int \<times> 'c esp_adapter) option"
  be_publish :: "'c esp_adapter \<Rightarrow> int \<times> 'c esp_adapter"
  be_restore_monitor :: "'c esp_adapter \<Rightarrow> int \<times> 'c esp_adapter"
  be_raw_tp_start :: "'c esp_adapter \<Rightarrow> int \<times> 'c esp_adapter"
  be_init_rcp :: "'c esp_adapter \<Rightarrow> int \<times> 'c esp_adapter"
  be_init_bt :: "'c esp_adapter \<Rightarrow> int \<times> 'c esp_adapter"
  be_deinit_bt :: "'c esp_adapter \<Rightarrow> 'c esp_adapter"

section \<open>Version check\<close>

text \<open>\<open>%u\<close> of a byte.\<close>

definition dec_u8 :: "u8 \<Rightarrow> string" where
  "dec_u8 b =
     (let n = unat b; digit = (\<lambda>d. char_of (48 + d :: nat))
      in if n < 10 then [digit n]
         else if n < 100 then [digit (n div 10), digit (n mod 10)]
         else [digit (n div 100), digit (n div 10 mod 10), digit (n mod 10)])"

text \<open>\<open>"%.*s-%u.%u.%u.%u.%u"\<close> with the three-byte name; at most 23 characters, so the
  50-byte buffer never truncates.\<close>

fun version_string :: "bytes \<Rightarrow> string" where
  "version_string [p0, p1, p2, ma1, ma2, mi, r1, r2] =
     map (\<lambda>b. char_of (unat b)) (takeWhile (\<lambda>b. b \<noteq> 0) [p0, p1, p2]) @ ''-'' @
     dec_u8 ma1 @ ''.'' @ dec_u8 ma2 @ ''.'' @ dec_u8 mi @ ''.'' @ dec_u8 r1 @ ''.'' @ dec_u8 r2"
| "version_string _ = []"

definition RELEASE_VERSION :: string where
  "RELEASE_VERSION = ''NG-1.0.6.0.23''"

definition check_esp_version :: "bytes \<Rightarrow> int" where
  "check_esp_version ver = (if version_string ver \<noteq> RELEASE_VERSION then -1 else 0)"

definition process_fw_data :: "bytes \<Rightarrow> int" where
  "process_fw_data fw = (if length fw \<noteq> 12 then -1 else check_esp_version (take 8 fw))"

section \<open>TLV parser\<close>

definition is_valid_ether_addr :: "bytes \<Rightarrow> bool" where
  "is_valid_ether_addr m \<longleftrightarrow> hd m AND 1 = 0 \<and> (\<exists>b \<in> set m. b \<noteq> 0)"

definition tx_aggr_invalid :: "u8 \<Rightarrow> u32 \<Rightarrow> bool" where
  "tx_aggr_invalid if_type sz \<longleftrightarrow>
     sz = 0 \<or>
     (if if_type = ESP_IF_TYPE_USB then ESP_USB_TX_AGGR_SIZE_MAX < sz else ESP_TX_AGGR_SIZE_MAX < sz) \<or>
     (if_type \<noteq> ESP_IF_TYPE_SPI \<and> sz mod ESP_TX_AGGR_SIZE_ALIGN \<noteq> 0)"

text \<open>One tag with its value bytes: the new \<open>ret\<close> (negative: fail), flags and adapter.\<close>

definition boot_tlv ::
  "'c boot_env \<Rightarrow> u8 \<Rightarrow> bytes \<Rightarrow> boot_seen \<Rightarrow> 'c esp_adapter \<Rightarrow> int \<times> boot_seen \<times> 'c esp_adapter" where
  "boot_tlv env tag v seen a =
     (if tag = ESP_BOOTUP_CAPABILITY then
        (if seen_capability seen then (- EPROTO, seen, a)
         else if length v = 1 \<or> length v = 2 \<or> length v = 4
         then (0, seen\<lparr>seen_capability := True\<rparr>, a\<lparr>capabilities := le_word v\<rparr>)
         else (- EINVAL, seen, a))
      else if tag = ESP_BOOTUP_EXT_CAPABILITY then
        (if seen_ext_capability seen \<or> length v \<noteq> 4 then (- EPROTO, seen, a)
         else (0, seen\<lparr>seen_ext_capability := True\<rparr>, a\<lparr>ext_capabilities := le_word v\<rparr>))
      else if tag = ESP_BOOTUP_BASE_MAC_INFO then
        (if base_mac_present a \<or> length v \<noteq> MAC_ADDR_LEN + 1 \<or>
            \<not> is_valid_ether_addr (take MAC_ADDR_LEN v) \<or> v ! 6 \<notin> {1, 2, 4} then (- EPROTO, seen, a)
         else (0, seen, a\<lparr>base_mac := take MAC_ADDR_LEN v, base_mac_count := v ! 6,
                          base_mac_present := True\<rparr>))
      else if tag = ESP_BOOTUP_RCP_SESSION_NONCE then
        (if seen_rcp_nonce seen \<or> length v \<noteq> 8 then (- EPROTO, seen, a)
         else (0, seen\<lparr>seen_rcp_nonce := True\<rparr>, a\<lparr>rcp_session_nonce := le_word v\<rparr>))
      else if tag = ESP_BOOTUP_RX_BUF_SIZE then
        (if seen_rx_buf_size seen then (- EPROTO, seen, a)
         else if length v \<noteq> 4 then (- EINVAL, seen, a)
         else let a = a\<lparr>tx_aggr_size := le_word v\<rparr>
              in if tx_aggr_invalid (ad_if_type a) (tx_aggr_size a) then (- EINVAL, seen, a)
                 else (0, seen\<lparr>seen_rx_buf_size := True\<rparr>, a))
      else if tag = ESP_BOOTUP_FIRMWARE_CHIP_ID then
        (if seen_chipset seen then (- EPROTO, seen, a)
         else if length v \<noteq> 1 then (- EINVAL, seen, a)
         else let (ret, a) = be_validate_chipset env (v ! 0) a
              in (ret, if ret = 0 then seen\<lparr>seen_chipset := True\<rparr> else seen, a))
      else if tag = ESP_BOOTUP_FW_DATA then
        (if seen_fw_data seen then (- EPROTO, seen, a)
         else if length v \<noteq> 12 then (- EINVAL, seen, a)
         else let ret = process_fw_data v
              in (ret, if ret = 0 then seen\<lparr>seen_fw_data := True\<rparr> else seen, a))
      else if tag = ESP_BOOTUP_SPI_CLK_MHZ then
        (if seen_spi_clk seen then (- EPROTO, seen, a)
         else if length v \<noteq> 1 \<or> v ! 0 = 0 then (- EINVAL, seen, a)
         else let (ret, a) = be_adjust_spi_clock env (v ! 0) a
              in (ret, if ret = 0 then seen\<lparr>seen_spi_clk := True\<rparr> else seen, a))
      else (0, seen, a))"

function boot_tlvs ::
  "'c boot_env \<Rightarrow> bytes \<Rightarrow> boot_seen \<Rightarrow> 'c esp_adapter \<Rightarrow> int \<times> boot_seen \<times> 'c esp_adapter" where
  "boot_tlvs env [] seen a = (0, seen, a)"
| "boot_tlvs env [t] seen a = (- EINVAL, seen, a)"
| "boot_tlvs env (t # l # rest) seen a =
     (if length rest < unat l then (- EINVAL, seen, a)
      else let (ret, seen, a) = boot_tlv env t (take (unat l) rest) seen a
           in if ret < 0 then (ret, seen, a)
              else boot_tlvs env (drop (unat l) rest) seen a)"
  by pat_completeness auto
termination
  by (relation "measure (\<lambda>(e, bs, s, a). length bs)") auto

section \<open>Validation\<close>

definition boot_transport_cap :: "'c esp_adapter \<Rightarrow> int" where
  "boot_transport_cap a =
     (if ad_if_type a = ESP_IF_TYPE_SPI
      then (if capabilities a AND ESP_WLAN_SPI_SUPPORT = 0 then - EPROTO else 0)
      else if ad_if_type a = ESP_IF_TYPE_SDIO
      then (if capabilities a AND ESP_WLAN_SDIO_SUPPORT = 0 then - EPROTO else 0)
      else if ad_if_type a = ESP_IF_TYPE_USB
      then (if capabilities a AND ESP_WLAN_USB_SUPPORT = 0 then - EPROTO else 0)
      else - EINVAL)"

definition boot_rcp_nonce_check :: "boot_seen \<Rightarrow> 'c esp_adapter \<Rightarrow> int" where
  "boot_rcp_nonce_check seen a =
     (if seen_rcp_nonce seen \<and> ext_capabilities a AND ESP_EXT_CAP_RCP = 0 then - EPROTO
      else if ext_capabilities a AND ESP_EXT_CAP_RCP \<noteq> 0 \<and>
              ext_capabilities a AND ESP_EXT_CAP_RADIO_SERVICE_CTRL = 0 \<and>
              (\<not> seen_rcp_nonce seen \<or> rcp_session_nonce a = 0) then - EPROTO
      else if ext_capabilities a AND ESP_EXT_CAP_RADIO_SERVICE_CTRL \<noteq> 0 \<and>
              seen_rcp_nonce seen \<and> rcp_session_nonce a = 0 then - EPROTO
      else 0)"

text \<open>From the end of the loop to the decision to bring the transport up again.\<close>

definition boot_validate ::
  "'c boot_env \<Rightarrow> boot_seen \<Rightarrow> 'c esp_adapter \<Rightarrow> int \<times> 'c esp_adapter" where
  "boot_validate env seen a =
     (if \<not> seen_capability seen \<or> \<not> seen_chipset seen \<or> \<not> seen_fw_data seen then (- EPROTO, a)
      else if boot_transport_cap a \<noteq> 0 then (boot_transport_cap a, a)
      else if chipset a = ESP_FIRMWARE_CHIP_UNRECOGNIZED then (- EPROTO, a)
      else
        let (ret, a) = (if ad_if_type a = ESP_IF_TYPE_SPI \<and> \<not> seen_spi_clk seen
                        then be_adjust_spi_clock env 0 a else (0, a))
        in if ret \<noteq> 0 then (ret, a) else (boot_rcp_nonce_check seen a, a))"

section \<open>The handler\<close>

definition boot_going_away :: "'c esp_adapter \<Rightarrow> bool" where
  "boot_going_away a \<longleftrightarrow> test_bit ESP_DRIVER_UNLOADING a \<or> test_bit ESP_TRANSPORT_REMOVING a"

text \<open>The flags at entry; whether this is a re-initialisation.\<close>

definition boot_enter :: "'c esp_adapter \<Rightarrow> bool \<times> 'c esp_adapter" where
  "boot_enter a =
     (let a = cancel_recovery_work a;
          reinitializing = test_bit ESP_INIT_DONE a \<or> test_bit ESP_FW_RECOVERY_PENDING a \<or>
                           test_bit ESP_FW_RESET_EXPECTED a;
          a = (if reinitializing then set_bit ESP_FW_RECOVERY_PENDING a else a);
          a = clear_bit ESP_INIT_DONE a;
          a = clear_bit ESP_FW_RESTART_NEEDED a;
          a = clear_bit ESP_FW_RADIO_INIT_PENDING a
      in (reinitializing, boot_reset_metadata a))"

text \<open>Tear-down of the previous incarnation.\<close>

definition boot_teardown ::
  "'c boot_env \<Rightarrow> 'c esp_if_ops \<Rightarrow> 'c esp_adapter \<Rightarrow> int \<times> 'c esp_adapter" where
  "boot_teardown env ops a =
     (let a = set_bit ESP_CLEANUP_IN_PROGRESS a;
          a = a\<lparr>events_skb_q := []\<rparr>;
          (ret, a) = (case if_op op_quiesce_for_fw_reset ops a of
                        None \<Rightarrow> (0, a) | Some quiesce \<Rightarrow> quiesce a)
      in if ret \<noteq> 0 then (ret, a) else be_remove_card env False a)"

text \<open>The error exits: \<open>fail\<close> and \<open>fail_after_commit\<close>.\<close>

definition boot_fail ::
  "kernel_env \<Rightarrow> 'c esp_if_ops \<Rightarrow> int \<Rightarrow> 'c esp_adapter \<Rightarrow> int \<times> 'c esp_adapter" where
  "boot_fail kenv ops ret a =
     (if ret < 0 then ret else -1,
      esp_bootup_request_retry kenv ops (esp_clear_reconstruct_flag a))"

definition boot_fail_after_commit ::
  "'c boot_env \<Rightarrow> kernel_env \<Rightarrow> 'c esp_if_ops \<Rightarrow> int \<Rightarrow> 'c esp_adapter \<Rightarrow> int \<times> 'c esp_adapter" where
  "boot_fail_after_commit env kenv ops ret a =
     (let a = set_bit ESP_CLEANUP_IN_PROGRESS a;
          a = clear_bit ESP_INIT_DONE a;
          a = be_deinit_bt env a;
          (_, a) = be_remove_card env True a
      in boot_fail kenv ops ret a)"

text \<open>After the commit: publish the interfaces, then the radio endpoints.\<close>

definition boot_publish ::
  "'c boot_env \<Rightarrow> kernel_env \<Rightarrow> 'c esp_if_ops \<Rightarrow> 'c esp_adapter \<Rightarrow> int \<times> 'c esp_adapter" where
  "boot_publish env kenv ops a =
     (let fail = boot_fail_after_commit env kenv ops;
          (ret, a) = be_publish env a
      in if ret \<noteq> 0 then fail ret a
         else let (ret, a) = be_restore_monitor env a
         in if ret \<noteq> 0 then fail ret a
         else let (ret, a) = be_raw_tp_start env a
         in if ret \<noteq> 0 then fail ret a
         else if ext_capabilities a AND ESP_EXT_CAP_RADIO_SERVICE_CTRL \<noteq> 0
         then (0, (set_bit ESP_FW_RADIO_INIT_PENDING a)\<lparr>radio_service_work := True\<rparr>)
         else let (ret, a) = (if ext_capabilities a AND ESP_EXT_CAP_RCP \<noteq> 0
                              then be_init_rcp env a else (0, a))
         in if ret \<noteq> 0 then fail ret a
         else let (ret, a) = be_init_bt env a
         in if ret \<noteq> 0 then fail ret a
         else (0, esp_finish_reconstruction ops a))"

text \<open>From the accepted event to the commit.\<close>

definition boot_reconstruct ::
  "'c boot_env \<Rightarrow> kernel_env \<Rightarrow> 'c esp_if_ops \<Rightarrow> bool \<Rightarrow> 'c esp_adapter \<Rightarrow> int \<times> 'c esp_adapter" where
  "boot_reconstruct env kenv ops reinitializing a =
     (let (ret, a) = (if reinitializing
                      then case if_op op_reinit_after_fw_reset ops a of
                             None \<Rightarrow> (0, a) | Some reinit \<Rightarrow> reinit a
                      else (0, a))
      in if ret \<noteq> 0 then boot_fail kenv ops ret a
         else let a = (esp_begin_reconstruction a)\<lparr>ad_state := ESP_CONTEXT_READY\<rparr>;
                  (ret, a) = (if be_wiphy_stale env a then be_remove_wiphy env a else (0, a))
         in if ret \<noteq> 0 then boot_fail kenv ops ret a
         else let (ret, a) = be_add_card env a
         in if ret \<noteq> 0 then boot_fail kenv ops ret a
         else let (ota_ret, a) = (case be_ota env of None \<Rightarrow> (1, a) | Some ota \<Rightarrow> ota a)
         in if be_ota env \<noteq> None \<and> ota_ret = 0
         then (0, esp_schedule_recovery ops ESP_OTA_RECOVERY_DELAY_MS True True
                    (esp_clear_reconstruct_flag a))
         else if be_ota env \<noteq> None \<and> test_bit ESP_FW_RESET_EXPECTED a
         then boot_fail kenv ops ota_ret a
         else let (ret, a) = (case be_raw_tp env of None \<Rightarrow> (0, a) | Some raw_tp \<Rightarrow> raw_tp a)
         in if ret \<noteq> 0 then boot_fail kenv ops ret a
         else boot_publish env kenv ops (esp_commit_reconstruction a))"

definition process_event_esp_bootup ::
  "'c boot_env \<Rightarrow> kernel_env \<Rightarrow> 'c esp_if_ops \<Rightarrow> bytes \<Rightarrow> 'c esp_adapter \<Rightarrow> int \<times> 'c esp_adapter" where
  "process_event_esp_bootup env kenv ops evt a =
     (if boot_going_away a then (- ESHUTDOWN, a)
      else
        let (reinitializing, a) = boot_enter a;
            (ret, a) = (if reinitializing then boot_teardown env ops a else (0, a))
        in if ret \<noteq> 0 then boot_fail kenv ops ret a
           else if reinitializing \<and> boot_going_away a then (- ESHUTDOWN, a)
           else
             let (ret, seen, a) = boot_tlvs env evt nothing_seen a
             in if ret < 0 then boot_fail kenv ops ret a
                else if boot_going_away a then (- ESHUTDOWN, a)
                else
                  let (ret, a) = boot_validate env seen a
                  in if ret \<noteq> 0 then boot_fail kenv ops ret a
                     else boot_reconstruct env kenv ops reinitializing a)"

section \<open>Structure of the event\<close>

definition esp_bootup_event_structurally_valid :: "bytes \<Rightarrow> bool" where
  "esp_bootup_event_structurally_valid skb \<longleftrightarrow>
     8 \<le> length skb \<and> skb ! 1 = 0 \<and> unat (skb ! 4) \<le> length skb - 8"

fun legacy_rcp_tlvs :: "bytes \<Rightarrow> u32 option \<Rightarrow> bool" where
  "legacy_rcp_tlvs (t # l # rest) ext =
     (if length rest < unat l then False
      else if t = ESP_BOOTUP_EXT_CAPABILITY \<and> l = 4
      then (if ext \<noteq> None then False
            else legacy_rcp_tlvs (drop (unat l) rest) (Some (le_word (take 4 rest))))
      else legacy_rcp_tlvs (drop (unat l) rest) ext)"
| "legacy_rcp_tlvs _ ext =
     (case ext of
        None \<Rightarrow> False
      | Some e \<Rightarrow> e AND ESP_EXT_CAP_RCP \<noteq> 0 \<and> e AND ESP_EXT_CAP_RADIO_SERVICE_CTRL = 0)"

definition esp_bootup_event_legacy_rcp_active :: "bytes \<Rightarrow> bool" where
  "esp_bootup_event_legacy_rcp_active skb \<longleftrightarrow>
     esp_bootup_event_structurally_valid skb \<and>
     legacy_rcp_tlvs (take (unat (skb ! 4)) (drop 8 skb)) None"

definition process_esp_bootup_event ::
  "'c boot_env \<Rightarrow> kernel_env \<Rightarrow> 'c esp_if_ops \<Rightarrow> bytes \<Rightarrow> 'c esp_adapter \<Rightarrow> 'c esp_adapter" where
  "process_esp_bootup_event env kenv ops skb a =
     (if \<not> esp_bootup_event_structurally_valid skb
      then esp_request_firmware_restart kenv ops (esp_schedule_fw_reset_recovery ops a)
      else snd (process_event_esp_bootup env kenv ops (take (unat (skb ! 4)) (drop 8 skb)) a))"

definition process_internal_event ::
  "'c boot_env \<Rightarrow> kernel_env \<Rightarrow> 'c esp_if_ops \<Rightarrow> bytes \<Rightarrow> 'c esp_adapter \<Rightarrow> int \<times> 'c esp_adapter" where
  "process_internal_event env kenv ops skb a =
     (if length skb < 4 then (- EMSGSIZE, a)
      else if skb ! 0 = ESP_INTERNAL_BOOTUP_EVENT
      then (0, process_esp_bootup_event env kenv ops skb a)
      else (0, a))"

section \<open>What the handler relies on of a transport\<close>

definition boot_meta ::
  "'c esp_adapter \<Rightarrow> u8 \<times> u32 \<times> u32 \<times> u64 \<times> bytes \<times> u8 \<times> bool \<times> u8 \<times> u32" where
  "boot_meta a = (ad_if_type a, capabilities a, ext_capabilities a, rcp_session_nonce a, base_mac a,
     base_mac_count a, base_mac_present a, chipset a, tx_aggr_size a)"

lemma boot_metaD:
  assumes "boot_meta a = boot_meta b"
  shows "ad_if_type a = ad_if_type b" "capabilities a = capabilities b"
    "ext_capabilities a = ext_capabilities b" "rcp_session_nonce a = rcp_session_nonce b"
    "base_mac a = base_mac b" "base_mac_count a = base_mac_count b"
    "base_mac_present a = base_mac_present b" "chipset a = chipset b" "tx_aggr_size a = tx_aggr_size b"
  using assms by (simp_all add: boot_meta_def)

text \<open>Well-formed metadata at any point of the loop.\<close>

definition meta_ok :: "(u8 \<Rightarrow> bool) \<Rightarrow> boot_seen \<Rightarrow> 'c esp_adapter \<Rightarrow> bool" where
  "meta_ok chip_ok seen a \<longleftrightarrow>
     (if seen_rx_buf_size seen then \<not> tx_aggr_invalid (ad_if_type a) (tx_aggr_size a)
      else tx_aggr_size a = 0) \<and>
     (base_mac_present a \<longrightarrow> length (base_mac a) = 6 \<and> is_valid_ether_addr (base_mac a) \<and>
        base_mac_count a \<in> {1, 2, 4}) \<and>
     (seen_chipset seen \<longrightarrow> chip_ok (chipset a)) \<and>
     (\<not> seen_rcp_nonce seen \<longrightarrow> rcp_session_nonce a = 0) \<and>
     (\<not> seen_ext_capability seen \<longrightarrow> ext_capabilities a = 0)"

lemma meta_ok_cong:
  "boot_meta a = boot_meta b \<Longrightarrow> meta_ok chip_ok seen a = meta_ok chip_ok seen b"
  using boot_metaD [of a b] by (simp add: meta_ok_def)

locale boot_transport =
  fixes env :: "'c boot_env" and chip_ok :: "u8 \<Rightarrow> bool" and adj :: "u8 \<Rightarrow> int"
  assumes validate: "be_validate_chipset env v a =
      (if chip_ok v then (0, a\<lparr>chipset := v\<rparr>) else (- ENODEV, a\<lparr>chipset := ESP_FIRMWARE_CHIP_UNRECOGNIZED\<rparr>))"
    and chip_unrecognized: "\<not> chip_ok ESP_FIRMWARE_CHIP_UNRECOGNIZED"
    and adjust: "be_adjust_spi_clock env v a = (r, a') \<Longrightarrow>
      r = adj v \<and> boot_meta a' = boot_meta a \<and> state_flags a' = state_flags a"
begin

lemma tlv_cases:
  assumes "boot_tlv env tag v seen a = (ret, seen', a')" "0 \<le> ret"
  obtains (cap) "seen' = seen\<lparr>seen_capability := True\<rparr>" "a' = a\<lparr>capabilities := le_word v\<rparr>"
  | (ext) "seen' = seen\<lparr>seen_ext_capability := True\<rparr>" "a' = a\<lparr>ext_capabilities := le_word v\<rparr>"
  | (mac) "seen' = seen" "length v = 7" "is_valid_ether_addr (take 6 v)" "v ! 6 \<in> {1, 2, 4}"
      "a' = a\<lparr>base_mac := take 6 v, base_mac_count := v ! 6, base_mac_present := True\<rparr>"
  | (nonce) "seen' = seen\<lparr>seen_rcp_nonce := True\<rparr>" "a' = a\<lparr>rcp_session_nonce := le_word v\<rparr>"
  | (aggr) "seen' = seen\<lparr>seen_rx_buf_size := True\<rparr>" "a' = a\<lparr>tx_aggr_size := le_word v\<rparr>"
      "\<not> tx_aggr_invalid (ad_if_type a) (le_word v)"
  | (chip) "seen' = seen\<lparr>seen_chipset := True\<rparr>" "a' = a\<lparr>chipset := v ! 0\<rparr>" "chip_ok (v ! 0)"
  | (fw) "seen' = seen\<lparr>seen_fw_data := True\<rparr>" "a' = a"
  | (clk) "seen' = seen \<or> seen' = seen\<lparr>seen_spi_clk := True\<rparr>"
      "be_adjust_spi_clock env (v ! 0) a = (ret, a')"
  | (other) "seen' = seen" "a' = a"
proof -
  consider "tag = 0" | "tag = 6" | "tag = 8" | "tag = 7" | "tag = 5" | "tag = 3" | "tag = 1" | "tag = 2"
    | "tag \<notin> {0, 6, 8, 7, 5, 3, 1, 2}" by blast
  then show ?thesis
  proof cases
    case 1 then show ?thesis using assms cap by (simp add: boot_tlv_def split: if_splits)
  next
    case 2 then show ?thesis using assms ext by (simp add: boot_tlv_def split: if_splits)
  next
    case 3 then show ?thesis using assms mac by (simp add: boot_tlv_def split: if_splits)
  next
    case 4 then show ?thesis using assms nonce by (simp add: boot_tlv_def split: if_splits)
  next
    case 5 then show ?thesis using assms aggr by (simp add: boot_tlv_def Let_def split: if_splits)
  next
    case 6 then show ?thesis using assms chip by (simp add: boot_tlv_def validate Let_def split: if_splits)
  next
    case 7 then show ?thesis
      using assms fw by (simp add: boot_tlv_def Let_def process_fw_data_def check_esp_version_def split: if_splits)
  next
    case 8 then show ?thesis using assms clk
      by (cases "be_adjust_spi_clock env (v ! 0) a") (simp add: boot_tlv_def Let_def split: if_splits)
  next
    case 9 then show ?thesis using assms other by (simp add: boot_tlv_def)
  qed
qed

lemma tlv_ok:
  assumes "meta_ok chip_ok seen a" "boot_tlv env tag v seen a = (ret, seen', a')" "0 \<le> ret"
  shows "meta_ok chip_ok seen' a' \<and> ad_if_type a' = ad_if_type a \<and> state_flags a' = state_flags a"
  using assms(2,3)
proof (cases rule: tlv_cases)
  case clk
  from clk(1) have "meta_ok chip_ok seen' a' = meta_ok chip_ok seen a'"
    by (elim disjE) (simp_all add: meta_ok_def)
  moreover from adjust [OF clk(2)] have m: "boot_meta a' = boot_meta a" "state_flags a' = state_flags a"
    by simp_all
  ultimately show ?thesis
    using assms(1) meta_ok_cong [OF m(1), of chip_ok seen] boot_metaD(1) [OF m(1)] by simp
qed (use assms(1) in \<open>simp_all add: meta_ok_def\<close>)

lemma tlvs_ok:
  "meta_ok chip_ok seen a \<Longrightarrow> boot_tlvs env evt seen a = (ret, seen', a') \<Longrightarrow> 0 \<le> ret \<Longrightarrow>
   meta_ok chip_ok seen' a' \<and> ad_if_type a' = ad_if_type a \<and> state_flags a' = state_flags a"
proof (induction evt arbitrary: seen a rule: measure_induct_rule [where f = length])
  case (less evt)
  consider "evt = []" | t where "evt = [t]" | (tlv) t l rest where "evt = t # l # rest"
    by (metis list.exhaust)
  then show ?case
  proof cases
    case tlv
    obtain r s b where step: "boot_tlv env t (take (unat l) rest) seen a = (r, s, b)" by (metis prod_cases3)
    with less.prems tlv have r: "0 \<le> r" and "unat l \<le> length rest"
      and run: "boot_tlvs env (drop (unat l) rest) s b = (ret, seen', a')"
      by (auto split: if_splits)
    from tlv_ok [OF less.prems(1) step r] less.IH [OF _ _ run less.prems(3)] tlv show ?thesis by simp
  qed (use less.prems in auto)
qed

lemma tlv_meta:
  assumes "boot_meta a = boot_meta b"
    "boot_tlv env tag v seen a = (r, s, a')" "boot_tlv env tag v seen b = (r', s', b')"
  shows "r = r' \<and> s = s' \<and> boot_meta a' = boot_meta b'"
proof (cases "tag = 2")
  case False
  with assms boot_metaD [OF assms(1)] show ?thesis
    by (auto simp: boot_tlv_def validate Let_def boot_meta_def split: if_splits)
next
  case True
  obtain ra xa where a: "be_adjust_spi_clock env (v ! 0) a = (ra, xa)" by fastforce
  obtain rb xb where b: "be_adjust_spi_clock env (v ! 0) b = (rb, xb)" by fastforce
  from adjust [OF a] adjust [OF b] True assms a b show ?thesis
    by (auto simp: boot_tlv_def split: if_splits)
qed

lemma tlvs_meta:
  assumes "boot_meta a = boot_meta b"
    "boot_tlvs env evt seen a = (r, s, a')" "boot_tlvs env evt seen b = (r', s', b')"
  shows "r = r' \<and> s = s' \<and> boot_meta a' = boot_meta b'"
  using assms
proof (induction evt arbitrary: seen a b rule: measure_induct_rule [where f = length])
  case (less evt)
  consider "evt = []" | t where "evt = [t]" | (tlv) t l rest where "evt = t # l # rest"
    by (metis list.exhaust)
  then show ?case
  proof cases
    case tlv
    obtain r1 s1 a1 where 1: "boot_tlv env t (take (unat l) rest) seen a = (r1, s1, a1)" by (metis prod_cases3)
    obtain r2 s2 a2 where 2: "boot_tlv env t (take (unat l) rest) seen b = (r2, s2, a2)" by (metis prod_cases3)
    note m = tlv_meta [OF less.prems(1) 1 2]
    have len: "length (drop (unat l) rest) < length evt" using tlv by simp
    show ?thesis
    proof (cases "length rest < unat l \<or> r1 < 0")
      case True
      with less.prems tlv 1 2 m show ?thesis by (auto split: if_splits)
    next
      case False
      with less.prems tlv 1 2 m show ?thesis
        using less.IH [OF len, of a1 a2 s1] by auto
    qed
  qed (use less.prems in auto)
qed

lemma validate_meta:
  assumes "boot_meta a = boot_meta b"
    "boot_validate env seen a = (r, a')" "boot_validate env seen b = (r', b')"
  shows "r = r' \<and> boot_meta a' = boot_meta b'"
proof -
  obtain ra xa where a: "be_adjust_spi_clock env 0 a = (ra, xa)" by fastforce
  obtain rb xb where b: "be_adjust_spi_clock env 0 b = (rb, xb)" by fastforce
  have c: "boot_rcp_nonce_check seen x = boot_rcp_nonce_check seen y" "boot_transport_cap x = boot_transport_cap y"
    if "boot_meta x = boot_meta y" for x y :: "'c esp_adapter"
    using boot_metaD [OF that] by (simp_all add: boot_rcp_nonce_check_def boot_transport_cap_def)
  have "boot_meta xa = boot_meta xb" "ra = rb"
    using adjust [OF a] adjust [OF b] assms(1) by auto
  with c [OF assms(1)] c(1) [of xa xb] boot_metaD(1,8) [OF assms(1)] assms a b show ?thesis
    by (auto simp: boot_validate_def split: if_splits)
qed

end

section \<open>Accepted metadata\<close>

text \<open>The part of the handler that decides: parse the event on cleared metadata, validate.\<close>

definition boot_decide ::
  "'c boot_env \<Rightarrow> bytes \<Rightarrow> 'c esp_adapter \<Rightarrow> int \<times> 'c esp_adapter" where
  "boot_decide env evt a =
     (let (ret, seen, a) = boot_tlvs env evt nothing_seen (boot_reset_metadata a)
      in if ret < 0 then (ret, a) else boot_validate env seen a)"

definition boot_transport_bit :: "u8 \<Rightarrow> u32" where
  "boot_transport_bit if_type =
     (if if_type = ESP_IF_TYPE_SPI then ESP_WLAN_SPI_SUPPORT
      else if if_type = ESP_IF_TYPE_SDIO then ESP_WLAN_SDIO_SUPPORT else ESP_WLAN_USB_SUPPORT)"

text \<open>What an accepted event guarantees.\<close>

definition boot_accepted :: "(u8 \<Rightarrow> bool) \<Rightarrow> 'c esp_adapter \<Rightarrow> bool" where
  "boot_accepted chip_ok a \<longleftrightarrow>
     ad_if_type a \<in> {ESP_IF_TYPE_SDIO, ESP_IF_TYPE_SPI, ESP_IF_TYPE_USB} \<and>
     capabilities a AND boot_transport_bit (ad_if_type a) \<noteq> 0 \<and> chip_ok (chipset a) \<and>
     (tx_aggr_size a = 0 \<or> \<not> tx_aggr_invalid (ad_if_type a) (tx_aggr_size a)) \<and>
     (base_mac_present a \<longrightarrow> length (base_mac a) = 6 \<and> is_valid_ether_addr (base_mac a) \<and>
        base_mac_count a \<in> {1, 2, 4}) \<and>
     (ext_capabilities a AND ESP_EXT_CAP_RCP \<noteq> 0 \<and>
        ext_capabilities a AND ESP_EXT_CAP_RADIO_SERVICE_CTRL = 0 \<longrightarrow> rcp_session_nonce a \<noteq> 0) \<and>
     (rcp_session_nonce a \<noteq> 0 \<longrightarrow> ext_capabilities a AND ESP_EXT_CAP_RCP \<noteq> 0)"

lemma boot_accepted_cong: "boot_meta a = boot_meta b \<Longrightarrow> boot_accepted chip_ok a = boot_accepted chip_ok b"
  using boot_metaD [of a b] by (simp add: boot_accepted_def)

lemma meta_ok_reset: "meta_ok chip_ok nothing_seen (boot_reset_metadata a)"
  by (simp add: meta_ok_def nothing_seen_def boot_reset_metadata_def)

lemma boot_meta_reset: "ad_if_type a = ad_if_type b \<Longrightarrow> boot_meta (boot_reset_metadata a) = boot_meta (boot_reset_metadata b)"
  by (simp add: boot_meta_def boot_reset_metadata_def)

context boot_transport
begin

lemma validate_accepts:
  assumes "meta_ok chip_ok seen a" "boot_validate env seen a = (0, a')"
  shows "boot_accepted chip_ok a'" and "seen_capability seen" "seen_chipset seen" "seen_fw_data seen"
proof -
  have seen: "seen_capability seen" "seen_chipset seen" "seen_fw_data seen" "boot_transport_cap a = 0"
    using assms(2) by (auto simp: boot_validate_def split: if_splits)
  obtain r b where adj: "be_adjust_spi_clock env 0 a = (r, b)" by fastforce
  have "(a' = a \<or> a' = b) \<and> boot_rcp_nonce_check seen a' = 0"
    using assms(2) adj by (auto simp: boot_validate_def split: if_splits)
  moreover have "boot_meta b = boot_meta a" using adjust [OF adj] by simp
  ultimately have m: "boot_meta a' = boot_meta a" and n: "boot_rcp_nonce_check seen a' = 0" by auto
  have "boot_rcp_nonce_check seen a' = boot_rcp_nonce_check seen a"
    by (simp only: boot_rcp_nonce_check_def boot_metaD [OF m])
  with n have "boot_rcp_nonce_check seen a = 0" by simp
  then have "boot_accepted chip_ok a"
    using seen assms(1)
    by (auto simp: boot_accepted_def boot_transport_bit_def boot_transport_cap_def meta_ok_def
        boot_rcp_nonce_check_def split: if_splits)
  then show "boot_accepted chip_ok a'" using boot_accepted_cong [OF m] by simp
  from seen show "seen_capability seen" "seen_chipset seen" "seen_fw_data seen" by simp_all
qed

lemma decide_accepts:
  assumes "boot_decide env evt a = (0, a')"
  shows "boot_accepted chip_ok a'"
proof -
  obtain r s b where t: "boot_tlvs env evt nothing_seen (boot_reset_metadata a) = (r, s, b)" by (metis prod_cases3)
  with assms have "0 \<le> r" "boot_validate env s b = (0, a')" by (auto simp: boot_decide_def split: if_splits)
  with tlvs_ok [OF meta_ok_reset t] validate_accepts(1) show ?thesis by blast
qed

lemma decide_event_only:
  assumes "ad_if_type a = ad_if_type b" "boot_decide env evt a = (r, a')" "boot_decide env evt b = (r', b')"
  shows "r = r' \<and> boot_meta a' = boot_meta b'"
proof -
  obtain ra sa xa where a: "boot_tlvs env evt nothing_seen (boot_reset_metadata a) = (ra, sa, xa)" by (metis prod_cases3)
  obtain rb sb xb where b: "boot_tlvs env evt nothing_seen (boot_reset_metadata b) = (rb, sb, xb)" by (metis prod_cases3)
  note m = tlvs_meta [OF boot_meta_reset [OF assms(1)] a b]
  show ?thesis
  proof (cases "ra < 0")
    case True
    with assms(2,3) a b m show ?thesis by (auto simp: boot_decide_def)
  next
    case False
    with assms(2,3) a b m have "boot_validate env sa xa = (r, a')" "boot_validate env sa xb = (r', b')"
      by (simp_all add: boot_decide_def)
    with validate_meta m show ?thesis by blast
  qed
qed

end

section \<open>The USB transport\<close>

definition usb_boot_env :: "'c boot_env \<Rightarrow> 'c boot_env" where
  "usb_boot_env env = env\<lparr>be_validate_chipset := esp_validate_chipset,
     be_adjust_spi_clock := (\<lambda>_ a. (0, a))\<rparr>"

interpretation usb_boot: boot_transport "usb_boot_env env" "\<lambda>c. c = 0x20" "\<lambda>_. 0" for env
  by unfold_locales (auto simp: usb_boot_env_def esp_validate_chipset_def)

lemma boot_tlvs_append:
  assumes "boot_tlv env t v seen a = (0, seen', a')" "length v < 256"
  shows "boot_tlvs env ([t, of_nat (length v)] @ v @ rest) seen a = boot_tlvs env rest seen' a'"
  using assms by (simp add: unat_of_nat)

text \<open>What the host reads from the event the firmware builds.\<close>

definition boot_announced ::
  "u32 \<Rightarrow> u32 \<Rightarrow> bytes option \<Rightarrow> u8 \<Rightarrow> 'c esp_adapter \<Rightarrow> 'c esp_adapter" where
  "boot_announced cap ext mac universal a =
     (let a = (boot_reset_metadata a)\<lparr>chipset := 0x20, capabilities := cap, ext_capabilities := ext,
                tx_aggr_size := 16384\<rparr>
      in if esp_hosted_add_boot_mac_tlv mac universal = [] then a
         else a\<lparr>base_mac := take 6 (the mac), base_mac_count := universal, base_mac_present := True\<rparr>)"

lemma version_accepted: "process_fw_data (fw_version_bytes @ le_bytes 4 rr) = 0"
proof -
  have "version_string fw_version_bytes = RELEASE_VERSION" by code_simp
  then show ?thesis by (simp add: process_fw_data_def check_esp_version_def fw_version_bytes_def)
qed

lemma usb_announced:
  assumes "ad_if_type a = ESP_IF_TYPE_USB" "\<forall>m. mac = Some m \<longrightarrow> length m = 6 \<and> (\<exists>b \<in> set m. b \<noteq> 0)"
  shows "boot_tlvs (usb_boot_env env) (bootup_tlvs 0x20 cap ext mac universal rr) nothing_seen (boot_reset_metadata a) =
    (0, nothing_seen\<lparr>seen_chipset := True, seen_capability := True, seen_ext_capability := (ext \<noteq> 0),
        seen_rx_buf_size := True, seen_fw_data := True\<rparr>, boot_announced cap ext mac universal a)"
proof -
  let ?e = "usb_boot_env env"
  have [simp]: "le_word (le_bytes 4 w) = (w :: u32)" for w by (rule le_word_le_bytes) simp
  define s0 where "s0 = nothing_seen"
  define a0 where "a0 = boot_reset_metadata a"
  have flags: "\<not> seen_chipset s0" "\<not> seen_capability s0" "\<not> seen_ext_capability s0" "\<not> seen_rx_buf_size s0"
    "\<not> seen_fw_data s0" by (simp_all add: s0_def nothing_seen_def)
  define s1 where "s1 = s0\<lparr>seen_chipset := True\<rparr>"
  define a1 where "a1 = a0\<lparr>chipset := 0x20\<rparr>"
  have 1: "boot_tlv ?e 3 [0x20] s0 a0 = (0, s1, a1)"
    using flags by (simp add: boot_tlv_def usb_boot_env_def esp_validate_chipset_def s1_def a1_def)
  define s2 where "s2 = s1\<lparr>seen_capability := True\<rparr>"
  define a2 where "a2 = a1\<lparr>capabilities := cap\<rparr>"
  have 2: "boot_tlv ?e 0 (le_bytes 4 cap) s1 a1 = (0, s2, a2)"
    using flags by (simp add: boot_tlv_def s1_def s2_def a2_def del: le_bytes.simps)
  define s3 where "s3 = s2\<lparr>seen_ext_capability := (ext \<noteq> 0)\<rparr>"
  define a3 where "a3 = a2\<lparr>ext_capabilities := ext\<rparr>"
  have e3: "ext_capabilities a2 = 0" "seen_ext_capability s2 = False" "base_mac_present a3 = False"
    using flags by (simp_all add: a0_def a1_def a2_def a3_def boot_reset_metadata_def s1_def s2_def)
  have t3: "boot_tlv ?e 6 (le_bytes 4 ext) s2 a2 = (0, s3, a3)" if "ext \<noteq> 0"
    using e3 that by (simp add: boot_tlv_def s3_def a3_def del: le_bytes.simps)
  have t3n: "s3 = s2" "a3 = a2" if "ext = 0"
    using e3 that by (simp_all add: s3_def a3_def)
  define a4 where "a4 = (if esp_hosted_add_boot_mac_tlv mac universal = [] then a3
     else a3\<lparr>base_mac := take 6 (the mac), base_mac_count := universal, base_mac_present := True\<rparr>)"
  have t4: "boot_tlv ?e 8 (take 6 m @ [universal]) s3 a3 = (0, s3, a4)"
    if "mac = Some m" "esp_hosted_add_boot_mac_tlv mac universal \<noteq> []" for m
    using that assms(2) e3(3)
    by (auto simp: boot_tlv_def a4_def esp_hosted_add_boot_mac_tlv_def is_valid_ether_addr_def nth_append split: if_splits)
  define s5 where "s5 = s3\<lparr>seen_rx_buf_size := True\<rparr>"
  define a5 where "a5 = a4\<lparr>tx_aggr_size := 16384\<rparr>"
  have "ad_if_type a4 = 3" using assms(1) by (simp add: a4_def a3_def a2_def a1_def a0_def boot_reset_metadata_def)
  then have t5: "boot_tlv ?e 5 (le_bytes 4 (16384 :: u32)) s3 a4 = (0, s5, a5)"
    using flags by (simp add: boot_tlv_def s5_def a5_def s3_def s2_def s1_def tx_aggr_invalid_def del: le_bytes.simps)
  define s6 where "s6 = s5\<lparr>seen_fw_data := True\<rparr>"
  have t6: "boot_tlv ?e 1 (fw_version_bytes @ le_bytes 4 rr) s5 a5 = (0, s6, a5)"
    using flags version_accepted [of rr]
    by (simp add: boot_tlv_def s6_def s5_def s3_def s2_def s1_def fw_version_bytes_def Let_def del: le_bytes.simps)
  let ?r6 = "[1, 12] @ fw_version_bytes @ le_bytes 4 rr"
  let ?r5 = "[5, 4] @ le_bytes 4 (16384 :: u32) @ ?r6"
  let ?r4 = "esp_hosted_add_boot_mac_tlv mac universal @ ?r5"
  let ?r3 = "(if ext \<noteq> 0 then [6, 4] @ le_bytes 4 ext else []) @ ?r4"
  have "boot_tlvs ?e (bootup_tlvs 0x20 cap ext mac universal rr) s0 a0 = boot_tlvs ?e ([0, 4] @ le_bytes 4 cap @ ?r3) s1 a1"
    using boot_tlvs_append [OF 1, of "[0, 4] @ le_bytes 4 cap @ ?r3"]
    by (simp add: bootup_tlvs_def del: boot_tlvs.simps le_bytes.simps)
  also have "\<dots> = boot_tlvs ?e ?r3 s2 a2"
    using boot_tlvs_append [OF 2, of ?r3] by (simp del: boot_tlvs.simps le_bytes.simps)
  also have "\<dots> = boot_tlvs ?e ?r4 s3 a3"
    using boot_tlvs_append [OF t3, of ?r4] t3n by (cases "ext = 0") (simp_all del: boot_tlvs.simps le_bytes.simps)
  also have "\<dots> = boot_tlvs ?e ?r5 s3 a4"
  proof (cases "esp_hosted_add_boot_mac_tlv mac universal = []")
    case True
    then show ?thesis by (simp add: a4_def del: boot_tlvs.simps le_bytes.simps)
  next
    case False
    then obtain m where m: "mac = Some m" by (auto simp: esp_hosted_add_boot_mac_tlv_def split: option.splits)
    with False have "esp_hosted_add_boot_mac_tlv mac universal = [8, 7] @ take 6 m @ [universal]"
      by (auto simp: esp_hosted_add_boot_mac_tlv_def split: if_splits)
    moreover have "length m = 6" using assms(2) m by simp
    ultimately show ?thesis
      using boot_tlvs_append [OF t4 [OF m False], of ?r5] by (simp del: boot_tlvs.simps le_bytes.simps)
  qed
  also have "\<dots> = boot_tlvs ?e ?r6 s5 a5"
    using boot_tlvs_append [OF t5, of ?r6] by (simp del: boot_tlvs.simps le_bytes.simps)
  also have "\<dots> = boot_tlvs ?e [] s6 a5"
    using boot_tlvs_append [OF t6, of "[]"] by (simp add: fw_version_bytes_def del: boot_tlvs.simps(3) le_bytes.simps)
  also have "\<dots> = (0, s6, a5)" by simp
  finally show ?thesis
    by (simp add: s0_def a0_def s6_def s5_def s3_def s2_def s1_def a5_def a4_def a3_def a2_def a1_def
        boot_announced_def Let_def nothing_seen_def)
qed

lemma usb_event_decided:
  assumes "ad_if_type a = ESP_IF_TYPE_USB" "\<forall>m. mac = Some m \<longrightarrow> length m = 6 \<and> (\<exists>b \<in> set m. b \<noteq> 0)"
    "cap AND ESP_WLAN_USB_SUPPORT \<noteq> 0"
    "ext AND ESP_EXT_CAP_RCP = 0 \<or> ext AND ESP_EXT_CAP_RADIO_SERVICE_CTRL \<noteq> 0"
  shows "boot_decide (usb_boot_env env) (bootup_tlvs 0x20 cap ext mac universal rr) a =
    (0, boot_announced cap ext mac universal a)"
proof -
  let ?a = "boot_announced cap ext mac universal a"
  have "ad_if_type ?a = 3" "capabilities ?a = cap" "ext_capabilities ?a = ext" "chipset ?a = 0x20"
    using assms(1) by (simp_all add: boot_announced_def boot_reset_metadata_def Let_def)
  then have "boot_validate (usb_boot_env env) (nothing_seen\<lparr>seen_chipset := True, seen_capability := True,
      seen_ext_capability := (ext \<noteq> 0), seen_rx_buf_size := True, seen_fw_data := True\<rparr>) ?a = (0, ?a)"
    using assms(3,4)
    by (auto simp: boot_validate_def boot_transport_cap_def boot_rcp_nonce_check_def nothing_seen_def)
  with usb_announced [OF assms(1,2), of env cap ext universal rr] show ?thesis
    by (simp add: boot_decide_def)
qed

text \<open>Framing of the event: the header of the event, its length byte and its TLVs.\<close>

lemma length_boot_mac_tlv: "length (esp_hosted_add_boot_mac_tlv mac universal) \<le> 9"
  by (auto simp: esp_hosted_add_boot_mac_tlv_def split: option.splits)

lemma length_bootup_tlvs: "length (bootup_tlvs chip cap ext mac universal rr) \<le> 44"
  using length_boot_mac_tlv [of mac universal]
  by (simp add: bootup_tlvs_def fw_version_bytes_def del: le_bytes.simps)

lemma bootup_event_framed:
  assumes "length tlvs < 256" "skb = bootup_event_bytes tlvs"
  shows "esp_bootup_event_structurally_valid skb" "take (unat (skb ! 4)) (drop 8 skb) = tlvs"
    "skb ! 0 = ESP_INTERNAL_BOOTUP_EVENT"
proof -
  obtain x y where "le_bytes 2 (of_nat (length tlvs + 1) :: u16) = [x, y]"
    by (simp add: numeral_2_eq_2)
  then have s: "skb = [1, 0, x, y, of_nat (length tlvs), 0, 0, 0] @ tlvs"
    using assms(2) by (simp add: bootup_event_bytes_def del: le_bytes.simps)
  have u: "unat (of_nat (length tlvs) :: u8) = length tlvs" using assms(1) by (simp add: unat_of_nat)
  show "esp_bootup_event_structurally_valid skb" "take (unat (skb ! 4)) (drop 8 skb) = tlvs" "skb ! 0 = 1"
    using u by (simp_all add: s esp_bootup_event_structurally_valid_def)
qed

section \<open>Every failure asks for a counted retry\<close>

definition boot_retried :: "kernel_env \<Rightarrow> 'c esp_if_ops \<Rightarrow> 'c esp_adapter \<Rightarrow> bool" where
  "boot_retried kenv ops a' \<longleftrightarrow>
     (\<exists>b. a' = esp_bootup_request_retry kenv ops b \<and> \<not> test_bit ESP_ALLOW_RECONSTRUCT b)"

text \<open>The admissible results of the handler: success, a transport that is going away, or an
  error with a retry.\<close>

definition boot_settled :: "kernel_env \<Rightarrow> 'c esp_if_ops \<Rightarrow> int \<times> 'c esp_adapter \<Rightarrow> bool" where
  "boot_settled kenv ops p \<longleftrightarrow>
     fst p = 0 \<or> fst p = - ESHUTDOWN \<and> boot_going_away (snd p) \<or> fst p < 0 \<and> boot_retried kenv ops (snd p)"

lemma boot_settled_fail: "boot_settled kenv ops (boot_fail kenv ops ret a)"
proof -
  have "\<not> test_bit ESP_ALLOW_RECONSTRUCT (esp_clear_reconstruct_flag a)"
    by (simp add: esp_clear_reconstruct_flag_def flag_defs)
  then have "boot_retried kenv ops (snd (boot_fail kenv ops ret a))"
    unfolding boot_retried_def boot_fail_def snd_conv by blast
  then show ?thesis by (simp add: boot_settled_def boot_fail_def)
qed

lemma boot_settled_commit: "boot_settled kenv ops (boot_fail_after_commit env kenv ops ret a)"
  unfolding boot_fail_after_commit_def Let_def case_prod_beta by (rule boot_settled_fail)

lemma boot_settled_leaf:
  "boot_settled kenv ops (0, a)"
  "boot_going_away a \<Longrightarrow> boot_settled kenv ops (- ESHUTDOWN, a)"
  "re \<and> boot_going_away a \<Longrightarrow> boot_settled kenv ops (- ESHUTDOWN, a)"
  by (simp_all add: boot_settled_def)

lemma boot_settled_if:
  "(c \<Longrightarrow> boot_settled kenv ops x) \<Longrightarrow> (\<not> c \<Longrightarrow> boot_settled kenv ops y) \<Longrightarrow>
   boot_settled kenv ops (if c then x else y)"
  by simp

lemmas boot_settled_intros = boot_settled_if boot_settled_fail boot_settled_commit boot_settled_leaf(1)

lemma boot_publish_settled: "boot_settled kenv ops (boot_publish env kenv ops a)"
  unfolding boot_publish_def Let_def case_prod_beta by (intro boot_settled_intros)

lemma boot_reconstruct_settled: "boot_settled kenv ops (boot_reconstruct env kenv ops reinit a)"
  unfolding boot_reconstruct_def Let_def case_prod_beta
  by (intro boot_settled_intros boot_publish_settled)

lemma boot_event_settled: "boot_settled kenv ops (process_event_esp_bootup env kenv ops evt a)"
  unfolding process_event_esp_bootup_def Let_def case_prod_beta
  by (intro boot_settled_if boot_settled_fail boot_reconstruct_settled; (rule boot_settled_leaf(2,3), assumption)?)

end
