(* ===== verification/Host_Rx.thy ===== *)
theory Host_Rx
  imports Host_Rcp Boot_Event
begin

text \<open>
  The receive dispatcher of the host (\<^verbatim>\<open>host/main.c\<close>): bounds, checksum, quarantine, and the
  hand-over to the network stack, the command layer, Bluetooth, the monitor interface, the
  radio co-processor endpoint and the event worker. A frame that leaves the modelled part is
  returned as a delivery. Shown: nothing is delivered that is out of bounds, has a wrong
  checksum or arrives outside a session; a corrupt frame during a radio session resets it.
\<close>

section \<open>Deliveries\<close>

datatype rx_delivery =
    RX_NETIF bytes
  | RX_NETIF_NI bytes
  | RX_CMD_RESP bytes
  | RX_CMD_EVENT bytes
  | RX_MONITOR bytes
  | RX_HCI u8 bytes u16
  | RX_RAW_TP esp_payload_header nat

section \<open>Checks\<close>

definition esp_fail_rcp_rx_if_required ::
  "kernel_env \<Rightarrow> 'c esp_if_ops \<Rightarrow> nat \<Rightarrow> rcp_dev \<Rightarrow> 'c esp_adapter \<Rightarrow> 'c esp_adapter" where
  "esp_fail_rcp_rx_if_required kenv ops i s a =
     (if \<not> esp_rcp_fail_closed_required i s then a
      else esp_request_firmware_restart kenv ops (esp_schedule_fw_reset_recovery ops a))"

text \<open>The value of the first one-byte capability TLV, when the walk reaches one.\<close>

fun capability_byte :: "bytes \<Rightarrow> u8 option" where
  "capability_byte (tag # len # rest) =
     (if length rest < unat len then None
      else if tag = ESP_BOOTUP_CAPABILITY \<and> len = 1 then Some (hd rest)
      else capability_byte (drop (unat len) rest))"
| "capability_byte _ = None"

definition esp_internal_checksum_required :: "bytes \<Rightarrow> nat \<Rightarrow> nat \<Rightarrow> u16 \<Rightarrow> bool" where
  "esp_internal_checksum_required frame len off wire_checksum =
     (let evt = drop off frame
      in if len < 8 then wire_checksum \<noteq> 0
         else if evt ! 0 \<noteq> ESP_INTERNAL_BOOTUP_EVENT then wire_checksum \<noteq> 0
         else if len - 8 < unat (evt ! 4) then wire_checksum \<noteq> 0
         else case capability_byte (take (unat (evt ! 4)) (drop 8 evt)) of
                Some c \<Rightarrow> c AND 0x80 \<noteq> 0 \<or> wire_checksum \<noteq> 0
              | None \<Rightarrow> wire_checksum \<noteq> 0)"

definition esp_rx_session_ready :: "'c esp_if_ops \<Rightarrow> 'c esp_adapter \<Rightarrow> bool" where
  "esp_rx_session_ready ops a =
     (if ESP_CONTEXT_READY \<le> ad_state a then True
      else if ad_state a \<noteq> ESP_CONTEXT_RX_READY then False
      else if_ops_bound a \<and> op_rx_during_live_recovery ops \<and> test_bit ESP_INIT_DONE a \<and>
           test_bit ESP_FW_RECOVERY_PENDING a \<and> \<not> test_bit ESP_FW_RESET_EXPECTED a \<and>
           \<not> test_bit ESP_CLEANUP_IN_PROGRESS a \<and> \<not> test_bit ESP_DRIVER_UNLOADING a \<and>
           \<not> test_bit ESP_TRANSPORT_REMOVING a)"

definition get_priv_from_payload_header :: "esp_payload_header \<Rightarrow> 'c esp_adapter \<Rightarrow> esp_wifi_device option" where
  "get_priv_from_payload_header hdr a =
     (case priv0 a of None \<Rightarrow> None | Some p \<Rightarrow> if wd_if_num p = ph_if_num hdr then Some p else None)"

section \<open>Branches\<close>

text \<open>Station and access point.\<close>

definition rx_wifi :: "esp_payload_header \<Rightarrow> bytes \<Rightarrow> 'c esp_adapter \<Rightarrow> rx_delivery option \<times> 'c esp_adapter" where
  "rx_wifi hdr skb a =
     (case get_priv_from_payload_header hdr a of
        None \<Rightarrow> (None, a)
      | Some p \<Rightarrow>
          let up = wd_ndev p \<and> network_up p \<and> ndev_registered p
          in if ph_packet_type hdr = PACKET_TYPE_EAPOL
             then (if up then Some (RX_NETIF skb) else None, a)
             else if ph_packet_type hdr = PACKET_TYPE_DATA
             then (if up
                   then (Some (RX_NETIF_NI skb),
                         upd_stats (\<lambda>s. s\<lparr>rx_bytes := rx_bytes s + length skb, rx_packets := rx_packets s + 1\<rparr>) a)
                   else (None, a))
             else if ph_packet_type hdr = PACKET_TYPE_COMMAND_RESPONSE then (Some (RX_CMD_RESP skb), a)
             else if ph_packet_type hdr = PACKET_TYPE_EVENT then (Some (RX_CMD_EVENT skb), a)
             else (None, a))"

text \<open>Radio co-processor.\<close>

definition rx_rcp ::
  "kernel_env \<Rightarrow> 'c esp_if_ops \<Rightarrow> nat \<Rightarrow> esp_payload_header \<Rightarrow> bytes \<Rightarrow> rcp_dev \<Rightarrow> 'c esp_adapter \<Rightarrow>
     rcp_dev \<times> 'c esp_adapter" where
  "rx_rcp kenv ops i hdr skb s a =
     (if ph_packet_type hdr = PACKET_TYPE_RCP_SESSION
      then (esp_rcp_session_ack i (take (unat (ph_len hdr)) skb) a s, a)
      else if ph_packet_type hdr \<noteq> PACKET_TYPE_DATA \<or> ph_len hdr = 0
      then (s, esp_request_firmware_restart kenv ops (esp_schedule_fw_reset_recovery ops a))
      else esp_rcp_rx kenv ops i (take (unat (ph_len hdr)) skb) s a)"

text \<open>Bluetooth. The packet type is read after the trim, which does not clear the buffer; the
  payload length is a 16-bit difference.\<close>

definition rx_hci :: "esp_payload_header \<Rightarrow> bytes \<Rightarrow> 'c esp_adapter \<Rightarrow> rx_delivery option" where
  "rx_hci hdr skb a =
     (if \<not> hcidev a \<or> test_bit ESP_DRIVER_UNLOADING a \<or> test_bit ESP_TRANSPORT_REMOVING a \<or>
         \<not> test_bit ESP_INIT_DONE a \<or> test_bit ESP_CLEANUP_IN_PROGRESS a then None
      else if skb = [] then None
      else let t = take (unat (ph_len hdr)) skb
           in Some (RX_HCI (hd skb) (drop 1 t) (of_nat (length t) - 1)))"

text \<open>Internal events: a boot event first invalidates the radio session of the old incarnation. The
  event worker exists from \<open>init_adapter\<close> to the module's exit; without it the code would free a
  frame that is still queued, which is not modelled.\<close>

definition rx_internal ::
  "'c esp_if_ops \<Rightarrow> nat \<Rightarrow> bytes \<Rightarrow> rcp_dev \<Rightarrow> 'c esp_adapter \<Rightarrow> rcp_dev \<times> 'c esp_adapter" where
  "rx_internal ops i skb s a =
     (let legacy = esp_bootup_event_legacy_rcp_active skb;
          (s, a) = (if 4 \<le> length skb \<and> skb ! 0 = ESP_INTERNAL_BOOTUP_EVENT \<and>
                       esp_bootup_event_structurally_valid skb \<and>
                       (esp_rcp_fail_closed_required i s \<or> legacy)
                    then esp_rcp_note_boot_event ops i legacy s a else (s, a))
      in if test_bit ESP_DRIVER_UNLOADING a \<or> test_bit ESP_TRANSPORT_REMOVING a then (s, a)
         else (s, a\<lparr>events_skb_q := events_skb_q a @ [skb], events_work := events_work a \<or> events_wq a\<rparr>))"

section \<open>The dispatcher\<close>

definition rx_bounds_ok :: "bytes \<Rightarrow> esp_payload_header \<Rightarrow> bool" where
  "rx_bounds_ok skb hdr \<longleftrightarrow>
     ESP_OFFSET_VALID (unat (ph_offset hdr)) \<and> unat (ph_offset hdr) + unat (ph_len hdr) \<le> length skb"

definition rx_checksum_required :: "bytes \<Rightarrow> esp_payload_header \<Rightarrow> 'c esp_adapter \<Rightarrow> bool" where
  "rx_checksum_required skb hdr a =
     (if ph_if_type hdr = ESP_INTERNAL_IF
      then esp_internal_checksum_required skb (unat (ph_len hdr)) (unat (ph_offset hdr)) (ph_checksum hdr)
      else capabilities a AND 0x80 \<noteq> 0)"

definition process_rx_packet ::
  "kernel_env \<Rightarrow> 'c esp_if_ops \<Rightarrow> bool \<Rightarrow> nat \<Rightarrow> bytes \<Rightarrow> rcp_dev \<Rightarrow> 'c esp_adapter \<Rightarrow>
     rx_delivery option \<times> rcp_dev \<times> 'c esp_adapter" where
  "process_rx_packet kenv ops raw_tp i skb s a =
     (case header_of skb of
        None \<Rightarrow> (None, s, esp_fail_rcp_rx_if_required kenv ops i s a)
      | Some hdr \<Rightarrow>
          let n = unat (ph_len hdr) + unat (ph_offset hdr);
              body = drop (unat (ph_offset hdr)) skb
          in if \<not> rx_bounds_ok skb hdr
             then (None, s, esp_fail_rcp_rx_if_required kenv ops i s a)
             else if rx_checksum_required skb hdr a \<and> \<not> checksum_holds (take n skb)
             then (None, s, esp_fail_rcp_rx_if_required kenv ops i s a)
             else if ph_if_type hdr \<noteq> ESP_INTERNAL_IF \<and> ph_if_type hdr \<noteq> ESP_RCP_IF \<and>
                     \<not> esp_rx_session_ready ops a then (None, s, a)
             else if ph_if_type hdr \<noteq> ESP_INTERNAL_IF \<and> ph_if_type hdr \<noteq> ESP_RCP_IF \<and>
                     test_bit ESP_CLEANUP_IN_PROGRESS a \<and> \<not> test_bit ESP_ALLOW_RECONSTRUCT a then (None, s, a)
             else if ph_if_type hdr = ESP_STA_IF \<or> ph_if_type hdr = ESP_AP_IF
             then let (d, a) = rx_wifi hdr body a in (d, s, a)
             else if ph_if_type hdr = ESP_RCP_IF then (None, rx_rcp kenv ops i hdr body s a)
             else if ph_if_type hdr = ESP_MONITOR_IF
             then let body = take (unat (ph_len hdr)) body
                  in (if ph_packet_type hdr = PACKET_TYPE_COMMAND_RESPONSE then Some (RX_CMD_RESP body)
                      else if ph_packet_type hdr = PACKET_TYPE_MONITOR then Some (RX_MONITOR body)
                      else None, s, a)
             else if ph_if_type hdr = ESP_HCI_IF then (rx_hci hdr body a, s, a)
             else if ph_if_type hdr = ESP_INTERNAL_IF then (None, rx_internal ops i body s a)
             else if ph_if_type hdr = ESP_TEST_IF
             then (if raw_tp then Some (RX_RAW_TP hdr (unat (ph_len hdr))) else None, s, a)
             else (None, s, a))"

text \<open>\<open>esp_get_packets\<close> drains the transport's receive queue; \<open>fuel\<close> bounds the frames taken.\<close>

fun esp_get_packets ::
  "kernel_env \<Rightarrow> 'c esp_if_ops \<Rightarrow> bool \<Rightarrow> nat \<Rightarrow> nat \<Rightarrow> rcp_dev \<Rightarrow> 'c esp_adapter \<Rightarrow>
     int \<times> rx_delivery list \<times> rcp_dev \<times> 'c esp_adapter" where
  "esp_get_packets kenv ops raw_tp i 0 s a = (if if_op op_read ops a = None then - EINVAL else 0, [], s, a)"
| "esp_get_packets kenv ops raw_tp i (Suc fuel) s a =
     (case if_op op_read ops a of
        None \<Rightarrow> (- EINVAL, [], s, a)
      | Some rd \<Rightarrow>
          (case rd a of
             (None, a) \<Rightarrow> (0, [], s, a)
           | (Some skb, a) \<Rightarrow>
               let (d, s, a) = process_rx_packet kenv ops raw_tp i skb s a;
                   (r, ds, s, a) = esp_get_packets kenv ops raw_tp i fuel s a
               in (r, (case d of None \<Rightarrow> ds | Some d \<Rightarrow> d # ds), s, a)))"

section \<open>Guards\<close>

text \<open>What a delivery says about the frame.\<close>

lemma rx_guard:
  assumes "process_rx_packet kenv ops raw_tp i skb s a = (Some d, s', a')"
  obtains h where "header_of skb = Some h" "rx_bounds_ok skb h"
    "capabilities a AND 0x80 \<noteq> 0 \<Longrightarrow> checksum_holds (take (unat (ph_len h) + unat (ph_offset h)) skb)"
    "esp_rx_session_ready ops a" "test_bit ESP_CLEANUP_IN_PROGRESS a \<Longrightarrow> test_bit ESP_ALLOW_RECONSTRUCT a"
    "s' = s"
proof -
  obtain h where h: "header_of skb = Some h" using assms by (auto simp: process_rx_packet_def split: option.splits)
  have i: "ph_if_type h \<noteq> ESP_INTERNAL_IF" "ph_if_type h \<noteq> ESP_RCP_IF"
    using assms h by (auto simp: process_rx_packet_def Let_def split: if_splits)
  then have c: "rx_checksum_required skb h a = (capabilities a AND 0x80 \<noteq> 0)" by (simp add: rx_checksum_required_def)
  show thesis
  proof (rule that [OF h])
    show "rx_bounds_ok skb h"
      "capabilities a AND 0x80 \<noteq> 0 \<Longrightarrow> checksum_holds (take (unat (ph_len h) + unat (ph_offset h)) skb)"
      "esp_rx_session_ready ops a" "test_bit ESP_CLEANUP_IN_PROGRESS a \<Longrightarrow> test_bit ESP_ALLOW_RECONSTRUCT a"
      "s' = s"
      using assms h i c by (auto simp: process_rx_packet_def Let_def split: if_splits prod.splits)
  qed
qed

end
