(* ===== verification/Fw_Main.thy ===== *)
theory Fw_Main
  imports Fw_Rcp
begin

text \<open>
  The dispatcher of the firmware (\<^verbatim>\<open>app_main.c\<close>): the receive dispatcher with its aggregate
  parser and the radio-service selector. The Wi-Fi and Bluetooth libraries and the command
  handlers are functions of the environment; what is handed to a library is recorded in order.
  Shown: an aggregate of frames is taken apart exactly, and a service change is all or nothing.
\<close>

section \<open>State\<close>

text \<open>The state of \<^verbatim>\<open>app_main.c\<close> and the command context of \<^verbatim>\<open>cmd.c\<close>. The queue to the host of middle
  priority belongs to the bridge; \<open>fm_sent\<close> lists what was handed to the transport.\<close>

text \<open>What the dispatcher hands to the libraries: a frame to the station or access-point
  interface, an HCI packet, a raw-throughput frame.\<close>

datatype fw_action = WIFI_TX_STA bytes | WIFI_TX_AP bytes | HCI_RX bytes | RAW_TP_RX esp_payload_header nat

record fw_main =
  fm_rcp :: rcp_bridge
  station_connected :: bool
  association_ongoing :: bool
  station_authorized :: bool
  softap_started :: bool
  s_radio_service :: u8
  s_radio_service_command_seen :: bool
  active_cmd_code :: u8
  active_cmd_seq :: u16
  s_cmd_in_progress :: bool
  to_host_high :: "interface_buffer_handle list"
  to_host_low :: "interface_buffer_handle list"
  fm_sent :: "interface_buffer_handle list"
  fm_out :: "fw_action list"

text \<open>What drives the bridge: OpenThread with the result of its start, the loopback test, or
  nothing.\<close>

datatype rcp_backend = RCP_OPENTHREAD int | RCP_LOOPBACK | RCP_NO_BACKEND

text \<open>Build configuration, command handlers and library answers.\<close>

record fw_env =
  fe_rcp_env :: rcp_env
  fe_hosted_rcp :: bool
  fe_checksum :: bool
  fe_bt_hci :: bool
  fe_rx_buf_size :: nat
  fe_cmd_dispatch :: "u8 \<Rightarrow> bytes \<Rightarrow> fw_main \<Rightarrow> fw_main"
  fe_initialise_bluetooth :: int
  fe_fatal_task :: bool
  fe_random :: "(u32 \<times> u32) list"
  fe_backend :: rcp_backend

abbreviation (input) ESP_RADIO_SERVICE_BT :: u8 where "ESP_RADIO_SERVICE_BT \<equiv> 1"
abbreviation (input) ESP_RADIO_SERVICE_IEEE802154 :: u8 where "ESP_RADIO_SERVICE_IEEE802154 \<equiv> 2"
abbreviation (input) ESP_RADIO_SERVICE_MASK :: u8 where "ESP_RADIO_SERVICE_MASK \<equiv> 3"
abbreviation (input) ESP_ERR_NOT_SUPPORTED :: int where "ESP_ERR_NOT_SUPPORTED \<equiv> 0x106"

section \<open>Receive dispatcher\<close>

definition esp_rcp_fail_corrupt_h2e :: "fw_env \<Rightarrow> string \<Rightarrow> fw_main \<Rightarrow> bool \<times> fw_main" where
  "esp_rcp_fail_corrupt_h2e env reason m =
     (if fe_hosted_rcp env \<and> esp_hosted_rcp_fail_closed_required (fm_rcp m)
      then (True, m\<lparr>fm_rcp := esp_hosted_rcp_fatal_restart reason (fm_rcp m)\<rparr>)
      else (False, m))"

definition fw_emit :: "fw_action \<Rightarrow> fw_main \<Rightarrow> fw_main" where
  "fw_emit x m = m\<lparr>fm_out := fm_out m @ [x]\<rparr>"

text \<open>The HCI branch: a host that never selected services gets Bluetooth on its first packet.\<close>

definition fw_rx_hci :: "fw_env \<Rightarrow> bytes \<Rightarrow> fw_main \<Rightarrow> fw_main" where
  "fw_rx_hci env payload m =
     (let m = (if s_radio_service m AND ESP_RADIO_SERVICE_BT = 0 \<and> \<not> s_radio_service_command_seen m \<and>
                  fe_initialise_bluetooth env = ESP_OK
               then m\<lparr>s_radio_service := s_radio_service m OR ESP_RADIO_SERVICE_BT\<rparr> else m)
      in if s_radio_service m AND ESP_RADIO_SERVICE_BT \<noteq> 0 then fw_emit (HCI_RX payload) m else m)"

text \<open>One frame whose bounds and checksum are right; \<open>False\<close>: leave the buffer.\<close>

definition fw_rx_frame :: "fw_env \<Rightarrow> esp_payload_header \<Rightarrow> bytes \<Rightarrow> fw_main \<Rightarrow> bool \<times> fw_main" where
  "fw_rx_frame env hdr payload m =
     (if fe_hosted_rcp env \<and> ph_if_type hdr = ESP_RCP_IF
      then let (go, rcp) = process_rx_rcp (fe_rcp_env env) (ph_packet_type hdr) payload (fm_rcp m)
           in (go, m\<lparr>fm_rcp := rcp\<rparr>)
      else if ph_packet_type hdr = PACKET_TYPE_COMMAND_REQUEST
      then (True, fe_cmd_dispatch env (ucast (ph_if_type hdr)) payload m)
      else if ph_packet_type hdr = PACKET_TYPE_DATA \<or> ph_packet_type hdr = PACKET_TYPE_EAPOL
      then (True,
        if ph_if_type hdr = ESP_STA_IF
        then if (station_connected m \<or> association_ongoing m) \<and>
                (station_authorized m \<or> ph_packet_type hdr = PACKET_TYPE_EAPOL)
             then fw_emit (WIFI_TX_STA payload) m else m
        else if ph_if_type hdr = ESP_AP_IF \<and> softap_started m then fw_emit (WIFI_TX_AP payload) m
        else if fe_bt_hci env \<and> ph_if_type hdr = ESP_HCI_IF then fw_rx_hci env payload m
        else if ph_if_type hdr = ESP_TEST_IF then fw_emit (RAW_TP_RX hdr (length payload)) m
        else m)
      else (True, m))"

text \<open>The loop of \<open>process_rx_pkt\<close> from position \<open>pos\<close>. Every error either requests the fatal
  restart or is only logged; both leave the loop.\<close>

function fw_rx_loop :: "fw_env \<Rightarrow> bytes \<Rightarrow> nat \<Rightarrow> fw_main \<Rightarrow> fw_main" where
  "fw_rx_loop env buf pos m =
     (case header_of (drop pos buf) of
        None \<Rightarrow> m
      | Some hdr \<Rightarrow>
          let payload_len = unat (ph_len hdr); off = unat (ph_offset hdr);
              frame_len = payload_len + off;
              aligned_len = (frame_len + 3) div 4 * 4;
              frame = take frame_len (drop pos buf)
          in if payload_len = 0
             then if 0 < pos \<and> take HDR_SIZE (drop pos buf) = replicate HDR_SIZE 0 then m
                  else snd (esp_rcp_fail_corrupt_h2e env ''zero H2E payload'' m)
             else if \<not> ESP_OFFSET_VALID off
             then snd (esp_rcp_fail_corrupt_h2e env ''invalid H2E offset'' m)
             else if fe_rx_buf_size env < frame_len \<or> length buf < pos + frame_len
             then snd (esp_rcp_fail_corrupt_h2e env ''H2E frame out of bounds'' m)
             else if fe_checksum env \<and> \<not> checksum_holds frame
             then snd (esp_rcp_fail_corrupt_h2e env ''H2E checksum mismatch'' m)
             else let (go, m) = fw_rx_frame env hdr (drop off frame) m
                  in if go then fw_rx_loop env buf (pos + aligned_len) m else m)"
  by pat_completeness auto
termination
proof (relation "measure (\<lambda>(env, buf, pos, m). length buf - pos)", goal_cases)
  case (2 env buf pos m hdr l off n al fr x go m')
  then have "12 \<le> length buf - pos" using header_of_SomeD [of "drop pos buf"] by auto
  moreover from 2 have "0 < al" by (auto simp: ESP_OFFSET_VALID_iff)
  ultimately show ?case by simp
qed simp

declare fw_rx_loop.simps [simp del]

definition process_rx_pkt :: "fw_env \<Rightarrow> bytes \<Rightarrow> fw_main \<Rightarrow> fw_main" where
  "process_rx_pkt env payload m = fw_rx_loop env payload 0 m"

section \<open>Taking an aggregate apart\<close>

text \<open>A frame as a host builds it: a valid header and a length that is a multiple of four, within
  the buffer size; with a right checksum where one is configured.\<close>

definition h2e_frame :: "fw_env \<Rightarrow> bytes \<Rightarrow> bool" where
  "h2e_frame env f \<longleftrightarrow>
     (case header_of f of
        None \<Rightarrow> False
      | Some h \<Rightarrow> 0 < unat (ph_len h) \<and> ESP_OFFSET_VALID (unat (ph_offset h)) \<and>
          length f = unat (ph_offset h) + unat (ph_len h) \<and> 4 dvd length f \<and>
          length f \<le> fe_rx_buf_size env \<and> (fe_checksum env \<longrightarrow> checksum_holds f))"

definition frame_header :: "bytes \<Rightarrow> esp_payload_header" where
  "frame_header f = the (header_of f)"

definition frame_payload :: "bytes \<Rightarrow> bytes" where
  "frame_payload f = drop (unat (ph_offset (frame_header f))) f"

text \<open>The reference: the frames one by one, up to the first that stops the buffer.\<close>

fun fw_rx_frames :: "fw_env \<Rightarrow> bytes list \<Rightarrow> fw_main \<Rightarrow> fw_main" where
  "fw_rx_frames env [] m = m"
| "fw_rx_frames env (f # fs) m =
     (let (go, m) = fw_rx_frame env (frame_header f) (frame_payload f) m
      in if go then fw_rx_frames env fs m else m)"

lemma fw_rx_loop_frame:
  assumes "h2e_frame env f"
  shows "fw_rx_loop env (pre @ f @ rest) (length pre) m =
    (let (go, m) = fw_rx_frame env (frame_header f) (frame_payload f) m
     in if go then fw_rx_loop env (pre @ f @ rest) (length pre + length f) m else m)"
proof -
  obtain h where h: "header_of f = Some h" using assms by (auto simp: h2e_frame_def split: option.splits)
  have d: "drop (length pre) (pre @ f @ rest) = f @ rest" by simp
  have hf: "header_of (f @ rest) = Some h" by (rule header_of_append [OF h])
  have f: "0 < unat (ph_len h)" "ESP_OFFSET_VALID (unat (ph_offset h))"
    "length f = unat (ph_len h) + unat (ph_offset h)" "4 dvd length f" "length f \<le> fe_rx_buf_size env"
    "fe_checksum env \<longrightarrow> checksum_holds f"
    using assms h by (auto simp: h2e_frame_def)
  then obtain q where q: "length f = 4 * q" by (auto elim: dvdE)
  have al: "(unat (ph_len h) + unat (ph_offset h) + 3) div 4 * 4 = length f"
    unfolding f(3) [symmetric] q by simp
  have t: "take (unat (ph_len h) + unat (ph_offset h)) (f @ rest) = f" using f(3) by simp
  show ?thesis
    unfolding fw_rx_loop.simps [of env "pre @ f @ rest" "length pre" m] d hf Let_def al t option.case
    using f by (auto simp: frame_header_def frame_payload_def h)
qed

text \<open>What ends an aggregate: nothing, or zero bytes behind the last frame.\<close>

lemma fw_rx_loop_zeros:
  assumes "0 < length pre"
  shows "fw_rx_loop env (pre @ replicate k 0) (length pre) m = m"
proof (cases "header_of (replicate k (0 :: u8))")
  case None
  then show ?thesis by (simp add: fw_rx_loop.simps [of env "pre @ replicate k 0"])
next
  case (Some h)
  then have k: "12 \<le> k" using header_of_SomeD by fastforce
  then have "header_bytes h = replicate 12 0" using header_bytes_header_of [OF Some] by (simp add: min_def)
  then have "le_bytes 2 (ph_len h) = [0, 0]" by (simp add: header_bytes_def numeral_eq_Suc)
  then have "ph_len h = 0" using le_word_le_bytes [where n = 2 and w = "ph_len h"] by simp
  with Some k assms show ?thesis
    by (simp add: fw_rx_loop.simps [of env "pre @ replicate k 0"] HDR_SIZE_def min_def)
qed

lemma fw_rx_aggregate_from:
  assumes "list_all (h2e_frame env) fs" "pre = [] \<longrightarrow> fs \<noteq> [] \<or> k = 0"
  shows "fw_rx_loop env (pre @ concat fs @ replicate k 0) (length pre) m = fw_rx_frames env fs m"
  using assms
proof (induction fs arbitrary: pre m)
  case Nil
  show ?case
  proof (cases "pre = []")
    case True
    with Nil show ?thesis by (simp add: fw_rx_loop.simps [of env "[]"])
  next
    case False
    then show ?thesis using fw_rx_loop_zeros [of pre env k m] by simp
  qed
next
  case (Cons f fs)
  then have f: "h2e_frame env f" by simp
  obtain go m' where s: "fw_rx_frame env (frame_header f) (frame_payload f) m = (go, m')" by fastforce
  have "f \<noteq> []" using f by (auto simp: h2e_frame_def)
  with Cons.IH [of "pre @ f" m'] Cons.prems
  have "fw_rx_loop env (pre @ f @ concat fs @ replicate k 0) (length pre + length f) m' = fw_rx_frames env fs m'"
    by simp
  with fw_rx_loop_frame [OF f, of pre "concat fs @ replicate k 0" m] s show ?case by simp
qed

lemma fw_rx_aggregate:
  assumes "list_all (h2e_frame env) fs" "fs \<noteq> []"
  shows "process_rx_pkt env (concat fs @ replicate k 0) m = fw_rx_frames env fs m"
  using fw_rx_aggregate_from [OF assms(1), of "[]" k m] assms(2) by (simp add: process_rx_pkt_def)

section \<open>Radio services\<close>

abbreviation (input) ESP_RADIO_SERVICE_F_RESTART_REQUIRED :: u8
  where "ESP_RADIO_SERVICE_F_RESTART_REQUIRED \<equiv> 1"

definition esp_radio_service_snapshot :: "fw_env \<Rightarrow> fw_main \<Rightarrow> u8 \<times> u64" where
  "esp_radio_service_snapshot env m =
     (s_radio_service m,
      if fe_hosted_rcp env \<and> s_radio_service m AND ESP_RADIO_SERVICE_IEEE802154 \<noteq> 0
      then s_session_nonce (fm_rcp m) else 0)"

definition esp_hosted_rcp_fatal_worker_init :: "fw_env \<Rightarrow> fw_main \<Rightarrow> int \<times> fw_main" where
  "esp_hosted_rcp_fatal_worker_init env m =
     (if s_rcp_fatal_task (fm_rcp m) then (ESP_OK, m)
      else if fe_fatal_task env then (ESP_OK, m\<lparr>fm_rcp := (fm_rcp m)\<lparr>s_rcp_fatal_task := True\<rparr>\<rparr>)
      else (ESP_ERR_NO_MEM, m))"

text \<open>Start of the radio co-processor; \<open>None\<close> while the nonce draws are all zero.\<close>

definition fw_start_rcp :: "fw_env \<Rightarrow> fw_main \<Rightarrow> (int \<times> fw_main) option" where
  "fw_start_rcp env m =
     (if \<not> fe_hosted_rcp env then Some (ESP_ERR_NOT_SUPPORTED, m)
      else
        let (ret, m) = esp_hosted_rcp_fatal_worker_init env m
        in if ret \<noteq> ESP_OK then Some (ret, m)
           else case esp_hosted_rcp_init (fe_rcp_env env) (fe_random env) (fm_rcp m) of
                  None \<Rightarrow> None
                | Some (ret, rcp) \<Rightarrow>
                    let m = m\<lparr>fm_rcp := rcp\<rparr>;
                        stopped = m\<lparr>fm_rcp := esp_hosted_rcp_deinit rcp\<rparr>;
                        started = m\<lparr>s_radio_service := s_radio_service m OR ESP_RADIO_SERVICE_IEEE802154\<rparr>
                    in Some (if ret \<noteq> ESP_OK then (ret, m)
                       else case fe_backend env of
                              RCP_OPENTHREAD r \<Rightarrow> if r \<noteq> ESP_OK then (r, stopped) else (ESP_OK, started)
                            | RCP_LOOPBACK \<Rightarrow> (ESP_OK, started)
                            | RCP_NO_BACKEND \<Rightarrow> (ESP_ERR_NOT_SUPPORTED, stopped)))"

text \<open>\<open>esp_radio_service_apply\<close>: result code, flags and the new state.\<close>

definition esp_radio_service_apply :: "fw_env \<Rightarrow> u8 \<Rightarrow> fw_main \<Rightarrow> (int \<times> u8 \<times> fw_main) option" where
  "esp_radio_service_apply env requested m =
     (if requested AND NOT ESP_RADIO_SERVICE_MASK \<noteq> 0 then Some (ESP_ERR_INVALID_ARG, 0, m)
      else
        let m = m\<lparr>s_radio_service_command_seen := True\<rparr>
        in if requested = s_radio_service m then Some (ESP_OK, 0, m)
           else if s_radio_service m AND NOT requested \<noteq> 0
           then Some (ESP_OK, ESP_RADIO_SERVICE_F_RESTART_REQUIRED, m)
           else
             let add_mask = requested AND NOT (s_radio_service m);
                 bt_wanted = (add_mask AND ESP_RADIO_SERVICE_BT \<noteq> 0);
                 bt_ret = (if \<not> bt_wanted then ESP_OK
                           else if fe_bt_hci env then fe_initialise_bluetooth env
                           else ESP_ERR_NOT_SUPPORTED)
             in if bt_ret \<noteq> ESP_OK then Some (bt_ret, 0, m)
                else
                  let m = (if bt_wanted then m\<lparr>s_radio_service := s_radio_service m OR ESP_RADIO_SERVICE_BT\<rparr> else m)
                  in if add_mask AND ESP_RADIO_SERVICE_IEEE802154 = 0 then Some (ESP_OK, 0, m)
                     else map_option (\<lambda>(ret, m).
                            if ret \<noteq> ESP_OK \<and> bt_wanted
                            then (ret, 0, m\<lparr>s_radio_service := s_radio_service m AND NOT ESP_RADIO_SERVICE_BT\<rparr>)
                            else (ret, 0, m)) (fw_start_rcp env m))"

lemma rcp_init_started:
  assumes "esp_hosted_rcp_init env draws s = Some (0, s')"
  shows "s_bridge_enabled s' \<and> s_session_nonce s' \<noteq> 0 \<and> s_rcp_fatal_task s' = s_rcp_fatal_task s"
  using assms by (auto simp: esp_hosted_rcp_init_def Let_def dest: rcp_draw_nonce_nonzero split: if_splits)

lemma start_rcp_services:
  assumes "fw_start_rcp env m = Some (ret, m')"
  shows "s_radio_service m' = (if ret = 0 then s_radio_service m OR 2 else s_radio_service m)"
    and "ret = 0 \<Longrightarrow> s_bridge_enabled (fm_rcp m') \<and> s_session_nonce (fm_rcp m') \<noteq> 0 \<and> s_rcp_fatal_task (fm_rcp m')"
  using assms
  by (auto simp: fw_start_rcp_def esp_hosted_rcp_fatal_worker_init_def Let_def dest: rcp_init_started
      split: if_splits option.splits prod.splits rcp_backend.splits)

lemma service_masks:
  fixes s q :: u8
  assumes "q AND NOT 3 = 0" "s AND NOT q = 0"
  shows "(s = 0 \<or> s = 1 \<or> s = 2 \<or> s = 3) \<and> (q = 0 \<or> q = 1 \<or> q = 2 \<or> q = 3)"
proof -
  have small: "w = 0 \<or> w = 1 \<or> w = 2 \<or> w = 3" if "w AND NOT 3 = 0" for w :: u8
  proof -
    have "w = w AND 3"
    proof (rule bit_word_eqI)
      fix n
      have "\<not> bit (w AND NOT 3) n" using that by simp
      then show "n < LENGTH(8) \<Longrightarrow> bit w n = bit (w AND 3) n" by (auto simp: bit_simps)
    qed
    also have "w AND 3 = w mod 4" using take_bit_eq_mask [of 2 w] by (simp add: take_bit_eq_mod mask_eq_exp_minus_1)
    finally have "w = w mod 4" .
    moreover have "w mod 4 < 4" by (rule word_mod_less_divisor) simp
    ultimately have "w < 4" by simp
    then have "unat w < 4" by (simp add: word_less_nat_alt)
    then have k: "unat w = 0 \<or> unat w = 1 \<or> unat w = 2 \<or> unat w = 3" by arith
    have w: "w = of_nat n" if "unat w = n" for n using that by auto
    show ?thesis using k w [of 0] w [of 1] w [of 2] w [of 3] by auto
  qed
  have "s AND NOT 3 = 0"
  proof (rule bit_word_eqI)
    fix n
    have "\<not> bit (s AND NOT q) n" "\<not> bit (q AND NOT 3) n" using assms by simp_all
    then show "n < LENGTH(8) \<Longrightarrow> bit (s AND NOT 3) n = bit 0 n" by (auto simp: bit_simps)
  qed
  with small [of s] small [of q] assms show ?thesis by blast
qed

text \<open>A service request is all or nothing, and never removes a running service.\<close>

lemma radio_service_apply_atomic:
  assumes "esp_radio_service_apply env req m = Some (ret, flags, m')"
  shows "(if ret \<noteq> 0 then s_radio_service m' = s_radio_service m
     else if flags = 0 then s_radio_service m' = req
     else s_radio_service m' = s_radio_service m \<and> s_radio_service m AND NOT req \<noteq> 0) \<and>
    (ret = 0 \<and> flags = 0 \<and> req AND 2 \<noteq> 0 \<and> s_radio_service m AND 2 = 0 \<longrightarrow>
      s_bridge_enabled (fm_rcp m') \<and> s_session_nonce (fm_rcp m') \<noteq> 0 \<and> s_rcp_fatal_task (fm_rcp m'))"
    (is "?P")
proof (cases "req AND NOT 3 \<noteq> 0 \<or> req = s_radio_service m \<or> s_radio_service m AND NOT req \<noteq> 0")
  case True
  with assms show ?thesis
    by (auto simp: esp_radio_service_apply_def Let_def split: if_splits)
next
  case False
  have masks: "(s_radio_service m = 0 \<or> s_radio_service m = 1 \<or> s_radio_service m = 2 \<or> s_radio_service m = 3) \<and>
      (req = 0 \<or> req = 1 \<or> req = 2 \<or> req = 3)"
    using service_masks False by blast
  with False have "s_radio_service m = 0 \<and> req \<in> {1, 2, 3} \<or> s_radio_service m = 1 \<and> req = 3 \<or>
      s_radio_service m = 2 \<and> req = 3"
    by auto
  then show ?thesis
    using assms False by (elim disjE)
      (auto simp: esp_radio_service_apply_def Let_def split: if_splits dest: start_rcp_services)
qed

end
