(* ===== verification/Rcp_Link.thy ===== *)
theory Rcp_Link
  imports Host_Rx Fw_Main
begin

text \<open>
  The radio byte stream end to end over USB: user space on the host, the endpoint, the frames,
  the link, the dispatcher of the firmware and its bridge. Both directions keep every byte in
  order, as long as no side gives the session up.
\<close>

section \<open>The user's end is a failing pipe\<close>

context recovery_transport
begin

lemma reset_closes_session:
  assumes "esp_rcp_session_ready a"
  shows "\<not> esp_rcp_session_ready (esp_request_firmware_restart kenv ops (esp_schedule_fw_reset_recovery ops a))"
proof -
  have "\<not> test_bit ESP_DRIVER_UNLOADING a" "\<not> test_bit ESP_TRANSPORT_REMOVING a"
    using assms by (simp_all add: esp_rcp_session_ready_def)
  from schedule_effect(1) [OF this refl, of ESP_FW_RECOVERY_PENDING 500 False True]
  have "test_bit ESP_FW_RECOVERY_PENDING (esp_schedule_fw_reset_recovery ops a)"
    by (simp add: esp_schedule_fw_reset_recovery_def)
  then show ?thesis by (simp add: esp_rcp_session_ready_def restart_flags)
qed

end

text \<open>An acknowledged session of file \<open>f\<close> on adapter \<open>i\<close>.\<close>

definition rcp_established :: "rcp_file \<Rightarrow> nat \<Rightarrow> rcp_dev \<Rightarrow> 'c esp_adapter \<Rightarrow> bool" where
  "rcp_established f i s a \<longleftrightarrow> esp_rcp_file_is_current f s \<and> rcp_adapter s = Some i \<and> \<not> rcp_boot_pending s \<and>
     rcp_session_acked_nonce s = rcp_session_nonce a \<and> esp_rcp_session_ready a"

definition rcp_user_put ::
  "kernel_env \<Rightarrow> 'c esp_if_ops \<Rightarrow> nat \<Rightarrow> bytes \<Rightarrow> rcp_dev \<times> 'c esp_adapter \<Rightarrow> bool \<times> rcp_dev \<times> 'c esp_adapter" where
  "rcp_user_put kenv ops i d st = (length (rcp_rx_q (fst st)) < 64, esp_rcp_rx kenv ops i d (fst st) (snd st))"

definition rcp_user_get ::
  "rcp_kenv \<Rightarrow> rcp_file \<Rightarrow> nat \<Rightarrow> rcp_dev \<times> 'c esp_adapter \<Rightarrow> bytes \<times> rcp_dev \<times> 'c esp_adapter" where
  "rcp_user_get env f n st =
     (case esp_rcp_read env f n (fst st) of
        (r, s) \<Rightarrow> (case r of Some (Inr d) \<Rightarrow> d | _ \<Rightarrow> [], s, snd st))"

lemma established_rx:
  assumes "rcp_queue_initialized s" "rcp_established f i s a"
  shows "esp_rcp_rx kenv ops i d s a =
    (if length (rcp_rx_q s) < 64 then (s\<lparr>rcp_rx_q := rcp_rx_q s @ [d]\<rparr>, a)
     else (s\<lparr>rcp_rx_q := []\<rparr>, esp_request_firmware_restart kenv ops (esp_schedule_fw_reset_recovery ops a)))"
  using assms by (simp add: esp_rcp_rx_def esp_rcp_init_queues_locked_def rcp_established_def
      esp_rcp_file_is_current_def Let_def)

text \<open>Reception leaves the identity of the session alone.\<close>

lemma rx_keeps:
  assumes "rcp_queue_initialized s" "esp_rcp_rx kenv ops i d s a = (s', a')"
  shows "rcp_queue_initialized s'" "rcp_registered s' = rcp_registered s" "rcp_opened s' = rcp_opened s"
    "rcp_generation s' = rcp_generation s" "rcp_session_active s' = rcp_session_active s"
    "rcp_adapter s' = rcp_adapter s" "rcp_boot_pending s' = rcp_boot_pending s"
    "rcp_session_acked_nonce s' = rcp_session_acked_nonce s"
    "a' = a \<or> esp_rcp_session_ready a \<and> a' = esp_request_firmware_restart kenv ops (esp_schedule_fw_reset_recovery ops a)"
  using assms by (auto simp: esp_rcp_rx_def esp_rcp_init_queues_locked_def Let_def split: if_splits)

lemma requeue_contents:
  assumes "esp_rcp_file_is_current f s"
  shows "snd (esp_rcp_requeue_current f skb s) = s\<lparr>rcp_rx_q := skb # rcp_rx_q s\<rparr>"
  using assms by (simp add: esp_rcp_requeue_current_def)

text \<open>A read of the current file takes a prefix of the readable bytes.\<close>

lemma read_current:
  assumes "esp_rcp_file_is_current f s" "esp_rcp_read env f n s = (r, s')"
  shows "\<exists>q. s' = s\<lparr>rcp_rx_q := q\<rparr> \<and>
    concat (rcp_rx_q s) = (case r of Some (Inr d) \<Rightarrow> d | _ \<Rightarrow> []) @ concat q"
proof (cases "n = 0 \<or> rcp_rx_q s = []")
  case True
  then have "s' = s" "(case r of Some (Inr d) \<Rightarrow> d | _ \<Rightarrow> []) = []"
    using assms by (auto simp: esp_rcp_read_def esp_rcp_dequeue_current_def split: if_splits)
  then show ?thesis by (intro exI [of _ "rcp_rx_q s"]) simp
next
  case False
  then obtain skb q where q: "rcp_rx_q s = skb # q" by (cases "rcp_rx_q s") auto
  define t where "t = s\<lparr>rcp_rx_q := q\<rparr>"
  have t: "esp_rcp_file_is_current f t" using assms(1) by (simp add: t_def esp_rcp_file_is_current_def)
  have run: "(r, s') = (let (res, s) = rcp_read_copy env f n skb t in (Some res, s))"
    using assms False q by (simp add: esp_rcp_read_def esp_rcp_dequeue_current_def t_def)
  let ?k = "min n (length skb)"
  consider (fault) "r = Some (Inl (- EFAULT))" "s' = t\<lparr>rcp_rx_q := skb # q\<rparr>"
    | (part) "r = Some (Inr (take ?k skb))" "s' = t\<lparr>rcp_rx_q := drop ?k skb # q\<rparr>"
    | (all) "r = Some (Inr (take ?k skb))" "s' = t" "drop ?k skb = []"
    using run requeue_contents [OF t] by (auto simp: rcp_read_copy_def Let_def t_def split: if_splits)
  then show ?thesis
  proof cases
    case fault
    then show ?thesis by (intro exI [of _ "skb # q"]) (simp add: t_def q)
  next
    case part
    then show ?thesis by (intro exI [of _ "drop ?k skb # q"]) (simp add: t_def q flip: append_assoc)
  next
    case all
    then have "take ?k skb = skb" by (metis append_Nil2 append_take_drop_id)
    with all show ?thesis by (intro exI [of _ q]) (simp add: t_def q)
  qed
qed

lemma read_not_current:
  assumes "\<not> esp_rcp_file_is_current f s"
  shows "snd (esp_rcp_read env f n s) = s"
  using assms by (simp add: esp_rcp_read_def esp_rcp_dequeue_current_def)

lemma read_established:
  assumes "esp_rcp_read env f n s = (r, s')"
  shows "rcp_established f i s' a = rcp_established f i s a" "rcp_queue_initialized s' = rcp_queue_initialized s"
proof -
  obtain q where "s' = s\<lparr>rcp_rx_q := q\<rparr>"
  proof (cases "esp_rcp_file_is_current f s")
    case True
    with read_current [OF _ assms] that show ?thesis by blast
  next
    case False
    with read_not_current [of f s env n] assms that [of "rcp_rx_q s"] show ?thesis by simp
  qed
  then show "rcp_established f i s' a = rcp_established f i s a" "rcp_queue_initialized s' = rcp_queue_initialized s"
    by (simp_all add: rcp_established_def esp_rcp_file_is_current_def)
qed

context recovery_transport
begin

lemma rx_established:
  assumes "rcp_queue_initialized s" "esp_rcp_rx kenv ops i d s a = (s', a')" "rcp_established f i s' a'"
  shows "rcp_established f i s a" "length (rcp_rx_q s) < 64" "a' = a" "s' = s\<lparr>rcp_rx_q := rcp_rx_q s @ [d]\<rparr>"
proof -
  note k = rx_keeps [OF assms(1,2)]
  show a: "a' = a"
    using k(9) reset_closes_session [of a kenv] assms(3) by (auto simp: rcp_established_def)
  show e: "rcp_established f i s a"
    using assms(3) k by (simp add: a rcp_established_def esp_rcp_file_is_current_def)
  then have r: "esp_rcp_session_ready a" by (simp add: rcp_established_def)
  have "a' \<noteq> esp_request_firmware_restart kenv ops (esp_schedule_fw_reset_recovery ops a)"
    using reset_closes_session [OF r, of kenv] r a by metis
  then show "length (rcp_rx_q s) < 64" "s' = s\<lparr>rcp_rx_q := rcp_rx_q s @ [d]\<rparr>"
    using established_rx [OF assms(1) e, of kenv ops d] assms(2) by (auto split: if_splits)
qed

end

interpretation usb_user: failing_pipe "\<lambda>(s, a). rcp_queue_initialized s" "\<lambda>(s, a). rcp_established f i s a"
  "\<lambda>(s, a). concat (rcp_rx_q s)" "rcp_user_put kenv (esp_usb_if_ops env) i" "rcp_user_get renv f"
  for f i kenv env renv
proof (unfold_locales, goal_cases)
  case (1 st d b st')
  then show ?case by (auto simp: rcp_user_put_def case_prod_beta dest: rx_keeps(1) [OF _ prod.collapse [symmetric]])
next
  case (2 st d b st')
  then show ?case
    using usb_recovery.rx_established(1) [of "fst st" kenv env i d "snd st" "fst st'" "snd st'" f]
    by (auto simp: rcp_user_put_def case_prod_beta)
next
  case (3 st d b st')
  then show ?case
    using usb_recovery.rx_established(2,4) [of "fst st" kenv env i d "snd st" "fst st'" "snd st'" f]
    by (auto simp: rcp_user_put_def case_prod_beta)
next
  case (4 st n g st')
  then show ?case
    using read_established(2) [of renv f n "fst st"] by (auto simp: rcp_user_get_def case_prod_beta prod_eq_iff)
next
  case (5 st n g st')
  then show ?case
    using read_established(1) [of renv f n "fst st"] by (auto simp: rcp_user_get_def case_prod_beta prod_eq_iff)
next
  case (6 st n g st')
  obtain r s' where run: "esp_rcp_read renv f n (fst st) = (r, s')" by fastforce
  with 6 have st': "st' = (s', snd st)" and g: "g = (case r of Some (Inr d) \<Rightarrow> d | _ \<Rightarrow> [])"
    by (auto simp: rcp_user_get_def)
  have "esp_rcp_file_is_current f (fst st)"
    using 6 st' read_established(1) [OF run, of i "snd st"] by (simp add: rcp_established_def)
  from read_current [OF this run] g st' show ?case by (auto simp: case_prod_beta)
qed

section \<open>Frames of the stream\<close>

text \<open>A data chunk of the bridge, framed by the USB firmware, reaches the endpoint as its payload.\<close>

lemma header_of_build_frame:
  assumes "bh_if_type b = 5"
  shows "header_of (usb_build_frame b) =
    Some \<lparr>ph_if_type = 5, ph_if_num = ucast (bh_if_num b), ph_flags = bh_flag b, ph_packet_type = bh_pkt_type b,
      ph_reserved1 = 0, ph_len = of_nat (length (bh_payload b)), ph_offset = 12, ph_checksum = 0,
      ph_reserved2 = 0, ph_union = 0\<rparr>"
  using assms by (simp add: usb_build_frame_def Let_def HDR_SIZE_def)

lemma drop_build_frame: "drop 12 (usb_build_frame b) = bh_payload b"
  by (simp add: usb_build_frame_def Let_def)

lemma rx_rcp_chunk:
  assumes "bh_if_type b = 5" "bh_pkt_type b = 0" "bh_payload b \<noteq> []" "length (bh_payload b) < 65536"
    "capabilities a AND 0x80 = 0"
  shows "process_rx_packet kenv ops raw_tp i (usb_build_frame b) s a = (None, esp_rcp_rx kenv ops i (bh_payload b) s a)"
proof -
  have n: "unat (of_nat (length (bh_payload b)) :: u16) = length (bh_payload b)"
    using assms(4) by (simp add: unat_of_nat)
  then have z: "(of_nat (length (bh_payload b)) :: u16) \<noteq> 0" using assms(3) by (metis length_0_conv unat_0)
  show ?thesis
    using n z assms by (simp add: process_rx_packet_def header_of_build_frame rx_bounds_ok_def
        ESP_OFFSET_VALID_iff length_usb_build_frame rx_checksum_required_def rx_rcp_def drop_build_frame)
qed

section \<open>Radio to user\<close>

fun host_rx_frames ::
  "kernel_env \<Rightarrow> 'c esp_if_ops \<Rightarrow> bool \<Rightarrow> nat \<Rightarrow> bytes list \<Rightarrow> rcp_dev \<Rightarrow> 'c esp_adapter \<Rightarrow> rcp_dev \<times> 'c esp_adapter" where
  "host_rx_frames kenv ops raw_tp i [] s a = (s, a)"
| "host_rx_frames kenv ops raw_tp i (skb # skbs) s a =
     (let (d, s, a) = process_rx_packet kenv ops raw_tp i skb s a in host_rx_frames kenv ops raw_tp i skbs s a)"

lemma usb_reset_capabilities:
  "capabilities (esp_request_firmware_restart kenv (esp_usb_if_ops env)
     (esp_schedule_fw_reset_recovery (esp_usb_if_ops env) a)) = capabilities a"
proof -
  have d: "capabilities (esp_dispatch_firmware_reset (esp_usb_if_ops env) b) = capabilities b" for b
    by (simp add: esp_dispatch_firmware_reset_def if_op_def esp_usb_if_ops_def flag_defs)
  have r: "capabilities (esp_request_firmware_restart kenv (esp_usb_if_ops env) b) = capabilities b" for b
    by (simp add: esp_request_firmware_restart_def Let_def d) (simp add: flag_defs)
  have n: "run_hook (if_op op_note_fw_reset (esp_usb_if_ops env) b) c = c" for b c
    by (simp add: if_op_def esp_usb_if_ops_def)
  show ?thesis
    by (simp add: r esp_schedule_fw_reset_recovery_def esp_schedule_recovery_def n Let_def)
      (simp add: esp_recovery_drop_tx_unlocked_def flag_defs work_defs)
qed

lemma rcp_chunks_tl: "rcp_chunks t (c # cs) \<Longrightarrow> rcp_chunks t cs"
  by (cases cs) (simp_all add: rcp_chunks_def)

lemma chunks_to_user:
  assumes "rcp_chunks 0 cs" "capabilities a AND 0x80 = 0" "rcp_queue_initialized s"
    and "host_rx_frames kenv (esp_usb_if_ops env) raw_tp i (map usb_build_frame cs) s a = (s', a')"
    and "rcp_established f i s' a'"
  shows "rcp_established f i s a \<and> rcp_rx_q s' = rcp_rx_q s @ map bh_payload cs \<and> a' = a"
  using assms
proof (induction cs arbitrary: s a)
  case (Cons c cs)
  obtain s1 a1 where r: "esp_rcp_rx kenv (esp_usb_if_ops env) i (bh_payload c) s a = (s1, a1)" by fastforce
  have p: "process_rx_packet kenv (esp_usb_if_ops env) raw_tp i (usb_build_frame c) s a = (None, s1, a1)"
    using rx_rcp_chunk [of c a kenv "esp_usb_if_ops env" raw_tp i s] Cons.prems(1,2) r by (simp add: rcp_chunks_def)
  have q: "rcp_queue_initialized s1" using rx_keeps(1) [OF Cons.prems(3) r] .
  have c: "capabilities a1 AND 0x80 = 0"
    using rx_keeps(9) [OF Cons.prems(3) r] Cons.prems(2) by (auto simp: usb_reset_capabilities)
  have IH: "rcp_established f i s1 a1 \<and> rcp_rx_q s' = rcp_rx_q s1 @ map bh_payload cs \<and> a' = a1"
    using Cons.IH [OF rcp_chunks_tl [OF Cons.prems(1)] c q] Cons.prems(4,5) p by simp
  then have e: "rcp_established f i s1 a1" by blast
  have "rcp_rx_q s1 = rcp_rx_q s @ [bh_payload c]"
    using usb_recovery.rx_established(4) [OF Cons.prems(3) r e] by simp
  with IH usb_recovery.rx_established(1,3) [OF Cons.prems(3) r e] show ?case by simp
qed simp

lemma radio_to_user:
  assumes "bridge_inv br" "s_bridge_enabled br" "esp_hosted_rcp_send_to_host renv data br = (0, br')"
    and "list_all2 (fw_wrote c buffered deadline) ws outs" "fd_ep_mps c = 512"
    and "e2h_stream br' = e2h_stream br @ map fst ws"
    and "rx_settled ctx" "rx_stream ctx = []" "\<not> rx_pad_expected ctx" "bulk_in_mps ctx = 512" "rx_queue ctx = []"
    and "\<forall>n c. ue_alloc_skb env n c" "concat transfers = concat outs"
    and "host_rx_frames kenv (esp_usb_if_ops env) raw_tp i (rx_queue (fst (host_ingest_all env transfers ctx b))) s a = (s', a')"
    and "capabilities a AND 0x80 = 0" "rcp_queue_initialized s" "rcp_established f i s' a'"
  shows "concat (rcp_rx_q s') = concat (rcp_rx_q s) @ data"
proof -
  obtain cs where cs: "send_outcome 0 data br 0 br' cs"
    using send_packet_inv(3) [OF assms(1) assms(3) [unfolded esp_hosted_rcp_send_to_host_def] assms(2)] by blast
  then have o: "e2h_stream br' = e2h_stream br @ cs" "rcp_chunks 0 cs" "data = concat (map bh_payload cs)"
    by (auto simp: send_outcome_def)
  then have w: "map fst ws = cs" using assms(6) by simp
  have "rx_queue (fst (host_ingest_all env transfers ctx b)) = map usb_build_frame cs"
    using device_to_host [OF assms(4,5,7-10,12,13), of b] assms(11) by (simp flip: w)
  with chunks_to_user [OF o(2) assms(15,16), of kenv env raw_tp i s' a' f] assms(14,17) o(3)
  show ?thesis by simp
qed

section \<open>User to radio\<close>

text \<open>The frames a write has put behind the others in the queue of the stateful interfaces.\<close>

definition usb_mid_queue :: "esp_usb_context esp_adapter \<Rightarrow> bytes list" where
  "usb_mid_queue a = (case if_context a of None \<Rightarrow> [] | Some ctx \<Rightarrow> tx_queue ctx PRIO_Q_MID)"

definition rcp_frame :: "'c esp_adapter \<Rightarrow> bytes \<Rightarrow> bytes" where
  "rcp_frame a d = esp_tx_frame ESP_RCP_IF 0 PACKET_TYPE_DATA (capabilities a AND 0x80 \<noteq> 0) d"

text \<open>What the transport changes in the adapter.\<close>

definition same_but_context :: "'c esp_adapter \<Rightarrow> 'c esp_adapter \<Rightarrow> bool" where
  "same_but_context a b \<longleftrightarrow> b = a\<lparr>if_context := if_context b\<rparr>"

lemma same_but_contextD:
  assumes "same_but_context a b"
  shows "esp_rcp_session_ready b = esp_rcp_session_ready a" "rcp_frame b = rcp_frame a"
    "capabilities b = capabilities a"
proof -
  have b: "b = a\<lparr>if_context := if_context b\<rparr>" using assms by (simp add: same_but_context_def)
  show "esp_rcp_session_ready b = esp_rcp_session_ready a" "rcp_frame b = rcp_frame a" "capabilities b = capabilities a"
    by (subst b, simp add: esp_rcp_session_ready_def rcp_frame_def fun_eq_iff flag_defs)+
qed

lemma same_but_context_trans: "same_but_context a b \<Longrightarrow> same_but_context b c \<Longrightarrow> same_but_context a c"
  unfolding same_but_context_def by (metis esp_adapter.fold_congs(13) esp_adapter.surjective esp_adapter.update_convs(13))

lemma tx_priority_rcp: "esp_usb_tx_priority (rcp_frame a d) = PRIO_Q_MID"
proof -
  obtain sum where "header_of (rcp_frame a d) = Some (esp_tx_header 5 0 0 sum (length d))"
    using header_of_tx_frame [of 5 0 0 "capabilities a AND 0x80 \<noteq> 0" d] by (auto simp: rcp_frame_def)
  then show ?thesis by (simp add: esp_usb_tx_priority_def esp_usb_skb_if_type_def esp_tx_header_def)
qed

lemma usb_write_mid:
  assumes "esp_usb_tx_priority skb = PRIO_Q_MID"
  shows "tx_queue (snd (esp_usb_write lin skb ctx)) PRIO_Q_MID =
    tx_queue ctx PRIO_Q_MID @ (if fst (esp_usb_write lin skb ctx) = 0 then [skb] else [])"
  using assms by (simp add: esp_usb_write_def Let_def)

lemma usb_send_rcp:
  assumes "esp_send_packet (esp_usb_if_ops env) (rcp_frame x d) a = (ret, a')"
  shows "same_but_context a a' \<and> usb_mid_queue a' = usb_mid_queue a @ (if ret = 0 then [rcp_frame x d] else []) \<and> ret \<le> 0"
proof -
  let ?w = "op_write (esp_usb_if_ops env)"
  have w: "?w = Some (\<lambda>a skb. with_context (\<lambda>ctx a. esp_usb_write (ue_linearize env skb) skb ctx) a)"
    by (simp add: esp_usb_if_ops_def)
  show ?thesis
  proof (cases "if_ops_bound a \<and> \<not> (test_bit ESP_TRANSPORT_REMOVING a \<or>
      test_bit ESP_CLEANUP_IN_PROGRESS a \<and> \<not> test_bit ESP_ALLOW_DEINIT a \<and> \<not> test_bit ESP_ALLOW_RECONSTRUCT a) \<and>
      if_context a \<noteq> None")
    case False
    then have "a' = a" "ret < 0"
      using assms by (auto simp: esp_send_packet_def if_op_def w with_context_def split: if_splits)
    then show ?thesis by (simp add: same_but_context_def)
  next
    case True
    then obtain ctx where ctx: "if_context a = Some ctx" by blast
    define r where "r = esp_usb_write (ue_linearize env (rcp_frame x d)) (rcp_frame x d) ctx"
    have "fst r \<le> 0" by (simp add: r_def esp_usb_write_def Let_def)
    moreover have "(ret, a') = (fst r, a\<lparr>if_context := Some (snd r)\<rparr>)"
      using assms True ctx by (auto simp: esp_send_packet_def if_op_def w with_context_def r_def case_prod_beta)
    ultimately show ?thesis
      using usb_write_mid [OF tx_priority_rcp, of "ue_linearize env (rcp_frame x d)" x d ctx] ctx
      by (simp add: same_but_context_def usb_mid_queue_def flip: r_def)
  qed
qed

text \<open>The chunks of a write: at most 1400 bytes each, none empty.\<close>

definition user_chunks :: "bytes list \<Rightarrow> bool" where
  "user_chunks cs \<longleftrightarrow> (\<forall>c \<in> set cs. c \<noteq> [] \<and> length c \<le> 1400)"

definition same_but_slots :: "rcp_dev \<Rightarrow> rcp_dev \<Rightarrow> bool" where
  "same_but_slots s t \<longleftrightarrow> t = s\<lparr>rcp_tx_slots := rcp_tx_slots t\<rparr>"

lemma same_but_slots_simps [simp]:
  "same_but_slots s s" "same_but_slots s (s\<lparr>rcp_tx_slots := n\<rparr>)" "same_but_slots s (esp_rcp_release_tx_slot s)"
  by (simp_all add: same_but_slots_def esp_rcp_release_tx_slot_def)

lemma same_but_slots_trans: "same_but_slots s t \<Longrightarrow> same_but_slots t u \<Longrightarrow> same_but_slots s u"
  unfolding same_but_slots_def by (cases s; cases t; cases u) simp

lemma same_but_slots_current: "same_but_slots s t \<Longrightarrow> esp_rcp_file_is_current f t = esp_rcp_file_is_current f s"
  unfolding same_but_slots_def by (cases s; cases t) (simp add: esp_rcp_file_is_current_def)

lemma publish_usb:
  assumes "rcp_publish_chunk (esp_usb_if_ops env) f i (rcp_frame x d) s a = (ret, s', a')"
  shows "same_but_context a a' \<and> usb_mid_queue a' = usb_mid_queue a @ (if ret = 0 then [rcp_frame x d] else []) \<and>
    same_but_slots s s' \<and> ret \<le> 0"
proof (cases "\<not> esp_rcp_file_is_current f s \<or> rcp_adapter s \<noteq> Some i \<or> \<not> esp_rcp_session_ready a")
  case True
  with assms show ?thesis
    by (auto simp: rcp_publish_chunk_def same_but_context_def)
next
  case False
  obtain r b where e: "esp_send_packet (esp_usb_if_ops env) (rcp_frame x d) a = (r, b)" by fastforce
  with usb_send_rcp [OF e] assms False show ?thesis
    by (auto simp: rcp_publish_chunk_def split: if_splits)
qed

lemma send_chunk_usb:
  assumes "esp_rcp_send_chunk renv (esp_usb_if_ops env) f i d s a = (ret, s', a')"
  shows "same_but_context a a' \<and> usb_mid_queue a' = usb_mid_queue a @ (if ret = Some 0 then [rcp_frame a d] else []) \<and>
    same_but_slots s s' \<and> (\<forall>r. ret = Some r \<longrightarrow> r \<le> 0)"
proof -
  obtain q t where r: "esp_rcp_reserve_tx_slot f s = (q, t)" by fastforce
  have t: "same_but_slots s t" and q: "\<forall>x. q = Some x \<longrightarrow> x \<le> 0"
    using r by (auto simp: esp_rcp_reserve_tx_slot_def split: if_splits)
  have refl: "same_but_context a a" by (simp add: same_but_context_def)
  have slots: "same_but_slots s (esp_rcp_release_tx_slot t)"
    by (rule same_but_slots_trans [OF t]) simp
  show ?thesis
  proof (cases "q = Some 0 \<and> rk_alloc_skb renv \<and> rk_copy_from_user renv")
    case False
    then have "a' = a" "ret \<noteq> Some 0" "s' = t \<or> s' = esp_rcp_release_tx_slot t" "\<forall>x. ret = Some x \<longrightarrow> x \<le> 0"
      using assms r q by (auto simp: esp_rcp_send_chunk_def split: option.splits if_splits)
    with refl slots t show ?thesis by auto
  next
    case True
    obtain x y z where p: "rcp_publish_chunk (esp_usb_if_ops env) f i (rcp_frame a d) t a = (x, y, z)"
      by (metis prod_cases3)
    then have "ret = Some x" "s' = y" "a' = z"
      using assms r True by (auto simp: esp_rcp_send_chunk_def rcp_frame_def [symmetric])
    with publish_usb [OF p] same_but_slots_trans [OF t] show ?thesis by auto
  qed
qed

lemma write_loop_usb:
  assumes "rcp_write_loop renv (esp_usb_if_ops env) f i done data s a = (Some r, s', a')"
    and "esp_rcp_file_is_current f s" "esp_rcp_session_ready a"
  shows "\<exists>cs rest. data = concat cs @ rest \<and> user_chunks cs \<and> usb_mid_queue a' = usb_mid_queue a @ map (rcp_frame a) cs \<and>
    same_but_context a a' \<and> (if r < 0 then cs = [] \<and> done = 0 else r = int (done + length (concat cs)))"
  using assms
proof (induction data arbitrary: "done" s a rule: length_induct)
  case (1 data)
  show ?case
  proof (cases "data = []")
    case True
    with 1 have "r = int done" "s' = s" "a' = a" by (auto simp: rcp_write_loop.simps [of renv])
    then show ?thesis by (intro exI [of _ "[]"]) (simp add: True user_chunks_def same_but_context_def)
  next
    case False
    let ?n = "min (length data) 1400"
    obtain q t b where c: "esp_rcp_send_chunk renv (esp_usb_if_ops env) f i (take ?n data) s a = (q, t, b)"
      by (metis prod_cases3)
    note e = send_chunk_usb [OF c]
    then have t: "same_but_slots s t" by blast
    from False "1.prems" c obtain x where x: "q = Some x"
      by (cases q) (auto simp: rcp_write_loop.simps [of renv])
    show ?thesis
    proof (cases "x = 0")
      case False
      then have "a' = b" "r = (if done \<noteq> 0 then int done else x)" "x < 0"
        using "1.prems" \<open>data \<noteq> []\<close> c x e by (auto simp: rcp_write_loop.simps [of renv])
      with e x False show ?thesis
        by (intro exI [of _ "[]"] exI [of _ data]) (auto simp: user_chunks_def \<open>data \<noteq> []\<close>)
    next
      case True
      have run: "rcp_write_loop renv (esp_usb_if_ops env) f i (done + ?n) (drop ?n data) t b = (Some r, s', a')"
        using "1.prems" False c x True by (simp add: rcp_write_loop.simps [of renv _ f i "done" data] Let_def)
      have cur: "esp_rcp_file_is_current f t" using "1.prems"(2) by (simp add: same_but_slots_current [OF t])
      have b: "same_but_context a b" using e by blast
      have "length (drop ?n data) < length data" using False by simp
      from "1.IH" [rule_format, OF this run cur] "1.prems"(3) same_but_contextD [OF b]
      obtain cs rest where IH: "drop ?n data = concat cs @ rest" "user_chunks cs"
        "usb_mid_queue a' = usb_mid_queue b @ map (rcp_frame b) cs" "same_but_context b a'"
        "if r < 0 then cs = [] \<and> done + ?n = 0 else r = int (done + ?n + length (concat cs))"
        by auto
      have d: "data = concat (take ?n data # cs) @ rest"
        using IH(1) append_take_drop_id [of ?n data] by simp
      have "user_chunks (take ?n data # cs)" using IH(2) False by (auto simp: user_chunks_def)
      moreover have "usb_mid_queue a' = usb_mid_queue a @ map (rcp_frame a) (take ?n data # cs)"
        using IH(3) e True x same_but_contextD(2) [OF b] by simp
      moreover have "same_but_context a a'" by (rule same_but_context_trans [OF b IH(4)])
      moreover have "if r < 0 then take ?n data # cs = [] \<and> done = 0
          else r = int (done + length (concat (take ?n data # cs)))"
        using IH(5) False by (auto simp: min_def split: if_splits)
      ultimately show ?thesis using d
        by (intro exI [of _ "take ?n data # cs"] exI [of _ rest]) simp
    qed
  qed
qed

text \<open>What the firmware sees of such a frame.\<close>

lemma rcp_frame_fields:
  assumes "d \<noteq> []" "length d \<le> 1400"
  shows "\<exists>sum. header_of (rcp_frame a d) = Some (esp_tx_header 5 0 0 sum (length d))"
    and "length (rcp_frame a d) = esp_pad_len (length d) + length d"
    and "complete_frame esp_usb_valid_header (rcp_frame a d)"
    and "fe_checksum env \<longrightarrow> capabilities a AND 0x80 \<noteq> 0 \<Longrightarrow> 1415 \<le> fe_rx_buf_size env \<Longrightarrow> h2e_frame env (rcp_frame a d)"
    and "frame_payload (rcp_frame a d) = d" "ph_if_type (frame_header (rcp_frame a d)) = 5"
    "ph_packet_type (frame_header (rcp_frame a d)) = 0"
proof -
  obtain sum where h: "header_of (rcp_frame a d) = Some (esp_tx_header 5 0 0 sum (length d))"
    using header_of_tx_frame [of 5 0 0 "capabilities a AND 0x80 \<noteq> 0" d] by (auto simp: rcp_frame_def)
  then show "\<exists>sum. header_of (rcp_frame a d) = Some (esp_tx_header 5 0 0 sum (length d))" by blast
  show len: "length (rcp_frame a d) = esp_pad_len (length d) + length d"
    by (simp add: rcp_frame_def length_esp_tx_frame)
  have f: "unat (ph_len (esp_tx_header 5 0 0 sum (length d))) = length d"
    "unat (ph_offset (esp_tx_header 5 0 0 sum (length d))) = esp_pad_len (length d)"
    using esp_tx_header_fields [of d] assms(2) by simp_all
  note b = esp_pad_len_bounds [of "length d"]
  have "esp_usb_valid_header (esp_tx_header 5 0 0 sum (length d)) = Some (esp_pad_len (length d) + length d)"
    using f b assms by (simp add: esp_usb_valid_header_iff) (simp add: esp_tx_header_def)
  then show "complete_frame esp_usb_valid_header (rcp_frame a d)"
    using h len by (simp add: complete_frame_iff)
  show "fe_checksum env \<longrightarrow> capabilities a AND 0x80 \<noteq> 0 \<Longrightarrow> 1415 \<le> fe_rx_buf_size env \<Longrightarrow> h2e_frame env (rcp_frame a d)"
    using f b assms len tx_frame_checksum [of 5 0 0 d]
    by (auto simp: h2e_frame_def h ESP_OFFSET_VALID_iff) (simp add: rcp_frame_def)
  show "frame_payload (rcp_frame a d) = d"
    using f(2) drop_tx_frame [of d] by (simp add: frame_payload_def frame_header_def h) (simp add: rcp_frame_def)
  show "ph_if_type (frame_header (rcp_frame a d)) = 5" "ph_packet_type (frame_header (rcp_frame a d)) = 0"
    by (simp_all add: frame_header_def h) (simp_all add: esp_tx_header_def)
qed

text \<open>A bridge in session with room for \<open>n\<close> more chunks.\<close>

definition bridge_room :: "rcp_env \<Rightarrow> nat \<Rightarrow> rcp_bridge \<Rightarrow> bool" where
  "bridge_room env n br \<longleftrightarrow> esp_hosted_rcp_fail_closed_required br \<and> re_malloc env \<and>
     (\<exists>q. s_rx_queue br = Some q \<and> length q + n \<le> re_rx_queue_size env)"

lemma bridge_takes_chunk:
  assumes "bridge_room env (Suc n) br" "d \<noteq> []"
  shows "\<exists>br'. process_rx_rcp env 0 d br = (True, br') \<and> h2e_bytes br' = h2e_bytes br @ d \<and> bridge_room env n br'"
proof -
  obtain q where q: "s_rx_queue br = Some q" "length q + Suc n \<le> re_rx_queue_size env"
    using assms(1) by (auto simp: bridge_room_def)
  have "fst (esp_hosted_rcp_rx_from_host env d br) = 0"
    "h2e_bytes (snd (esp_hosted_rcp_rx_from_host env d br)) = h2e_bytes br @ d"
    "bridge_room env n (snd (esp_hosted_rcp_rx_from_host env d br))"
    using assms q by (auto simp: esp_hosted_rcp_rx_from_host_def bridge_room_def Let_def
        esp_hosted_rcp_fail_closed_required_def h2e_bytes_def rcp_pending_def)
  then show ?thesis by (auto simp: process_rx_rcp_def case_prod_beta)
qed

lemma fw_takes_frames:
  assumes "user_chunks cs" "fe_hosted_rcp env" "fe_checksum env \<longrightarrow> capabilities a AND 0x80 \<noteq> 0"
    "1415 \<le> fe_rx_buf_size env" "bridge_room (fe_rcp_env env) (length cs) (fm_rcp m)"
  shows "h2e_bytes (fm_rcp (fold (\<lambda>b. process_rx_pkt env (bh_payload b)) (map (usb_frame_handle \<circ> rcp_frame a) cs) m)) =
    h2e_bytes (fm_rcp m) @ concat cs"
  using assms(1,5)
proof (induction cs arbitrary: m)
  case (Cons d cs)
  then have d: "d \<noteq> []" "length d \<le> 1400" "user_chunks cs" by (auto simp: user_chunks_def)
  note f = rcp_frame_fields [OF d(1,2)]
  have p: "bh_payload (usb_frame_handle (rcp_frame a d)) = rcp_frame a d"
    by (simp add: usb_frame_handle_def split: option.splits)
  have "bridge_room (fe_rcp_env env) (Suc (length cs)) (fm_rcp m)" using Cons.prems(2) by simp
  from bridge_takes_chunk [OF this d(1)] obtain br' where
    br: "process_rx_rcp (fe_rcp_env env) 0 d (fm_rcp m) = (True, br')"
    "h2e_bytes br' = h2e_bytes (fm_rcp m) @ d" "bridge_room (fe_rcp_env env) (length cs) br'" by blast
  have "process_rx_pkt env (rcp_frame a d) m = m\<lparr>fm_rcp := br'\<rparr>"
  proof -
    have "fw_rx_frame env (frame_header (rcp_frame a d)) (frame_payload (rcp_frame a d)) m = (True, m\<lparr>fm_rcp := br'\<rparr>)"
      by (simp add: fw_rx_frame_def f(5-7) br(1) assms(2))
    moreover have "h2e_frame env (rcp_frame a d)" by (rule f(4) [OF assms(3,4)])
    ultimately show ?thesis using fw_rx_aggregate [of env "[rcp_frame a d]" 0 m] by simp
  qed
  with Cons.IH [OF d(3), of "m\<lparr>fm_rcp := br'\<rparr>"] br p show ?case by simp
qed simp

lemma user_to_radio:
  assumes "esp_rcp_write renv (esp_usb_if_ops env) f data s a = (Some r, s', a')"
    and "esp_rcp_file_is_current f s" "esp_rcp_session_ready a" "rcp_adapter s \<noteq> None" "0 \<le> r"
    and "usb_mid_queue a' = usb_mid_queue a @ frames"
    and "\<forall>n c. malloc n c" "fd_rx_queue c = Some []" "fd_rx_stream c = []" "length frames \<le> 32"
    and "usb_ingest malloc (concat frames) c rcp = (ret, c', rcp')"
    and "fe_hosted_rcp fe" "fe_checksum fe \<longrightarrow> capabilities a AND 0x80 \<noteq> 0" "1415 \<le> fe_rx_buf_size fe"
      "bridge_room (fe_rcp_env fe) (length frames) (fm_rcp m)"
  shows "ret = 0 \<and> h2e_bytes (fm_rcp (fold (\<lambda>b. process_rx_pkt fe (bh_payload b)) (the (fd_rx_queue c')) m)) =
    h2e_bytes (fm_rcp m) @ take (nat r) data"
proof -
  obtain cs where cs: "concat cs = take (nat r) data" "user_chunks cs" "frames = map (rcp_frame a) cs"
  proof (cases "data = []")
    case True
    with assms(1) have "a' = a" by (simp add: esp_rcp_write_def)
    with assms(6) True that [of "[]"] show ?thesis by (simp add: user_chunks_def)
  next
    case False
    then obtain i where "rcp_write_loop renv (esp_usb_if_ops env) f i 0 data s a = (Some r, s', a')"
      using assms(1-4) by (auto simp: esp_rcp_write_def esp_rcp_adapter_snapshot_def)
    from write_loop_usb [OF this assms(2,3)] obtain cs rest where
      "data = concat cs @ rest" "user_chunks cs" "usb_mid_queue a' = usb_mid_queue a @ map (rcp_frame a) cs"
      "r = int (length (concat cs))" using assms(5) by auto
    with assms(6) that [of cs] show ?thesis by auto
  qed
  have ok: "\<forall>fr \<in> set frames. complete_frame esp_usb_valid_header fr"
    using cs(2,3) rcp_frame_fields(3) by (auto simp: user_chunks_def)
  have "usb_ingest malloc (concat frames) c rcp =
      (0, c\<lparr>fd_rx_queue := Some ([] @ map usb_frame_handle frames)\<rparr>, rcp)"
    by (rule host_to_device [OF ok assms(7-9)]) (use assms(10) in simp)
  with assms(11) have "ret = 0" "the (fd_rx_queue c') = map (usb_frame_handle \<circ> rcp_frame a) cs"
    using cs(3) by auto
  with fw_takes_frames [OF cs(2) assms(12-14), of m] assms(15) cs show ?thesis by simp
qed

end
