(* ===== verification/Host_Cmd.thy ===== *)
theory Host_Cmd
  imports Host_Tx
begin

text \<open>
  The command queue of the host (\<^verbatim>\<open>host/esp_cmd.c\<close>): a pool of twenty command nodes, the free
  and the pending queue, the worker that submits one command at a time, the matching of
  responses, the wait with its timeout, and set-up and teardown. The callers of the command
  functions run concurrently; the step relation has the locked sections of the code as steps.
  Shown: every node is in exactly one place, at most one command is in flight, a response
  completes only the command it answers, a command that timed out is never submitted later.
  The host is little-endian, so the conversions of the response fields are the identity. The wireless
  fields of the interface and the calls into cfg80211 are here too: responses change them.
\<close>

section \<open>Commands\<close>

abbreviation (input) CMD_INIT_INTERFACE :: u8 where "CMD_INIT_INTERFACE \<equiv> 1"
abbreviation (input) CMD_SET_MAC :: u8 where "CMD_SET_MAC \<equiv> 2"
abbreviation (input) CMD_GET_MAC :: u8 where "CMD_GET_MAC \<equiv> 3"
abbreviation (input) CMD_SCAN_REQUEST :: u8 where "CMD_SCAN_REQUEST \<equiv> 4"
abbreviation (input) CMD_STA_CONNECT :: u8 where "CMD_STA_CONNECT \<equiv> 5"
abbreviation (input) CMD_DISCONNECT :: u8 where "CMD_DISCONNECT \<equiv> 6"
abbreviation (input) CMD_DEINIT_INTERFACE :: u8 where "CMD_DEINIT_INTERFACE \<equiv> 7"
abbreviation (input) CMD_ADD_KEY :: u8 where "CMD_ADD_KEY \<equiv> 8"
abbreviation (input) CMD_DEL_KEY :: u8 where "CMD_DEL_KEY \<equiv> 9"
abbreviation (input) CMD_SET_DEFAULT_KEY :: u8 where "CMD_SET_DEFAULT_KEY \<equiv> 10"
abbreviation (input) CMD_STA_AUTH :: u8 where "CMD_STA_AUTH \<equiv> 11"
abbreviation (input) CMD_STA_ASSOC :: u8 where "CMD_STA_ASSOC \<equiv> 12"
abbreviation (input) CMD_SET_IP_ADDR :: u8 where "CMD_SET_IP_ADDR \<equiv> 13"
abbreviation (input) CMD_SET_MCAST_MAC_ADDR :: u8 where "CMD_SET_MCAST_MAC_ADDR \<equiv> 14"
abbreviation (input) CMD_GET_TXPOWER :: u8 where "CMD_GET_TXPOWER \<equiv> 15"
abbreviation (input) CMD_SET_TXPOWER :: u8 where "CMD_SET_TXPOWER \<equiv> 16"
abbreviation (input) CMD_GET_REG_DOMAIN :: u8 where "CMD_GET_REG_DOMAIN \<equiv> 17"
abbreviation (input) CMD_SET_REG_DOMAIN :: u8 where "CMD_SET_REG_DOMAIN \<equiv> 18"
abbreviation (input) CMD_RAW_TP_ESP_TO_HOST :: u8 where "CMD_RAW_TP_ESP_TO_HOST \<equiv> 19"
abbreviation (input) CMD_RAW_TP_HOST_TO_ESP :: u8 where "CMD_RAW_TP_HOST_TO_ESP \<equiv> 20"
abbreviation (input) CMD_SET_WOW_CONFIG :: u8 where "CMD_SET_WOW_CONFIG \<equiv> 21"
abbreviation (input) CMD_SET_MODE :: u8 where "CMD_SET_MODE \<equiv> 22"
abbreviation (input) CMD_SET_IE :: u8 where "CMD_SET_IE \<equiv> 23"
abbreviation (input) CMD_AP_CONFIG :: u8 where "CMD_AP_CONFIG \<equiv> 24"
abbreviation (input) CMD_MGMT_TX :: u8 where "CMD_MGMT_TX \<equiv> 25"
abbreviation (input) CMD_AP_STATION :: u8 where "CMD_AP_STATION \<equiv> 26"
abbreviation (input) CMD_STA_RSSI :: u8 where "CMD_STA_RSSI \<equiv> 27"
abbreviation (input) CMD_SET_TIME :: u8 where "CMD_SET_TIME \<equiv> 28"
abbreviation (input) CMD_START_OTA_UPDATE :: u8 where "CMD_START_OTA_UPDATE \<equiv> 29"
abbreviation (input) CMD_START_OTA_WRITE :: u8 where "CMD_START_OTA_WRITE \<equiv> 30"
abbreviation (input) CMD_START_OTA_END :: u8 where "CMD_START_OTA_END \<equiv> 31"
abbreviation (input) CMD_STA_SET_AUTHORIZED :: u8 where "CMD_STA_SET_AUTHORIZED \<equiv> 32"
abbreviation (input) CMD_SET_RADIO_SERVICE :: u8 where "CMD_SET_RADIO_SERVICE \<equiv> 33"
abbreviation (input) CMD_GET_RADIO_SERVICE :: u8 where "CMD_GET_RADIO_SERVICE \<equiv> 34"
abbreviation (input) CMD_MONITOR_CONFIG :: u8 where "CMD_MONITOR_CONFIG \<equiv> 37"
abbreviation (input) CMD_RAW_TP_BIDIRECTIONAL :: u8 where "CMD_RAW_TP_BIDIRECTIONAL \<equiv> 38"
abbreviation (input) CMD_MAX :: u8 where "CMD_MAX \<equiv> 39"

abbreviation (input) CMD_RESPONSE_SUCCESS :: u8 where "CMD_RESPONSE_SUCCESS \<equiv> 2"
abbreviation (input) CMD_RESPONSE_BUSY :: u8 where "CMD_RESPONSE_BUSY \<equiv> 3"
abbreviation (input) CMD_RESPONSE_UNSUPPORTED :: u8 where "CMD_RESPONSE_UNSUPPORTED \<equiv> 4"
abbreviation (input) CMD_RESPONSE_INVALID :: u8 where "CMD_RESPONSE_INVALID \<equiv> 5"

abbreviation (input) EOPNOTSUPP :: int where "EOPNOTSUPP \<equiv> 95"
abbreviation (input) EALREADY :: int where "EALREADY \<equiv> 114"

abbreviation (input) ESP_NUM_OF_CMD_NODES :: nat where "ESP_NUM_OF_CMD_NODES \<equiv> 20"
abbreviation (input) ESP_SIZE_OF_CMD_NODE :: nat where "ESP_SIZE_OF_CMD_NODE \<equiv> 2048"
abbreviation (input) HOSTED_MGMT_TX_ASYNC_STATUS_V1 :: u8 where "HOSTED_MGMT_TX_ASYNC_STATUS_V1 \<equiv> 0xA5"

text \<open>\<open>struct command_header\<close>: code, status, length and sequence number, two reserved bytes.\<close>

definition command_header :: "u8 \<Rightarrow> u8 \<Rightarrow> u16 \<Rightarrow> u16 \<Rightarrow> bytes" where
  "command_header code status len seq = [code, status] @ le_bytes 2 len @ le_bytes 2 seq @ [0, 0]"

definition ch_status :: "bytes \<Rightarrow> u8" where
  "ch_status skb = skb ! 1"

definition ch_len :: "bytes \<Rightarrow> u16" where
  "ch_len skb = le_word (take 2 (drop 2 skb))"

definition ch_seq :: "bytes \<Rightarrow> u16" where
  "ch_seq skb = le_word (take 2 (drop 4 skb))"

section \<open>State\<close>

text \<open>\<open>struct command_node\<close>; the length of \<open>mgmt_frame\<close> is \<open>mgmt_frame_len\<close>.\<close>

record command_node =
  cmd_code :: u8
  cmd_seq :: u16
  cmd_skb :: "bytes option"
  resp_skb :: "bytes option"
  in_pending_queue :: bool
  in_use :: bool
  completed :: bool
  cn_result :: int
  queued_at :: u64
  sent_at :: u64
  cookie :: u64
  mgmt_frame :: "bytes option"
  mgmt_dont_wait_for_ack :: bool

definition fresh_node :: command_node where
  "fresh_node = \<lparr>cmd_code = 0, cmd_seq = 0, cmd_skb = None, resp_skb = None, in_pending_queue = False,
     in_use = False, completed = False, cn_result = 0, queued_at = 0, sent_at = 0, cookie = 0,
     mgmt_frame = None, mgmt_dont_wait_for_ack = False\<rparr>"

text \<open>The command fields of \<open>struct esp_adapter\<close>. \<open>cmd_pool\<close>: the pool is allocated; a node is named
  by its index in it.\<close>

record cmd_queue =
  cmd_pool :: bool
  cmd_nodes :: "nat \<Rightarrow> command_node"
  cmd_nodes_in_use :: int
  cmd_free_queue :: "nat list"
  cmd_pending_queue :: "nat list"
  cur_cmd :: "nat option"
  cmd_resp :: u8
  cmd_resp_seq :: u16
  next_cmd_seq :: u16
  cmd_wq :: bool
  cmd_work :: bool

text \<open>The calls of the driver into cfg80211, as a ghost list in \<open>wifi_priv\<close>; a BSS is named by a
  number.\<close>

datatype cfg_event =
    CFG_MGMT_TX_STATUS u64 bytes bool
  | CFG_RX_AUTH bytes
  | CFG_RX_DEAUTH bytes
  | CFG_RX_ASSOC "nat option" bytes bytes
  | CFG_DISCONNECTED u16 bool
  | CFG_RX_MGMT int u32 bytes
  | CFG_INFORM_BSS u8 u8 bytes u64 u16 u16 bytes u32
  | CFG_SCAN_DONE bool
  | CFG_REF_BSS nat
  | CFG_PUT_BSS nat

text \<open>The fields of \<open>struct esp_wifi_device\<close> that commands and events use, beside those of the data path in
  \<open>esp_wifi_device\<close>. \<open>scan_request\<close>: \<open>request\<close> is not \<open>NULL\<close>; a work item is whether it is queued.\<close>

record wifi_priv =
  mac_address :: bytes
  tx_pwr :: u8
  rssi :: u8
  country_code :: bytes
  local_disconnect_req :: bool
  waiting_for_scan_done :: bool
  scan_in_progress :: bool
  scan_request :: bool
  wp_bss :: "nat option"
  assoc_req_ie :: bytes
  assoc_cmd_pending :: bool
  assoc_bssid :: bytes
  assoc_cmd_seq :: u16
  assoc_control_port :: bool
  auth_bssid :: bytes
  auth_cmd_seq :: u16
  disconnect_bssid :: bytes
  disconnect_cmd_seq :: u16
  conn_generation :: u16
  mgmt_tx_id :: u64
  pending_mgmt_id :: u64
  pending_mgmt_cookie :: u64
  pending_mgmt_active :: bool
  pending_mgmt_sent_at :: u64
  mlme_work :: bool
  mlme_timeout_work :: bool
  scan_timeout_work :: bool
  staged_auth_q :: "bytes list"
  staged_assoc_skb :: "bytes option"
  staged_disconnect_skb :: "bytes option"
  staged_assoc_seq :: u16
  mlme_wdev_held :: bool
  auth_cmd_pending :: bool
  disconnect_cmd_pending :: bool
  assoc_awaiting_mlme :: bool
  auth_awaiting_mlme :: bool
  disconnect_awaiting_mlme :: bool
  assoc_mlme_notified :: bool
  cfg_events :: "cfg_event list"

definition cfg_notify :: "cfg_event \<Rightarrow> wifi_priv \<Rightarrow> wifi_priv" where
  "cfg_notify e p = p\<lparr>cfg_events := cfg_events p @ [e]\<rparr>"

definition upd_node :: "nat \<Rightarrow> (command_node \<Rightarrow> command_node) \<Rightarrow> cmd_queue \<Rightarrow> cmd_queue" where
  "upd_node i f q = q\<lparr>cmd_nodes := (cmd_nodes q)(i := f (cmd_nodes q i))\<rparr>"

section \<open>Admission\<close>

definition esp_cmd_is_admitted :: "'c esp_adapter \<Rightarrow> u8 \<Rightarrow> bool" where
  "esp_cmd_is_admitted a code =
     (if test_bit ESP_DRIVER_UNLOADING a
      then code = CMD_DEINIT_INTERFACE \<and> test_bit ESP_ALLOW_DEINIT a
      else if test_bit ESP_ALLOW_RECONSTRUCT a
      then code = CMD_INIT_INTERFACE \<or> code = CMD_GET_MAC \<or> code = CMD_DEINIT_INTERFACE \<or>
           code = CMD_START_OTA_UPDATE \<or> code = CMD_START_OTA_WRITE \<or> code = CMD_START_OTA_END \<or>
           code = CMD_RAW_TP_ESP_TO_HOST \<or> code = CMD_RAW_TP_HOST_TO_ESP \<or> code = CMD_RAW_TP_BIDIRECTIONAL
      else if test_bit ESP_CLEANUP_IN_PROGRESS a
      then code = CMD_DEINIT_INTERFACE \<and> test_bit ESP_ALLOW_DEINIT a
      else True)"

section \<open>Nodes\<close>

definition reset_cmd_node :: "nat \<Rightarrow> cmd_queue \<Rightarrow> cmd_queue" where
  "reset_cmd_node i q =
     (let q = (if in_pending_queue (cmd_nodes q i)
               then q\<lparr>cmd_pending_queue := removeAll i (cmd_pending_queue q)\<rparr> else q)
      in upd_node i (\<lambda>n. fresh_node\<lparr>in_use := in_use n\<rparr>) q)"

definition recycle_cmd_node :: "nat \<Rightarrow> cmd_queue \<Rightarrow> cmd_queue" where
  "recycle_cmd_node i q =
     (let was_in_use = in_use (cmd_nodes q i);
          q = upd_node i (\<lambda>n. n\<lparr>in_use := False\<rparr>) (reset_cmd_node i q);
          q = q\<lparr>cmd_free_queue := cmd_free_queue q @ [i]\<rparr>
      in if was_in_use then q\<lparr>cmd_nodes_in_use := cmd_nodes_in_use q - 1\<rparr> else q)"

text \<open>The locked part of \<open>get_free_cmd_node\<close>.\<close>

definition take_cmd_node :: "'c esp_adapter \<Rightarrow> u8 \<Rightarrow> cmd_queue \<Rightarrow> (int + nat) \<times> cmd_queue" where
  "take_cmd_node a code q =
     (if \<not> test_bit ESP_CMD_INIT_DONE a then (Inl (- EBUSY), q)
      else if \<not> esp_cmd_is_admitted a code then (Inl (- EBUSY), q)
      else case cmd_free_queue q of
             [] \<Rightarrow> (Inl (- ENOMEM), q)
           | i # rest \<Rightarrow>
               (Inr i, upd_node i (\<lambda>n. n\<lparr>in_pending_queue := False, in_use := True\<rparr>)
                 (q\<lparr>cmd_free_queue := rest, cmd_nodes_in_use := cmd_nodes_in_use q + 1\<rparr>)))"

text \<open>\<open>get_free_cmd_node\<close>; \<open>Inr None\<close> is the null pointer of a failed buffer allocation.\<close>

definition get_free_cmd_node :: "bool \<Rightarrow> 'c esp_adapter \<Rightarrow> u8 \<Rightarrow> cmd_queue \<Rightarrow> (int + nat option) \<times> cmd_queue" where
  "get_free_cmd_node alloc a code q =
     (case take_cmd_node a code q of
        (Inl e, q) \<Rightarrow> (Inl e, q)
      | (Inr i, q) \<Rightarrow>
          if alloc then (Inr (Some i), upd_node i (\<lambda>n. n\<lparr>cmd_skb := Some []\<rparr>) q)
          else (Inr None, recycle_cmd_node i q))"

definition free_esp_cmd_pool :: "cmd_queue \<Rightarrow> cmd_queue" where
  "free_esp_cmd_pool q = q\<lparr>cmd_pool := False\<rparr>"

definition alloc_esp_cmd_pool :: "bool \<Rightarrow> cmd_queue \<Rightarrow> int \<times> cmd_queue" where
  "alloc_esp_cmd_pool kcalloc q =
     (if \<not> kcalloc then (- ENOMEM, q)
      else (0, foldl (\<lambda>q i. recycle_cmd_node i q) (q\<lparr>cmd_pool := True, cmd_nodes := (\<lambda>_. fresh_node)\<rparr>)
                 [0..<ESP_NUM_OF_CMD_NODES]))"

section \<open>Preparing and queueing a request\<close>

definition cmd_frame_header :: "u4 \<Rightarrow> nat \<Rightarrow> esp_payload_header" where
  "cmd_frame_header if_type len =
     \<lparr>ph_if_type = if_type, ph_if_num = 0, ph_flags = 0, ph_packet_type = PACKET_TYPE_COMMAND_REQUEST,
      ph_reserved1 = 0, ph_len = of_nat len, ph_offset = of_nat HDR_SIZE, ph_checksum = 0,
      ph_reserved2 = 0, ph_union = 0\<rparr>"

text \<open>The request frame of \<open>len\<close> bytes behind the payload header: the header, code and sequence number
  of the command, zeros.\<close>

definition cmd_request :: "u4 \<Rightarrow> u8 \<Rightarrow> u16 \<Rightarrow> nat \<Rightarrow> bytes" where
  "cmd_request if_type code seq len =
     header_bytes (cmd_frame_header if_type len) @ take len (command_header code 0 0 seq) @ replicate (len - 8) 0"

text \<open>The sequence number of a new command: zero is skipped.\<close>

definition cmd_next_seq :: "u16 \<Rightarrow> u16" where
  "cmd_next_seq s = (if s + 1 = 0 then s + 2 else s + 1)"

text \<open>The rest of \<open>prepare_command_request_for_if\<close> once node \<open>i\<close> is taken; \<open>tailroom\<close> is the room of its
  buffer.\<close>

definition cmd_fill_request :: "nat \<Rightarrow> u4 \<Rightarrow> u8 \<Rightarrow> nat \<Rightarrow> nat \<Rightarrow> cmd_queue \<Rightarrow> (int + nat) \<times> cmd_queue" where
  "cmd_fill_request tailroom if_type code len i q =
     (let seq = cmd_next_seq (next_cmd_seq q);
          q = upd_node i (\<lambda>n. n\<lparr>cmd_code := code, cmd_seq := seq, completed := False, cn_result := 0\<rparr>)
                (q\<lparr>next_cmd_seq := seq\<rparr>)
      in if 2 ^ 64 - 1 - HDR_SIZE < len then (Inl (- EOVERFLOW), recycle_cmd_node i q)
         else if ESP_SIZE_OF_CMD_NODE < len + HDR_SIZE \<or> tailroom < len + HDR_SIZE
         then (Inl (- EINVAL), recycle_cmd_node i q)
         else (Inr i, upd_node i (\<lambda>n. n\<lparr>cmd_skb := Some (cmd_request if_type code seq len)\<rparr>) q))"

text \<open>What a command function gets from the rest of the system: the buffer of its request and its
  tailroom, the clock, the transport, what the worker, the receiver and other callers do until its
  wait ends, and whether the wait was woken.\<close>

record 'c cmd_env =
  ce_alloc_skb :: bool
  ce_tailroom :: nat
  ce_kenv :: kernel_env
  ce_ops :: "'c esp_if_ops"
  ce_meanwhile :: "wifi_priv \<times> 'c esp_adapter \<times> cmd_queue \<Rightarrow> wifi_priv \<times> 'c esp_adapter \<times> cmd_queue"
  ce_woken :: bool

definition prepare_command_request_for_if ::
  "'c cmd_env \<Rightarrow> 'c esp_adapter \<Rightarrow> u4 \<Rightarrow> u8 \<Rightarrow> nat \<Rightarrow> cmd_queue \<Rightarrow> (int + nat) \<times> cmd_queue" where
  "prepare_command_request_for_if env a if_type code len q =
     (if code = 0 \<or> CMD_MAX \<le> code then (Inl (- EINVAL), q)
      else if \<not> test_bit ESP_CMD_INIT_DONE a then (Inl (- EBUSY), q)
      else if \<not> esp_cmd_is_admitted a code then (Inl (- EBUSY), q)
      else if test_bit ESP_OTA_IN_PROGRESS a \<and> code \<noteq> CMD_START_OTA_UPDATE \<and> code \<noteq> CMD_START_OTA_WRITE \<and>
              code \<noteq> CMD_START_OTA_END then (Inl (- EBUSY), q)
      else case get_free_cmd_node (ce_alloc_skb env) a code q of
             (Inl e, q) \<Rightarrow> (Inl e, q)
           | (Inr None, q) \<Rightarrow> (Inl (- ENOMEM), q)
           | (Inr (Some i), q) \<Rightarrow> cmd_fill_request (ce_tailroom env) if_type code len i q)"

definition prepare_command_request ::
  "'c cmd_env \<Rightarrow> 'c esp_adapter \<Rightarrow> u8 \<Rightarrow> nat \<Rightarrow> cmd_queue \<Rightarrow> (int + nat) \<times> cmd_queue" where
  "prepare_command_request env a code len q =
     (case priv0 a of
        None \<Rightarrow> (Inl (- ENODEV), q)
      | Some p \<Rightarrow> prepare_command_request_for_if env a (wd_if_type p) code len q)"

definition queue_cmd_node :: "kernel_env \<Rightarrow> bool \<Rightarrow> nat \<Rightarrow> 'c esp_adapter \<Rightarrow> cmd_queue \<Rightarrow> int \<times> cmd_queue" where
  "queue_cmd_node kenv high_prio i a q =
     (if \<not> esp_cmd_is_admitted a (cmd_code (cmd_nodes q i))
      then (- ESHUTDOWN, upd_node i (\<lambda>n. n\<lparr>cn_result := - ESHUTDOWN, completed := True\<rparr>) q)
      else
        let q = upd_node i (\<lambda>n. n\<lparr>queued_at := jiffies kenv, in_pending_queue := True\<rparr>) q;
            q = q\<lparr>cmd_pending_queue := (if high_prio then i # cmd_pending_queue q else cmd_pending_queue q @ [i])\<rparr>
        in (0, q\<lparr>cmd_work := cmd_work q \<or> cmd_wq q\<rparr>))"

section \<open>Submission\<close>

definition cmd_checksum :: "'c esp_adapter \<Rightarrow> bytes \<Rightarrow> bytes" where
  "cmd_checksum a skb =
     (case header_of skb of
        None \<Rightarrow> skb
      | Some h \<Rightarrow>
          if capabilities a AND 0x80 \<noteq> 0
          then header_bytes (h\<lparr>ph_checksum := compute_checksum 0 (take (unat (ph_len h) + unat (ph_offset h)) skb)\<rparr>) @
                 drop HDR_SIZE skb
          else skb)"

definition esp_cmd_work ::
  "kernel_env \<Rightarrow> 'c esp_if_ops \<Rightarrow> 'c esp_adapter \<Rightarrow> cmd_queue \<Rightarrow> 'c esp_adapter \<times> cmd_queue" where
  "esp_cmd_work kenv ops a q =
     (let q = q\<lparr>cmd_work := False\<rparr>
      in if \<not> test_bit ESP_DRIVER_ACTIVE a then (a, q)
         else if \<not> test_bit ESP_CMD_INIT_DONE a \<or> test_bit ESP_TRANSPORT_REMOVING a \<or>
                 (test_bit ESP_DRIVER_UNLOADING a \<and> \<not> test_bit ESP_ALLOW_DEINIT a) \<or>
                 (test_bit ESP_CLEANUP_IN_PROGRESS a \<and> \<not> test_bit ESP_ALLOW_DEINIT a \<and>
                  \<not> test_bit ESP_ALLOW_RECONSTRUCT a)
         then (a, q)
         else if cur_cmd q \<noteq> None then (a, q)
         else case cmd_pending_queue q of
                [] \<Rightarrow> (a, q)
              | i # rest \<Rightarrow>
                  let q = upd_node i (\<lambda>n. n\<lparr>in_pending_queue := False\<rparr>) (q\<lparr>cmd_pending_queue := rest\<rparr>);
                      fail = (\<lambda>e q. upd_node i (\<lambda>n. n\<lparr>cn_result := e, completed := True\<rparr>) q)
                  in if \<not> esp_cmd_is_admitted a (cmd_code (cmd_nodes q i)) then (a, fail (- ESHUTDOWN) q)
                     else case cmd_skb (cmd_nodes q i) of
                            None \<Rightarrow> (a, fail (- EINVAL) q)
                          | Some skb \<Rightarrow>
                              if cmd_code (cmd_nodes q i) = 0 then (a, fail (- EINVAL) q)
                              else
                                let q = q\<lparr>cur_cmd := Some i, cmd_resp := 0, cmd_resp_seq := 0\<rparr>;
                                    (ret, a) = esp_send_packet ops (cmd_checksum a skb) a;
                                    q = upd_node i (\<lambda>n. n\<lparr>sent_at := jiffies kenv, cmd_skb := None\<rparr>) q
                                in (a, if ret \<noteq> 0 then fail ret q else q))"

section \<open>Responses\<close>

definition process_cmd_resp :: "bytes \<Rightarrow> 'c esp_adapter \<Rightarrow> cmd_queue \<Rightarrow> int \<times> cmd_queue" where
  "process_cmd_resp skb a q =
     (if \<not> test_bit ESP_CMD_INIT_DONE a then (- 1, q)
      else if length skb < 8 then (- EINVAL, q)
      else if length skb - 8 < unat (ch_len skb) then (- EMSGSIZE, q)
      else case cur_cmd q of
             None \<Rightarrow> (- 1, q)
           | Some i \<Rightarrow>
               let n = cmd_nodes q i
               in if skb ! 0 \<noteq> cmd_code n \<or> ch_seq skb \<noteq> cmd_seq n then (- EPROTO, q)
                  else if completed n \<or> resp_skb n \<noteq> None then (- EALREADY, q)
                  else (0, (upd_node i (\<lambda>n. n\<lparr>
                         mgmt_dont_wait_for_ack := mgmt_dont_wait_for_ack n \<or>
                           skb ! 0 = CMD_MGMT_TX \<and> ch_status skb = CMD_RESPONSE_SUCCESS \<and>
                           skb ! 6 = HOSTED_MGMT_TX_ASYNC_STATUS_V1,
                         resp_skb := Some skb, cn_result := 0, completed := True\<rparr>) q)
                       \<lparr>cmd_resp := skb ! 0, cmd_resp_seq := ch_seq skb\<rparr>))"

definition esp_cmd_transport_failed :: "u8 \<Rightarrow> u16 \<Rightarrow> int \<Rightarrow> cmd_queue \<Rightarrow> cmd_queue" where
  "esp_cmd_transport_failed code seq err q =
     (case cur_cmd q of
        None \<Rightarrow> q
      | Some i \<Rightarrow>
          let n = cmd_nodes q i
          in if cmd_code n \<noteq> code \<or> cmd_seq n \<noteq> seq then q
             else if completed n \<or> resp_skb n \<noteq> None then q
             else upd_node i (\<lambda>n. n\<lparr>cn_result := (if err \<noteq> 0 then err else - EIO), completed := True\<rparr>) q)"

section \<open>Waiting for the response\<close>

definition esp_cmd_timeout_is_commit_ambiguous :: "u8 \<Rightarrow> bool" where
  "esp_cmd_timeout_is_commit_ambiguous code \<longleftrightarrow>
     code \<in> {CMD_INIT_INTERFACE, CMD_DEINIT_INTERFACE, CMD_SET_MAC, CMD_SCAN_REQUEST, CMD_STA_CONNECT,
       CMD_DISCONNECT, CMD_ADD_KEY, CMD_DEL_KEY, CMD_SET_DEFAULT_KEY, CMD_STA_AUTH, CMD_STA_ASSOC,
       CMD_STA_SET_AUTHORIZED, CMD_SET_IP_ADDR, CMD_SET_MCAST_MAC_ADDR, CMD_SET_TXPOWER, CMD_SET_REG_DOMAIN,
       CMD_RAW_TP_ESP_TO_HOST, CMD_RAW_TP_HOST_TO_ESP, CMD_RAW_TP_BIDIRECTIONAL, CMD_SET_WOW_CONFIG,
       CMD_SET_MODE, CMD_SET_IE, CMD_AP_CONFIG, CMD_MGMT_TX, CMD_AP_STATION, CMD_SET_TIME,
       CMD_START_OTA_UPDATE, CMD_START_OTA_WRITE, CMD_START_OTA_END, CMD_SET_RADIO_SERVICE, CMD_MONITOR_CONFIG}"

definition cmd_restart :: "kernel_env \<Rightarrow> 'c esp_if_ops \<Rightarrow> 'c esp_adapter \<Rightarrow> 'c esp_adapter" where
  "cmd_restart kenv ops a = esp_request_firmware_restart kenv ops (esp_schedule_fw_reset_recovery ops a)"

text \<open>\<open>esp_cmd_wait_event_guard\<close>; \<open>woken\<close>: \<open>wait_event_timeout\<close> returned a positive value, which it does
  only for a completed command.\<close>

definition esp_cmd_wait_event_guard ::
  "kernel_env \<Rightarrow> 'c esp_if_ops \<Rightarrow> bool \<Rightarrow> nat \<Rightarrow> 'c esp_adapter \<Rightarrow> cmd_queue \<Rightarrow> int \<times> 'c esp_adapter \<times> cmd_queue" where
  "esp_cmd_wait_event_guard kenv ops woken i a q =
     (if woken then (1, a, q)
      else if completed (cmd_nodes q i) then (1, a, q)
      else
        let q' = (if in_pending_queue (cmd_nodes q i)
                  then upd_node i (\<lambda>n. n\<lparr>in_pending_queue := False, cn_result := - ETIMEDOUT, completed := True\<rparr>)
                         (q\<lparr>cmd_pending_queue := removeAll i (cmd_pending_queue q)\<rparr>)
                  else q);
            restart = (sent_at (cmd_nodes q i) \<noteq> 0 \<and>
              esp_cmd_timeout_is_commit_ambiguous (cmd_code (cmd_nodes q i)) \<and>
              \<not> test_bit ESP_DRIVER_UNLOADING a \<and> \<not> test_bit ESP_TRANSPORT_REMOVING a \<and>
              \<not> test_bit ESP_ALLOW_RECONSTRUCT a \<and> \<not> test_bit ESP_FW_RESET_EXPECTED a)
        in (0, if restart then cmd_restart kenv ops a else a, q'))"

text \<open>The locked section of \<open>wait_and_decode_cmd_resp\<close> behind the wait: the command leaves the
  current slot and the pending queue and gets its result.\<close>

definition cmd_wait_finish :: "int \<Rightarrow> nat \<Rightarrow> cmd_queue \<Rightarrow> int \<times> cmd_queue" where
  "cmd_wait_finish ret i q =
     (let ret = (if ret \<le> 0 \<and> completed (cmd_nodes q i) then 1 else ret);
          q = (if cur_cmd q = Some i then q\<lparr>cur_cmd := None, cmd_resp := 0, cmd_resp_seq := 0\<rparr> else q);
          q = (if ret \<le> 0 \<and> in_pending_queue (cmd_nodes q i)
               then upd_node i (\<lambda>n. n\<lparr>in_pending_queue := False\<rparr>)
                      (q\<lparr>cmd_pending_queue := removeAll i (cmd_pending_queue q)\<rparr>)
               else q)
      in if ret = 0
         then (- ETIMEDOUT, upd_node i (\<lambda>n. n\<lparr>cn_result := - ETIMEDOUT, completed := True\<rparr>) q)
         else if 0 < ret then (cn_result (cmd_nodes q i), q)
         else (ret, q))"

definition cmd_timeout_restart ::
  "kernel_env \<Rightarrow> 'c esp_if_ops \<Rightarrow> int \<Rightarrow> command_node \<Rightarrow> 'c esp_adapter \<Rightarrow> 'c esp_adapter" where
  "cmd_timeout_restart kenv ops ret n a =
     (if ret = - ETIMEDOUT \<and> sent_at n \<noteq> 0 \<and> esp_cmd_timeout_is_commit_ambiguous (cmd_code n) \<and>
         \<not> test_bit ESP_DRIVER_UNLOADING a \<and> \<not> test_bit ESP_TRANSPORT_REMOVING a \<and>
         \<not> test_bit ESP_OTA_IN_PROGRESS a \<and> \<not> test_bit ESP_ALLOW_RECONSTRUCT a \<and>
         \<not> test_bit ESP_FW_RESET_EXPECTED a
      then cmd_restart kenv ops a else a)"

subsection \<open>Decoders\<close>

definition decode_common_resp :: "command_node \<Rightarrow> int" where
  "decode_common_resp n =
     (case resp_skb n of
        None \<Rightarrow> - 1
      | Some r \<Rightarrow> if length r < 8 then - 1 else if ch_status r \<noteq> CMD_RESPONSE_SUCCESS then - 1 else 0)"

definition decode_monitor_resp :: "command_node \<Rightarrow> int" where
  "decode_monitor_resp n =
     (case resp_skb n of
        None \<Rightarrow> - EIO
      | Some r \<Rightarrow>
          if length r < 8 then - EIO
          else if ch_status r = CMD_RESPONSE_SUCCESS then 0
          else if ch_status r = CMD_RESPONSE_BUSY then - EBUSY
          else if ch_status r = CMD_RESPONSE_INVALID then - EINVAL
          else if ch_status r = CMD_RESPONSE_UNSUPPORTED then - EOPNOTSUPP
          else - EIO)"

definition decode_mac_addr :: "command_node \<Rightarrow> wifi_priv \<Rightarrow> int \<times> wifi_priv" where
  "decode_mac_addr n p =
     (case resp_skb n of
        None \<Rightarrow> (- EINVAL, p)
      | Some r \<Rightarrow>
          if length r < 8 + MAC_ADDR_LEN \<or> unat (ch_len r) < MAC_ADDR_LEN then (- EINVAL, p)
          else if ch_status r \<noteq> CMD_RESPONSE_SUCCESS then (- 1, p)
          else (0, p\<lparr>mac_address := take MAC_ADDR_LEN (drop 8 r)\<rparr>))"

definition decode_rssi :: "command_node \<Rightarrow> wifi_priv \<Rightarrow> int \<times> wifi_priv" where
  "decode_rssi n p =
     (case resp_skb n of
        None \<Rightarrow> (- EINVAL, p)
      | Some r \<Rightarrow>
          if length r < 9 \<or> unat (ch_len r) < 1 then (- EINVAL, p)
          else (if ch_status r \<noteq> CMD_RESPONSE_SUCCESS then - 1 else 0, p\<lparr>rssi := r ! 8\<rparr>))"

definition decode_tx_power :: "command_node \<Rightarrow> wifi_priv \<Rightarrow> int \<times> wifi_priv" where
  "decode_tx_power n p =
     (case resp_skb n of
        None \<Rightarrow> (- EINVAL, p)
      | Some r \<Rightarrow>
          if length r < 12 \<or> unat (ch_len r) < 4 then (- EINVAL, p)
          else (if ch_status r \<noteq> CMD_RESPONSE_SUCCESS then - 1 else 0,
                p\<lparr>tx_pwr := ucast (le_word (take 4 (drop 8 r)) :: u32)\<rparr>))"

definition decode_disconnect_resp :: "command_node \<Rightarrow> wifi_priv \<Rightarrow> int \<times> wifi_priv" where
  "decode_disconnect_resp n p =
     (case resp_skb n of
        None \<Rightarrow> (- 1, p)
      | Some r \<Rightarrow>
          if length r < 8 then (- 1, p)
          else
            let ret = (if ch_status r = CMD_RESPONSE_UNSUPPORTED then - EOPNOTSUPP
                       else if ch_status r \<noteq> CMD_RESPONSE_SUCCESS then - 1 else 0)
            in (ret, p\<lparr>local_disconnect_req := (ret = 0)\<rparr>))"

definition decode_radio_service :: "command_node \<Rightarrow> 'c esp_adapter \<Rightarrow> int \<times> 'c esp_adapter" where
  "decode_radio_service n a =
     (case resp_skb n of
        None \<Rightarrow> (- EINVAL, a)
      | Some r \<Rightarrow>
          if length r < 20 then (- EINVAL, a)
          else if ch_status r = CMD_RESPONSE_UNSUPPORTED then (- EOPNOTSUPP, a)
          else if ch_status r = CMD_RESPONSE_INVALID then (- EINVAL, a)
          else if ch_status r \<noteq> CMD_RESPONSE_SUCCESS then (- EIO, a)
          else (0, a\<lparr>radio_service_active := r ! 9, radio_service_flags := r ! 10,
                     rcp_session_nonce := le_word (take 8 (drop 12 r))\<rparr>))"

text \<open>\<open>handle_mgmt_tx_done\<close>; \<open>struct cmd_mgmt_tx\<close> has 28 bytes with the frame length at 24. \<open>ndev\<close>: the
  interface has a network device.\<close>

definition handle_mgmt_tx_done :: "bool \<Rightarrow> command_node \<Rightarrow> wifi_priv \<Rightarrow> int \<times> wifi_priv" where
  "handle_mgmt_tx_done ndev n p =
     (case resp_skb n of
        None \<Rightarrow> (- EINVAL, p)
      | Some r \<Rightarrow>
          if length r < 28 then (- EINVAL, p)
          else if ch_status r = CMD_RESPONSE_BUSY then (- EBUSY, p)
          else if ch_status r = CMD_RESPONSE_INVALID \<or> ch_status r = CMD_RESPONSE_UNSUPPORTED then (- EINVAL, p)
          else if mgmt_dont_wait_for_ack n then (0, p)
          else
            let len = unat (le_word (take 4 (drop 24 r)) :: u32);
                kept = (case mgmt_frame n of None \<Rightarrow> [] | Some f \<Rightarrow> f);
                frame = (if len \<noteq> 0 \<and> len \<le> length r - 28 then take len (drop 28 r) else kept)
            in (0, if ndev
                   then cfg_notify (CFG_MGMT_TX_STATUS (cookie n) frame (ch_status r = CMD_RESPONSE_SUCCESS)) p
                   else p))"

definition cmd_scan_failed :: "wifi_priv \<Rightarrow> wifi_priv" where
  "cmd_scan_failed p = p\<lparr>waiting_for_scan_done := False, scan_in_progress := False, scan_request := False\<rparr>"

text \<open>The \<open>switch\<close> of \<open>wait_and_decode_cmd_resp\<close>.\<close>

definition cmd_decode :: "int \<Rightarrow> command_node \<Rightarrow> wifi_priv \<Rightarrow> 'c esp_adapter \<Rightarrow> int \<times> wifi_priv \<times> 'c esp_adapter" where
  "cmd_decode ret n p a =
     (let code = cmd_code n;
          ndev = (case priv0 a of None \<Rightarrow> False | Some w \<Rightarrow> wd_ndev w);
          on_priv = (\<lambda>f. if ret = 0 then let (r, p) = f n p in (r, p, a) else (ret, p, a))
      in if code = CMD_SCAN_REQUEST
         then let ret = (if ret = 0 then decode_common_resp n else ret)
              in (ret, if ret \<noteq> 0 then cmd_scan_failed p else p, a)
         else if code \<in> {CMD_INIT_INTERFACE, CMD_DEINIT_INTERFACE, CMD_STA_AUTH, CMD_STA_ASSOC,
                CMD_STA_SET_AUTHORIZED, CMD_STA_CONNECT, CMD_ADD_KEY, CMD_DEL_KEY, CMD_SET_MODE, CMD_SET_IE,
                CMD_AP_CONFIG, CMD_AP_STATION, CMD_SET_DEFAULT_KEY, CMD_SET_IP_ADDR, CMD_SET_MCAST_MAC_ADDR,
                CMD_GET_REG_DOMAIN, CMD_SET_REG_DOMAIN, CMD_RAW_TP_ESP_TO_HOST, CMD_RAW_TP_HOST_TO_ESP,
                CMD_RAW_TP_BIDIRECTIONAL, CMD_SET_WOW_CONFIG, CMD_SET_TIME, CMD_START_OTA_UPDATE,
                CMD_START_OTA_WRITE, CMD_START_OTA_END}
         then (if ret = 0 then decode_common_resp n else ret, p, a)
         else if code = CMD_MONITOR_CONFIG then (if ret = 0 then decode_monitor_resp n else ret, p, a)
         else if code = CMD_SET_RADIO_SERVICE \<or> code = CMD_GET_RADIO_SERVICE
         then (if ret = 0 then let (r, a) = decode_radio_service n a in (r, p, a) else (ret, p, a))
         else if code = CMD_GET_MAC \<or> code = CMD_SET_MAC then on_priv decode_mac_addr
         else if code = CMD_DISCONNECT then on_priv decode_disconnect_resp
         else if code = CMD_GET_TXPOWER \<or> code = CMD_SET_TXPOWER then on_priv decode_tx_power
         else if code = CMD_STA_RSSI then on_priv decode_rssi
         else if code = CMD_MGMT_TX then on_priv (handle_mgmt_tx_done ndev)
         else (- EINVAL, p, a))"

text \<open>The end of \<open>wait_and_decode_cmd_resp\<close>: the node goes back, the worker runs again.\<close>

definition cmd_release :: "nat \<Rightarrow> 'c esp_adapter \<Rightarrow> cmd_queue \<Rightarrow> cmd_queue" where
  "cmd_release i a q =
     (let q = recycle_cmd_node i q
      in if cmd_wq q \<and> test_bit ESP_CMD_INIT_DONE a then q\<lparr>cmd_work := True\<rparr> else q)"

definition wait_and_decode_cmd_resp ::
  "kernel_env \<Rightarrow> 'c esp_if_ops \<Rightarrow> bool \<Rightarrow> nat \<Rightarrow> wifi_priv \<Rightarrow> 'c esp_adapter \<Rightarrow> cmd_queue \<Rightarrow>
     int \<times> wifi_priv \<times> 'c esp_adapter \<times> cmd_queue" where
  "wait_and_decode_cmd_resp kenv ops woken i p a q =
     (let (ret, a, q) = esp_cmd_wait_event_guard kenv ops woken i a q;
          (ret, q) = cmd_wait_finish ret i q;
          a = cmd_timeout_restart kenv ops ret (cmd_nodes q i) a;
          ret = (if \<not> test_bit ESP_DRIVER_ACTIVE a \<and> ret = 0 then - ESHUTDOWN else ret);
          (ret, p, a) = cmd_decode ret (cmd_nodes q i) p a
      in (ret, p, a, cmd_release i a q))"

section \<open>Set-up and teardown\<close>

definition esp_cmd_abort_waiters :: "'c esp_adapter \<Rightarrow> cmd_queue \<Rightarrow> cmd_queue" where
  "esp_cmd_abort_waiters a q =
     (if \<not> test_bit ESP_CMD_INIT_DONE a \<and> \<not> cmd_wq q then q
      else
        let abort = (\<lambda>n. n\<lparr>cn_result := - ESHUTDOWN, completed := True\<rparr>);
            q = (case cur_cmd q of
                   Some i \<Rightarrow> if \<not> completed (cmd_nodes q i) then upd_node i abort q else q
                 | None \<Rightarrow> q)
        in foldl (\<lambda>q i. upd_node i (\<lambda>n. abort (n\<lparr>in_pending_queue := False\<rparr>)) q)
             (q\<lparr>cmd_pending_queue := []\<rparr>) (cmd_pending_queue q))"

definition destroy_cmd_wq :: "cmd_queue \<Rightarrow> cmd_queue" where
  "destroy_cmd_wq q = (if cmd_wq q then q\<lparr>cmd_work := False, cmd_wq := False\<rparr> else q)"

text \<open>\<open>esp_commands_teardown\<close> up to its wait, and behind it; \<open>drained\<close>: the wait saw no used node.\<close>

definition commands_teardown_begin :: "'c esp_adapter \<Rightarrow> cmd_queue \<Rightarrow> 'c esp_adapter \<times> cmd_queue" where
  "commands_teardown_begin a q =
     (let a = clear_bit ESP_CMD_INIT_DONE a
      in (a, destroy_cmd_wq (esp_cmd_abort_waiters a q)))"

definition commands_teardown_end :: "bool \<Rightarrow> cmd_queue \<Rightarrow> int \<times> cmd_queue" where
  "commands_teardown_end drained q = (if drained then (0, free_esp_cmd_pool q) else (- EBUSY, q))"

definition esp_commands_teardown :: "'c esp_adapter \<Rightarrow> cmd_queue \<Rightarrow> int \<times> 'c esp_adapter \<times> cmd_queue" where
  "esp_commands_teardown a q =
     (if \<not> test_bit ESP_CMD_INIT_DONE a then (0, a, q)
      else let (a, q) = commands_teardown_begin a q;
               (ret, q) = commands_teardown_end (cmd_nodes_in_use q = 0) q
           in (ret, a, q))"

definition esp_commands_setup :: "bool \<Rightarrow> bool \<Rightarrow> 'c esp_adapter \<Rightarrow> cmd_queue \<Rightarrow> int \<times> 'c esp_adapter \<times> cmd_queue" where
  "esp_commands_setup create_wq kcalloc a q =
     (if cmd_pool q \<and> cmd_nodes_in_use q \<noteq> 0 then (- EBUSY, a, q)
      else
        let q = (if cmd_pool q then free_esp_cmd_pool q else q);
            q = q\<lparr>cmd_nodes_in_use := 0, cmd_pending_queue := [], cmd_free_queue := [], cur_cmd := None,
                  cmd_resp := 0, cmd_resp_seq := 0, next_cmd_seq := 0\<rparr>
        in if \<not> create_wq then (1, a, q\<lparr>cmd_wq := False\<rparr>)
           else
             let (ret, q) = alloc_esp_cmd_pool kcalloc (q\<lparr>cmd_wq := True, cmd_work := False\<rparr>)
             in if ret \<noteq> 0 then (ret, a, destroy_cmd_wq q)
                else (0, set_bit ESP_CMD_INIT_DONE a, q))"

section \<open>Interleavings\<close>

text \<open>Where the caller of a command stands: it has taken a node, filled the request, queued it, seen the
  end of the wait (woken or not), and read the result.\<close>

datatype node_phase = NFree | NTaken | NReady | NQueued | NWaited bool | NFinished

definition waiting :: "node_phase \<Rightarrow> bool" where
  "waiting p \<longleftrightarrow> p = NQueued \<or> (\<exists>b. p = NWaited b)"

text \<open>The state is the queue, whether \<open>ESP_CMD_INIT_DONE\<close> is set, and the phase of each node. The rest of
  the adapter is arbitrary in every step. \<open>wait_event_timeout\<close> returns a positive value only when the
  command is completed, and the teardown frees the pool only when its wait saw no used node. Set-up
  runs only after a teardown.\<close>

inductive cmd_step ::
  "'c esp_if_ops \<Rightarrow> cmd_queue \<times> bool \<times> (nat \<Rightarrow> node_phase) \<Rightarrow> cmd_queue \<times> bool \<times> (nat \<Rightarrow> node_phase) \<Rightarrow> bool"
  for ops where
  take: "take_cmd_node (a :: 'c esp_adapter) code q = (Inr i, q') \<Longrightarrow> test_bit ESP_CMD_INIT_DONE a = init \<Longrightarrow>
    cmd_step ops (q, init, ph) (q', init, ph(i := NTaken))"
| no_skb: "ph i = NTaken \<Longrightarrow> cmd_step ops (q, init, ph) (recycle_cmd_node i q, init, ph(i := NFree))"
| fill: "ph i = NTaken \<Longrightarrow> code \<noteq> 0 \<Longrightarrow>
    cmd_fill_request room t code len i (upd_node i (\<lambda>n. n\<lparr>cmd_skb := Some []\<rparr>) q) = (r, q') \<Longrightarrow>
    cmd_step ops (q, init, ph) (q', init, ph(i := (case r of Inl _ \<Rightarrow> NFree | Inr _ \<Rightarrow> NReady)))"
| body: "ph i = NReady \<Longrightarrow>
    cmd_step ops (q, init, ph)
      (upd_node i (\<lambda>n. n\<lparr>cmd_skb := Some skb, cookie := c, mgmt_frame := f, mgmt_dont_wait_for_ack := d\<rparr>) q, init, ph)"
| abandon: "ph i = NReady \<Longrightarrow> cmd_step ops (q, init, ph) (recycle_cmd_node i q, init, ph(i := NFree))"
| queue: "ph i = NReady \<Longrightarrow> queue_cmd_node kenv high i (a :: 'c esp_adapter) q = (r, q') \<Longrightarrow>
    cmd_step ops (q, init, ph) (q', init, ph(i := NQueued))"
| rejected: "ph i = NReady \<Longrightarrow> queue_cmd_node kenv high i (a :: 'c esp_adapter) q = (r, q') \<Longrightarrow> r \<noteq> 0 \<Longrightarrow>
    cmd_step ops (q, init, ph) (recycle_cmd_node i q', init, ph(i := NFree))"
| work: "esp_cmd_work kenv ops a q = (a', q') \<Longrightarrow> test_bit ESP_CMD_INIT_DONE a = init \<Longrightarrow>
    cmd_step ops (q, init, ph) (q', init, ph)"
| resp: "process_cmd_resp skb (a :: 'c esp_adapter) q = (r, q') \<Longrightarrow> cmd_step ops (q, init, ph) (q', init, ph)"
| transport_failed: "cmd_step ops (q, init, ph) (esp_cmd_transport_failed code seq err q, init, ph)"
| guard: "ph i = NQueued \<Longrightarrow> woken \<longrightarrow> completed (cmd_nodes q i) \<Longrightarrow>
    esp_cmd_wait_event_guard kenv ops woken i a q = (r, a', q') \<Longrightarrow>
    cmd_step ops (q, init, ph) (q', init, ph(i := NWaited (0 < r)))"
| finish: "ph i = NWaited b \<Longrightarrow> cmd_wait_finish (if b then 1 else 0) i q = (r, q') \<Longrightarrow>
    cmd_step ops (q, init, ph) (q', init, ph(i := NFinished))"
| release: "ph i = NFinished \<Longrightarrow> cmd_step ops (q, init, ph) (cmd_release i (a :: 'c esp_adapter) q, init, ph(i := NFree))"
| abort: "cmd_step ops (q, init, ph) (esp_cmd_abort_waiters (a :: 'c esp_adapter) q, init, ph)"
| teardown_begin: "commands_teardown_begin (a :: 'c esp_adapter) q = (a', q') \<Longrightarrow> cmd_step ops (q, True, ph) (q', False, ph)"
| teardown_end: "drained \<longrightarrow> cmd_nodes_in_use q = 0 \<Longrightarrow> commands_teardown_end drained q = (r, q') \<Longrightarrow>
    cmd_step ops (q, False, ph) (q', False, ph)"
| set_up: "esp_commands_setup w k (a :: 'c esp_adapter) q = (r, a', q') \<Longrightarrow> cmd_step ops (q, False, ph) (q', r = 0, ph)"

definition cmd_queue_zero :: cmd_queue where
  "cmd_queue_zero = \<lparr>cmd_pool = False, cmd_nodes = (\<lambda>_. fresh_node), cmd_nodes_in_use = 0, cmd_free_queue = [],
     cmd_pending_queue = [], cur_cmd = None, cmd_resp = 0, cmd_resp_seq = 0, next_cmd_seq = 0, cmd_wq = False,
     cmd_work = False\<rparr>"

inductive cmd_reachable :: "'c esp_if_ops \<Rightarrow> cmd_queue \<times> bool \<times> (nat \<Rightarrow> node_phase) \<Rightarrow> bool" for ops where
  start: "cmd_reachable ops (cmd_queue_zero, False, \<lambda>_. NFree)"
| step: "cmd_reachable ops x \<Longrightarrow> cmd_step ops x y \<Longrightarrow> cmd_reachable ops y"

subsection \<open>Invariant\<close>

text \<open>A node by its phase: \<open>pend\<close> and \<open>cur\<close> say whether it is in the pending queue or in flight.\<close>

definition node_ok :: "node_phase \<Rightarrow> bool \<Rightarrow> bool \<Rightarrow> command_node \<Rightarrow> bool" where
  "node_ok p pend cur n \<longleftrightarrow>
     in_use n = (p \<noteq> NFree) \<and> in_pending_queue n = pend \<and>
     (p = NFree \<longrightarrow> n = fresh_node) \<and>
     (pend \<longrightarrow> waiting p \<and> \<not> cur \<and> \<not> completed n \<and> cmd_skb n \<noteq> None) \<and>
     (cur \<longrightarrow> waiting p \<and> cmd_skb n = None) \<and>
     (waiting p \<and> \<not> pend \<and> \<not> cur \<longrightarrow> completed n) \<and>
     (p = NReady \<longrightarrow> cmd_skb n \<noteq> None \<and> \<not> completed n) \<and>
     (pend \<or> p = NTaken \<or> p = NReady \<longrightarrow> sent_at n = 0) \<and>
     (p = NReady \<or> waiting p \<or> p = NFinished \<longrightarrow> cmd_code n \<noteq> 0) \<and>
     (p = NFinished \<or> p = NWaited True \<longrightarrow> completed n) \<and>
     (\<forall>r. resp_skb n = Some r \<longrightarrow> completed n \<and> (waiting p \<or> p = NFinished) \<and> 8 \<le> length r \<and>
        r ! 0 = cmd_code n \<and> ch_seq r = cmd_seq n)"

definition cmd_inv :: "cmd_queue \<Rightarrow> bool \<Rightarrow> (nat \<Rightarrow> node_phase) \<Rightarrow> bool" where
  "cmd_inv q init ph \<longleftrightarrow>
     (if cmd_pool q
      then distinct (cmd_free_queue q) \<and> set (cmd_free_queue q) = {i. i < 20 \<and> ph i = NFree} \<and>
           cmd_nodes_in_use q = 20 - int (length (cmd_free_queue q)) \<and> distinct (cmd_pending_queue q) \<and>
           (\<forall>i. node_ok (ph i) (i \<in> set (cmd_pending_queue q)) (cur_cmd q = Some i) (cmd_nodes q i)) \<and>
           (\<forall>i. 20 \<le> i \<longrightarrow> ph i = NFree)
      else \<not> init \<and> ph = (\<lambda>_. NFree) \<and> cmd_nodes_in_use q = 0)"


text \<open>A step that changes one used node.\<close>

lemma upd_node_simps [simp]:
  "cmd_pool (upd_node i f q) = cmd_pool q" "cmd_nodes_in_use (upd_node i f q) = cmd_nodes_in_use q"
  "cmd_free_queue (upd_node i f q) = cmd_free_queue q" "cmd_pending_queue (upd_node i f q) = cmd_pending_queue q"
  "cur_cmd (upd_node i f q) = cur_cmd q" "cmd_wq (upd_node i f q) = cmd_wq q"
  "cmd_nodes (upd_node i f q) j = (if j = i then f (cmd_nodes q i) else cmd_nodes q j)"
  by (simp_all add: upd_node_def)

lemma waiting_simps [simp]:
  "waiting NQueued" "waiting (NWaited b)" "\<not> waiting NFree" "\<not> waiting NTaken" "\<not> waiting NReady" "\<not> waiting NFinished"
  by (simp_all add: waiting_def)

lemma cmd_inv_used:
  assumes "cmd_inv q init ph" "ph i \<noteq> NFree"
  shows "cmd_pool q" "i < 20" "node_ok (ph i) (i \<in> set (cmd_pending_queue q)) (cur_cmd q = Some i) (cmd_nodes q i)"
    "distinct (cmd_pending_queue q)" "i \<notin> set (cmd_free_queue q)"
  using assms by (auto simp: cmd_inv_def not_le [symmetric] split: if_splits)

lemma cmd_inv_node:
  assumes inv: "cmd_inv q init ph" and used: "ph i \<noteq> NFree" "p \<noteq> NFree"
    and same: "cmd_pool q' = cmd_pool q" "cmd_nodes_in_use q' = cmd_nodes_in_use q" "cmd_free_queue q' = cmd_free_queue q"
    and pend: "distinct (cmd_pending_queue q')"
      "\<And>j. j \<noteq> i \<Longrightarrow> j \<in> set (cmd_pending_queue q') \<longleftrightarrow> j \<in> set (cmd_pending_queue q)"
    and cur: "\<And>j. j \<noteq> i \<Longrightarrow> cur_cmd q' = Some j \<longleftrightarrow> cur_cmd q = Some j"
    and node: "\<And>j. j \<noteq> i \<Longrightarrow> cmd_nodes q' j = cmd_nodes q j"
      "node_ok p (i \<in> set (cmd_pending_queue q')) (cur_cmd q' = Some i) (cmd_nodes q' i)"
  shows "cmd_inv q' init (ph(i := p))"
proof -
  note u = cmd_inv_used [OF inv used(1)]
  have "{j. j < 20 \<and> (ph(i := p)) j = NFree} = {j. j < 20 \<and> ph j = NFree}" using used by auto
  moreover have "node_ok ((ph(i := p)) j) (j \<in> set (cmd_pending_queue q')) (cur_cmd q' = Some j) (cmd_nodes q' j)" for j
    using inv u node pend cur by (cases "j = i") (auto simp: cmd_inv_def)
  ultimately show ?thesis
    using inv u same pend used unfolding cmd_inv_def by (simp add: fun_upd_apply)
qed

text \<open>Giving a node back, and taking one.\<close>

lemma recycle_inv:
  assumes inv: "cmd_inv q init ph" and used: "ph i \<noteq> NFree" "cur_cmd q \<noteq> Some i"
  shows "cmd_inv (recycle_cmd_node i q) init (ph(i := NFree))"
proof -
  note u = cmd_inv_used [OF inv used(1)]
  have pend: "in_pending_queue (cmd_nodes q i) = (i \<in> set (cmd_pending_queue q))" "in_use (cmd_nodes q i)"
    using u(3) used by (auto simp: node_ok_def)
  have s: "{j. j < 20 \<and> (ph(i := NFree)) j = NFree} = insert i {j. j < 20 \<and> ph j = NFree}" using u by auto
  have f: "set (cmd_free_queue q) = {j. j < 20 \<and> ph j = NFree}" "distinct (cmd_free_queue q)"
    "cmd_nodes_in_use q = 20 - int (length (cmd_free_queue q))"
    "\<And>j. node_ok (ph j) (j \<in> set (cmd_pending_queue q)) (cur_cmd q = Some j) (cmd_nodes q j)"
    "\<And>j. 20 \<le> j \<Longrightarrow> ph j = NFree"
    using inv u(1) by (auto simp: cmd_inv_def)
  have q: "recycle_cmd_node i q = q\<lparr>cmd_pending_queue := removeAll i (cmd_pending_queue q),
      cmd_nodes := (cmd_nodes q)(i := fresh_node), cmd_free_queue := cmd_free_queue q @ [i],
      cmd_nodes_in_use := cmd_nodes_in_use q - 1\<rparr>"
    using pend by (auto simp: recycle_cmd_node_def reset_cmd_node_def upd_node_def Let_def fresh_node_def removeAll_id)
  have n: "node_ok ((ph(i := NFree)) j) (j \<in> set (removeAll i (cmd_pending_queue q))) (cur_cmd q = Some j)
      (((cmd_nodes q)(i := fresh_node)) j)" for j
    using f(4) [of j] used by (cases "j = i") (auto simp: node_ok_def fresh_node_def)
  show ?thesis
    unfolding cmd_inv_def q using u f s n by (simp add: distinct_removeAll)
qed

lemma cmd_take_inv:
  assumes inv: "cmd_inv q init ph" and t: "take_cmd_node a code q = (Inr i, q')" and "test_bit ESP_CMD_INIT_DONE a = init"
  shows "cmd_inv q' init (ph(i := NTaken)) \<and> ph i = NFree"
proof -
  obtain rest where q: "cmd_free_queue q = i # rest" "test_bit ESP_CMD_INIT_DONE a"
    "q' = upd_node i (\<lambda>n. n\<lparr>in_pending_queue := False, in_use := True\<rparr>)
       (q\<lparr>cmd_free_queue := rest, cmd_nodes_in_use := cmd_nodes_in_use q + 1\<rparr>)"
    using t by (auto simp: take_cmd_node_def split: if_splits list.splits)
  have f: "cmd_pool q" "distinct (i # rest)" "set (i # rest) = {j. j < 20 \<and> ph j = NFree}"
    "cmd_nodes_in_use q = 20 - int (length (i # rest))" "distinct (cmd_pending_queue q)"
    "\<And>j. node_ok (ph j) (j \<in> set (cmd_pending_queue q)) (cur_cmd q = Some j) (cmd_nodes q j)"
    "\<And>j. 20 \<le> j \<Longrightarrow> ph j = NFree"
    using inv q(1,2) assms(3) by (auto simp: cmd_inv_def split: if_splits)
  have i: "ph i = NFree" "i < 20" using f(3) by auto
  have "set rest = {j. j < 20 \<and> (ph(i := NTaken)) j = NFree}" using f(2,3) by auto
  moreover have "node_ok ((ph(i := NTaken)) j) (j \<in> set (cmd_pending_queue q')) (cur_cmd q' = Some j) (cmd_nodes q' j)" for j
    using f(6) [of j] i by (cases "j = i") (auto simp: q(3) node_ok_def fresh_node_def)
  ultimately show ?thesis using f i unfolding cmd_inv_def by (simp add: q(3))
qed

text \<open>The operations on a used node.\<close>

lemma cmd_inv_work [simp]: "cmd_inv (q\<lparr>cmd_work := w\<rparr>) init ph = cmd_inv q init ph"
  and cmd_inv_seq [simp]: "cmd_inv (q\<lparr>next_cmd_seq := x\<rparr>) init ph = cmd_inv q init ph"
  and cmd_inv_resp [simp]: "cmd_inv (q\<lparr>cmd_resp := c, cmd_resp_seq := x\<rparr>) init ph = cmd_inv q init ph"
  by (simp_all add: cmd_inv_def)

lemma fill_inv:
  assumes inv: "cmd_inv q init ph" and i: "ph i = NTaken" and "code \<noteq> 0"
    and f: "cmd_fill_request room t code len i (upd_node i (\<lambda>n. n\<lparr>cmd_skb := Some []\<rparr>) q) = (r, q')"
  shows "cmd_inv q' init (ph(i := (case r of Inl _ \<Rightarrow> NFree | Inr _ \<Rightarrow> NReady)))"
proof -
  let ?q = "upd_node i (\<lambda>n. n\<lparr>cmd_code := code, cmd_seq := cmd_next_seq (next_cmd_seq q), completed := False, cn_result := 0\<rparr>)
    ((upd_node i (\<lambda>n. n\<lparr>cmd_skb := Some []\<rparr>) q)\<lparr>next_cmd_seq := cmd_next_seq (next_cmd_seq q)\<rparr>)"
  have used: "ph i \<noteq> NFree" using i by simp
  note u = cmd_inv_used [OF inv used]
  have nt: "cmd_inv ?q init (ph(i := NTaken))"
    by (rule cmd_inv_node [OF inv used]) (use u i in \<open>auto simp: node_ok_def\<close>)
  have cur: "cur_cmd q \<noteq> Some i" using u(3) i by (auto simp: node_ok_def)
  have given: "cmd_inv (recycle_cmd_node i ?q) init (ph(i := NFree))"
    using recycle_inv [OF nt, of i] cur by simp
  have ready: "cmd_inv (upd_node i (\<lambda>n. n\<lparr>cmd_skb := Some skb\<rparr>) ?q) init (ph(i := NReady))" for skb
    by (rule cmd_inv_node [OF inv used]) (use u i assms(3) in \<open>auto simp: node_ok_def\<close>)
  have n: "next_cmd_seq (upd_node i g q) = next_cmd_seq q" for g by (simp add: upd_node_def)
  show ?thesis
    using f given ready by (auto simp: cmd_fill_request_def Let_def n split: if_splits)
qed

lemma body_inv:
  assumes inv: "cmd_inv q init ph" and i: "ph i = NReady"
  shows "cmd_inv (upd_node i (\<lambda>n. n\<lparr>cmd_skb := Some skb, cookie := c, mgmt_frame := f, mgmt_dont_wait_for_ack := d\<rparr>) q) init ph"
proof -
  have used: "ph i \<noteq> NFree" using i by simp
  have "cmd_inv (upd_node i (\<lambda>n. n\<lparr>cmd_skb := Some skb, cookie := c, mgmt_frame := f, mgmt_dont_wait_for_ack := d\<rparr>) q)
      init (ph(i := NReady))"
    by (rule cmd_inv_node [OF inv used]) (use cmd_inv_used [OF inv used] i in \<open>auto simp: node_ok_def\<close>)
  moreover have "ph(i := NReady) = ph" using i by auto
  ultimately show ?thesis by simp
qed

lemma queue_inv:
  assumes inv: "cmd_inv q init ph" and i: "ph i = NReady" and r: "queue_cmd_node kenv high i a q = (r, q')"
  shows "cmd_inv q' init (ph(i := NQueued))"
proof -
  have used: "ph i \<noteq> NFree" using i by simp
  note u = cmd_inv_used [OF inv used]
  have np: "i \<notin> set (cmd_pending_queue q)" "cur_cmd q \<noteq> Some i" using u(3) i by (auto simp: node_ok_def)
  show ?thesis
    by (rule cmd_inv_node [OF inv used])
      (use r u np i in \<open>auto simp: queue_cmd_node_def Let_def node_ok_def split: if_splits\<close>)
qed

lemma cmd_inv_current:
  assumes "cmd_inv q init ph" "cmd_pool q" "cur_cmd q = Some i"
  shows "ph i \<noteq> NFree" "node_ok (ph i) (i \<in> set (cmd_pending_queue q)) True (cmd_nodes q i)"
proof -
  have "node_ok (ph i) (i \<in> set (cmd_pending_queue q)) (cur_cmd q = Some i) (cmd_nodes q i)"
    using assms(1,2) by (simp add: cmd_inv_def)
  then show n: "node_ok (ph i) (i \<in> set (cmd_pending_queue q)) True (cmd_nodes q i)" by (simp add: assms(3))
  then show "ph i \<noteq> NFree" by (auto simp: node_ok_def)
qed

lemma resp_inv:
  assumes inv: "cmd_inv q init ph" and r: "process_cmd_resp skb a q = (r, q')"
  shows "cmd_inv q' init ph"
proof (cases "q' = q")
  case False
  then obtain i where c: "cur_cmd q = Some i" "\<not> completed (cmd_nodes q i)" "skb ! 0 = cmd_code (cmd_nodes q i)"
      "ch_seq skb = cmd_seq (cmd_nodes q i)" "8 \<le> length skb"
    and q': "q' = (upd_node i (\<lambda>n. n\<lparr>
        mgmt_dont_wait_for_ack := mgmt_dont_wait_for_ack n \<or> skb ! 0 = CMD_MGMT_TX \<and>
          ch_status skb = CMD_RESPONSE_SUCCESS \<and> skb ! 6 = HOSTED_MGMT_TX_ASYNC_STATUS_V1,
        resp_skb := Some skb, cn_result := 0, completed := True\<rparr>) q)\<lparr>cmd_resp := skb ! 0, cmd_resp_seq := ch_seq skb\<rparr>"
    using r by (auto simp: process_cmd_resp_def Let_def split: if_splits option.splits)
  show ?thesis
  proof (cases "cmd_pool q")
    case True
    note used = cmd_inv_current(1) [OF inv True c(1)] and n = cmd_inv_current(2) [OF inv True c(1)]
    note u = cmd_inv_used [OF inv used]
    have "node_ok (ph i) (i \<in> set (cmd_pending_queue q)) True (cmd_nodes q' i)"
      using n c(2-5) by (cases "ph i") (simp_all add: q' node_ok_def)
    then have "cmd_inv q' init (ph(i := ph i))"
      by (intro cmd_inv_node [OF inv used used]) (simp_all add: u q' c(1))
    then show ?thesis by simp
  qed (use inv q' in \<open>simp add: cmd_inv_def\<close>)
qed (use inv in simp)

lemma transport_failed_inv:
  assumes inv: "cmd_inv q init ph"
  shows "cmd_inv (esp_cmd_transport_failed code seq err q) init ph"
proof (cases "esp_cmd_transport_failed code seq err q = q")
  case False
  then obtain i e where c: "cur_cmd q = Some i" "\<not> completed (cmd_nodes q i)"
    and q': "esp_cmd_transport_failed code seq err q = upd_node i (\<lambda>n. n\<lparr>cn_result := e, completed := True\<rparr>) q"
    by (auto simp: esp_cmd_transport_failed_def Let_def split: if_splits option.splits)
  show ?thesis
  proof (cases "cmd_pool q")
    case True
    note used = cmd_inv_current(1) [OF inv True c(1)] and n = cmd_inv_current(2) [OF inv True c(1)]
    note u = cmd_inv_used [OF inv used]
    have "node_ok (ph i) (i \<in> set (cmd_pending_queue q)) True ((cmd_nodes q i)\<lparr>cn_result := e, completed := True\<rparr>)"
      using n c(2) by (cases "ph i") (simp_all add: node_ok_def)
    then have "cmd_inv (esp_cmd_transport_failed code seq err q) init (ph(i := ph i))"
      unfolding q' by (intro cmd_inv_node [OF inv used used]) (simp_all add: u c(1))
    then show ?thesis by simp
  qed (use inv q' in \<open>simp add: cmd_inv_def\<close>)
qed (use inv in simp)

lemma guard_inv:
  assumes inv: "cmd_inv q init ph" and i: "ph i = NQueued" and w: "woken \<longrightarrow> completed (cmd_nodes q i)"
    and r: "esp_cmd_wait_event_guard kenv ops woken i a q = (r, a', q')"
  shows "cmd_inv q' init (ph(i := NWaited (0 < r)))"
proof -
  have used: "ph i \<noteq> NFree" using i by simp
  note u = cmd_inv_used [OF inv used]
  show ?thesis
    by (rule cmd_inv_node [OF inv used])
      (use r u w i in \<open>auto simp: esp_cmd_wait_event_guard_def Let_def node_ok_def distinct_removeAll split: if_splits\<close>)
qed

lemma finish_inv:
  assumes inv: "cmd_inv q init ph" and i: "ph i = NWaited b" and r: "cmd_wait_finish (if b then 1 else 0) i q = (r, q')"
  shows "cmd_inv q' init (ph(i := NFinished))"
proof -
  have used: "ph i \<noteq> NFree" using i by simp
  note u = cmd_inv_used [OF inv used]
  show ?thesis
    by (rule cmd_inv_node [OF inv used])
      (use r u i in \<open>auto simp: cmd_wait_finish_def Let_def node_ok_def distinct_removeAll split: if_splits\<close>)
qed

lemma work_inv:
  assumes inv: "cmd_inv q init ph" and w: "esp_cmd_work kenv ops a q = (a', q')" and "test_bit ESP_CMD_INIT_DONE a = init"
  shows "cmd_inv q' init ph"
proof (cases "q' = q\<lparr>cmd_work := False\<rparr>")
  case False
  then obtain i rest where p: "cmd_pending_queue q = i # rest" "cur_cmd q = None" "init"
    using w assms(3) by (auto simp: esp_cmd_work_def Let_def split: if_splits list.splits)
  have pool: "cmd_pool q" using inv p(3) by (auto simp: cmd_inv_def split: if_splits)
  then have "node_ok (ph i) (i \<in> set (cmd_pending_queue q)) (cur_cmd q = Some i) (cmd_nodes q i)"
    using inv unfolding cmd_inv_def by presburger
  moreover have d: "distinct (i # rest)" using inv pool p(1) by (simp add: cmd_inv_def)
  ultimately have n: "node_ok (ph i) True False (cmd_nodes q i)" by (simp add: p)
  then have used: "ph i \<noteq> NFree" and np: "i \<notin> set rest" using d by (auto simp: node_ok_def)
  define e where "e = fst (esp_send_packet ops (cmd_checksum a (the (cmd_skb (cmd_nodes q i)))) a)"
  let ?q = "upd_node i (\<lambda>n. n\<lparr>in_pending_queue := False\<rparr>) (q\<lparr>cmd_work := False, cmd_pending_queue := rest\<rparr>)"
  let ?c = "upd_node i (\<lambda>n. n\<lparr>sent_at := jiffies kenv, cmd_skb := None\<rparr>)
    (?q\<lparr>cur_cmd := Some i, cmd_resp := 0, cmd_resp_seq := 0\<rparr>)"
  have q': "q' \<in> {upd_node i (\<lambda>n. n\<lparr>cn_result := - ESHUTDOWN, completed := True\<rparr>) ?q, ?c,
      upd_node i (\<lambda>n. n\<lparr>cn_result := e, completed := True\<rparr>) ?c}"
    using w p n False unfolding esp_cmd_work_def node_ok_def Let_def
    by (auto simp: case_prod_beta e_def split: if_splits)
  have "node_ok (ph i) False False ((cmd_nodes q i)\<lparr>in_pending_queue := False, cn_result := - ESHUTDOWN, completed := True\<rparr>)"
    "node_ok (ph i) False True ((cmd_nodes q i)\<lparr>in_pending_queue := False, sent_at := jiffies kenv, cmd_skb := None\<rparr>)"
    "node_ok (ph i) False True ((cmd_nodes q i)\<lparr>in_pending_queue := False, sent_at := jiffies kenv, cmd_skb := None,
       cn_result := e, completed := True\<rparr>)"
    using n by (cases "ph i"; simp add: node_ok_def)+
  then have "cmd_inv q' init (ph(i := ph i))"
    using q' d np by (intro cmd_inv_node [OF inv used used]) (auto simp: p)
  then show ?thesis by simp
qed (use inv in simp)

lemma cmd_release_inv:
  assumes inv: "cmd_inv q init ph" and i: "ph i = NFinished"
  shows "cmd_inv (cmd_release i a q) init (ph(i := NFree))"
proof -
  have used: "ph i \<noteq> NFree" "cur_cmd q \<noteq> Some i"
    using i cmd_inv_used(3) [OF inv, of i] by (auto simp: node_ok_def)
  from recycle_inv [OF inv this] show ?thesis by (simp add: cmd_release_def Let_def)
qed

text \<open>The abort completes the current command and every pending one.\<close>

lemma foldl_upd_node:
  "foldl (\<lambda>q i. upd_node i f q) q is = q\<lparr>cmd_nodes := cmd_nodes (foldl (\<lambda>q i. upd_node i f q) q is)\<rparr>"
  "distinct is \<Longrightarrow> cmd_nodes (foldl (\<lambda>q i. upd_node i f q) q is) j =
     (if j \<in> set is then f (cmd_nodes q j) else cmd_nodes q j)"
proof (induction "is" arbitrary: q)
  case (Cons i js)
  { case 1 show ?case by (simp, subst Cons(1)) (simp add: upd_node_def) next
    case 2 then show ?case using Cons(2) [of "upd_node i f q"] by auto }
qed simp_all

lemma foldl_upd_node_fields:
  "cmd_pool (foldl (\<lambda>q i. upd_node i f q) q is) = cmd_pool q"
  "cmd_nodes_in_use (foldl (\<lambda>q i. upd_node i f q) q is) = cmd_nodes_in_use q"
  by (induction "is" arbitrary: q) simp_all

definition cmd_aborted :: "cmd_queue \<Rightarrow> nat \<Rightarrow> command_node" where
  "cmd_aborted q j =
     (let n = cmd_nodes q j
      in if j \<in> set (cmd_pending_queue q) then n\<lparr>in_pending_queue := False, cn_result := - ESHUTDOWN, completed := True\<rparr>
         else if cur_cmd q = Some j \<and> \<not> completed n then n\<lparr>cn_result := - ESHUTDOWN, completed := True\<rparr>
         else n)"

lemma abort_waiters_eq:
  assumes "distinct (cmd_pending_queue q)" "\<And>i. cur_cmd q = Some i \<Longrightarrow> i \<notin> set (cmd_pending_queue q)"
    "test_bit ESP_CMD_INIT_DONE a \<or> cmd_wq q"
  shows "esp_cmd_abort_waiters a q = q\<lparr>cmd_pending_queue := [], cmd_nodes := cmd_aborted q\<rparr>"
proof -
  let ?f = "\<lambda>n :: command_node. n\<lparr>in_pending_queue := False, cn_result := - ESHUTDOWN, completed := True\<rparr>"
  let ?c = "case cur_cmd q of
      Some i \<Rightarrow> if \<not> completed (cmd_nodes q i)
                then upd_node i (\<lambda>n. n\<lparr>cn_result := - ESHUTDOWN, completed := True\<rparr>) q else q
    | None \<Rightarrow> q"
  have c: "?c\<lparr>cmd_pending_queue := [], cmd_nodes := x\<rparr> = q\<lparr>cmd_pending_queue := [], cmd_nodes := x\<rparr>"
    "cmd_pending_queue ?c = cmd_pending_queue q" for x
    by (simp_all add: upd_node_def split: option.split)
  have "cmd_nodes (foldl (\<lambda>q i. upd_node i ?f q) (?c\<lparr>cmd_pending_queue := []\<rparr>) (cmd_pending_queue q)) j = cmd_aborted q j" for j
    using assms(1,2) by (auto simp: foldl_upd_node(2) cmd_aborted_def Let_def split: option.split)
  then have "cmd_nodes (foldl (\<lambda>q i. upd_node i ?f q) (?c\<lparr>cmd_pending_queue := []\<rparr>) (cmd_pending_queue q)) = cmd_aborted q" by auto
  then have "foldl (\<lambda>q i. upd_node i ?f q) (?c\<lparr>cmd_pending_queue := []\<rparr>) (cmd_pending_queue q) =
      q\<lparr>cmd_pending_queue := [], cmd_nodes := cmd_aborted q\<rparr>"
    using foldl_upd_node(1) [of ?f "?c\<lparr>cmd_pending_queue := []\<rparr>" "cmd_pending_queue q"] c(1) by simp
  then show ?thesis using assms(3) c(2) by (auto simp: esp_cmd_abort_waiters_def Let_def)
qed

lemma abort_inv:
  assumes inv: "cmd_inv q init ph"
  shows "cmd_inv (esp_cmd_abort_waiters a q) init ph"
proof (cases "cmd_pool q \<and> (test_bit ESP_CMD_INIT_DONE a \<or> cmd_wq q)")
  case True
  have n: "node_ok (ph j) (j \<in> set (cmd_pending_queue q)) (cur_cmd q = Some j) (cmd_nodes q j)" for j
    using inv True by (simp add: cmd_inv_def)
  have "node_ok (ph j) False (cur_cmd q = Some j) (cmd_aborted q j)" for j
    using n [of j] by (cases "ph j") (auto simp: node_ok_def cmd_aborted_def Let_def)
  moreover have "esp_cmd_abort_waiters a q = q\<lparr>cmd_pending_queue := [], cmd_nodes := cmd_aborted q\<rparr>"
  proof (rule abort_waiters_eq)
    show "cur_cmd q = Some i \<Longrightarrow> i \<notin> set (cmd_pending_queue q)" for i
      using n [of i] by (auto simp: node_ok_def)
  qed (use inv True in \<open>simp_all add: cmd_inv_def\<close>)
  ultimately show ?thesis using inv True by (simp add: cmd_inv_def)
next
  case False
  have "cmd_pool (esp_cmd_abort_waiters a q) = cmd_pool q" "cmd_nodes_in_use (esp_cmd_abort_waiters a q) = cmd_nodes_in_use q"
    by (simp_all add: esp_cmd_abort_waiters_def Let_def foldl_upd_node_fields split: option.split)
  moreover have "cmd_pool q \<Longrightarrow> esp_cmd_abort_waiters a q = q" using False by (simp add: esp_cmd_abort_waiters_def)
  ultimately show ?thesis using inv by (cases "cmd_pool q") (simp_all add: cmd_inv_def)
qed

lemma destroy_wq_inv [simp]: "cmd_inv (destroy_cmd_wq q) init ph = cmd_inv q init ph"
  by (simp add: destroy_cmd_wq_def cmd_inv_def)

lemma all_free:
  assumes "cmd_inv q init ph" "cmd_nodes_in_use q = 0"
  shows "ph = (\<lambda>_. NFree)"
proof (cases "cmd_pool q")
  case True
  then have l: "length (cmd_free_queue q) = 20" "distinct (cmd_free_queue q)"
    and s: "set (cmd_free_queue q) = {i. i < 20 \<and> ph i = NFree}" and h: "\<forall>i. 20 \<le> i \<longrightarrow> ph i = NFree"
    using assms by (simp_all add: cmd_inv_def)
  have "set (cmd_free_queue q) \<subseteq> {..<20}" using s by auto
  moreover have "card (set (cmd_free_queue q)) = card {..<20 :: nat}" using distinct_card [OF l(2)] l(1) by simp
  ultimately have "set (cmd_free_queue q) = {..<20}" by (intro card_subset_eq) auto
  with s h show ?thesis by (auto simp: fun_eq_iff not_less [symmetric])
qed (use assms in \<open>simp add: cmd_inv_def\<close>)

lemma alloc_pool_eq:
  assumes "cmd_free_queue q = []"
  shows "alloc_esp_cmd_pool True q = (0, q\<lparr>cmd_pool := True, cmd_nodes := (\<lambda>_. fresh_node), cmd_free_queue := [0..<20]\<rparr>)"
proof -
  have r: "recycle_cmd_node i (q\<lparr>cmd_pool := True, cmd_nodes := (\<lambda>_. fresh_node), cmd_free_queue := fs\<rparr>) =
      q\<lparr>cmd_pool := True, cmd_nodes := (\<lambda>_. fresh_node), cmd_free_queue := fs @ [i]\<rparr>" for i fs
    by (auto simp: recycle_cmd_node_def reset_cmd_node_def upd_node_def fresh_node_def Let_def fun_eq_iff intro!: cmd_queue.equality)
  have "foldl (\<lambda>q i. recycle_cmd_node i q) (q\<lparr>cmd_pool := True, cmd_nodes := (\<lambda>_. fresh_node), cmd_free_queue := fs\<rparr>) is =
      q\<lparr>cmd_pool := True, cmd_nodes := (\<lambda>_. fresh_node), cmd_free_queue := fs @ is\<rparr>" for fs "is"
    by (induction "is" arbitrary: fs) (simp_all add: r)
  from this [of "[]" "[0..<20]"]
  have "foldl (\<lambda>q i. recycle_cmd_node i q) (q\<lparr>cmd_pool := True, cmd_nodes := (\<lambda>_. fresh_node), cmd_free_queue := []\<rparr>) [0..<20] =
      q\<lparr>cmd_pool := True, cmd_nodes := (\<lambda>_. fresh_node), cmd_free_queue := [0..<20]\<rparr>" by simp
  moreover have "q\<lparr>cmd_pool := True, cmd_nodes := (\<lambda>_. fresh_node), cmd_free_queue := []\<rparr> =
      q\<lparr>cmd_pool := True, cmd_nodes := (\<lambda>_. fresh_node)\<rparr>" using assms by (cases q) simp
  ultimately show ?thesis unfolding alloc_esp_cmd_pool_def by metis
qed

lemma setup_inv:
  assumes inv: "cmd_inv q False ph" and r: "esp_commands_setup w k a q = (r, a', q')"
  shows "cmd_inv q' (r = 0) ph"
proof (cases "cmd_pool q \<and> cmd_nodes_in_use q \<noteq> 0")
  case False
  have ph: "ph = (\<lambda>_. NFree)"
    using all_free [OF inv] False inv by (cases "cmd_pool q") (simp_all add: cmd_inv_def)
  have n: "node_ok NFree False False fresh_node" by (simp add: node_ok_def fresh_node_def)
  show ?thesis
  proof (cases "w \<and> k")
    case True
    then show ?thesis using r False n
      by (auto simp: esp_commands_setup_def Let_def alloc_pool_eq cmd_inv_def ph atLeast0LessThan)
  qed (use r False inv ph in \<open>auto simp: esp_commands_setup_def Let_def alloc_esp_cmd_pool_def free_esp_cmd_pool_def
      destroy_cmd_wq_def cmd_inv_def split: if_splits\<close>)
qed (use inv r in \<open>simp add: esp_commands_setup_def\<close>)

lemma teardown_inv:
  "cmd_inv q True ph \<Longrightarrow> commands_teardown_begin a q = (a', q') \<Longrightarrow> cmd_inv q' False ph"
  "cmd_inv q False ph \<Longrightarrow> drained \<longrightarrow> cmd_nodes_in_use q = 0 \<Longrightarrow> commands_teardown_end drained q = (r, q') \<Longrightarrow> cmd_inv q' False ph"
proof -
  have closed: "cmd_inv q init ph \<Longrightarrow> cmd_inv q False ph" for q init by (simp add: cmd_inv_def split: if_splits)
  show "cmd_inv q True ph \<Longrightarrow> commands_teardown_begin a q = (a', q') \<Longrightarrow> cmd_inv q' False ph"
    using closed [OF abort_inv [of q True ph]] by (auto simp: commands_teardown_begin_def Let_def)
  show "cmd_inv q False ph \<Longrightarrow> drained \<longrightarrow> cmd_nodes_in_use q = 0 \<Longrightarrow> commands_teardown_end drained q = (r, q') \<Longrightarrow> cmd_inv q' False ph"
    using all_free [of q False ph] by (auto simp: commands_teardown_end_def free_esp_cmd_pool_def cmd_inv_def split: if_splits)
qed

lemma caller_not_current:
  assumes "cmd_inv q init ph" "ph i = NTaken \<or> ph i = NReady"
  shows "ph i \<noteq> NFree" "cur_cmd q \<noteq> Some i"
  using cmd_inv_used(3) [OF assms(1), of i] assms(2) by (auto simp: node_ok_def)

lemma cmd_step_inv:
  assumes "cmd_step ops (q, init, ph) (q', init', ph')" "cmd_inv q init ph"
  shows "cmd_inv q' init' ph'"
  using assms(1)
proof (cases rule: cmd_step.cases)
  case take then show ?thesis using cmd_take_inv [OF assms(2)] by blast
next
  case (no_skb i) then show ?thesis using recycle_inv [OF assms(2) caller_not_current [OF assms(2)], of i] by simp
next
  case fill then show ?thesis using fill_inv [OF assms(2)] by simp
next
  case body then show ?thesis using body_inv [OF assms(2)] by simp
next
  case (abandon i) then show ?thesis using recycle_inv [OF assms(2) caller_not_current [OF assms(2)], of i] by simp
next
  case queue then show ?thesis using queue_inv [OF assms(2)] by simp
next
  case (rejected i kenv high a r q1)
  then have inv: "cmd_inv q1 init (ph(i := NQueued))" using queue_inv [OF assms(2)] by blast
  have c: "cur_cmd q1 = cur_cmd q" using rejected by (auto simp: queue_cmd_node_def Let_def split: if_splits)
  have "cur_cmd q1 \<noteq> Some i" using caller_not_current(2) [OF assms(2), of i] rejected c by simp
  then show ?thesis using recycle_inv [OF inv, of i] rejected by simp
next
  case work then show ?thesis using work_inv [OF assms(2)] by simp
next
  case resp then show ?thesis using resp_inv [OF assms(2)] by simp
next
  case transport_failed then show ?thesis using transport_failed_inv [OF assms(2)] by simp
next
  case guard then show ?thesis using guard_inv [OF assms(2)] by simp
next
  case finish then show ?thesis using finish_inv [OF assms(2)] by simp
next
  case release then show ?thesis using cmd_release_inv [OF assms(2)] by simp
next
  case abort then show ?thesis using abort_inv [OF assms(2)] by simp
next
  case teardown_begin then show ?thesis using teardown_inv(1) [of q ph] assms(2) by simp
next
  case teardown_end then show ?thesis using teardown_inv(2) [of q ph] assms(2) by simp
next
  case set_up then show ?thesis using setup_inv [of q ph] assms(2) by simp
qed

lemma cmd_reachable_inv:
  assumes "cmd_reachable ops x"
  shows "case x of (q, init, ph) \<Rightarrow> cmd_inv q init ph"
  using assms
proof induction
  case start
  then show ?case by (simp add: cmd_inv_def cmd_queue_zero_def)
next
  case (step x y)
  then show ?case using cmd_step_inv by (cases x; cases y) auto
qed


text \<open>What the invariant says of an allocated pool.\<close>

lemma cmd_inv_pool:
  assumes "cmd_inv q init ph" "cmd_pool q"
  shows "distinct (cmd_free_queue q)" "set (cmd_free_queue q) = {i. i < 20 \<and> ph i = NFree}"
    "cmd_nodes_in_use q = int (card {i. i < 20 \<and> ph i \<noteq> NFree})" "distinct (cmd_pending_queue q)"
    "\<forall>i \<in> set (cmd_pending_queue q). i < 20 \<and> waiting (ph i) \<and> \<not> completed (cmd_nodes q i) \<and> cmd_skb (cmd_nodes q i) \<noteq> None"
    "\<forall>i. cur_cmd q = Some i \<longrightarrow> i < 20 \<and> waiting (ph i) \<and> i \<notin> set (cmd_pending_queue q) \<and> cmd_skb (cmd_nodes q i) = None"
    "\<forall>i r. resp_skb (cmd_nodes q i) = Some r \<longrightarrow>
       completed (cmd_nodes q i) \<and> r ! 0 = cmd_code (cmd_nodes q i) \<and> ch_seq r = cmd_seq (cmd_nodes q i)"
proof -
  have f: "distinct (cmd_free_queue q)" "set (cmd_free_queue q) = {i. i < 20 \<and> ph i = NFree}"
    "cmd_nodes_in_use q = 20 - int (length (cmd_free_queue q))" "distinct (cmd_pending_queue q)"
    "\<And>i. node_ok (ph i) (i \<in> set (cmd_pending_queue q)) (cur_cmd q = Some i) (cmd_nodes q i)"
    "\<And>i. 20 \<le> i \<Longrightarrow> ph i = NFree"
    using assms by (auto simp: cmd_inv_def)
  show "distinct (cmd_free_queue q)" "set (cmd_free_queue q) = {i. i < 20 \<and> ph i = NFree}" "distinct (cmd_pending_queue q)"
    using f by simp_all
  have "card {i. i < 20 \<and> ph i = NFree} + card {i. i < 20 \<and> ph i \<noteq> NFree} = card ({i. i < 20 \<and> ph i = NFree} \<union> {i. i < 20 \<and> ph i \<noteq> NFree})"
    by (rule card_Un_disjoint [symmetric]) auto
  also have "{i. i < 20 \<and> ph i = NFree} \<union> {i. i < 20 \<and> ph i \<noteq> NFree} = {..<20}" by auto
  finally have "length (cmd_free_queue q) + card {i. i < 20 \<and> ph i \<noteq> NFree} = 20"
    using distinct_card [OF f(1)] f(2) by simp
  then show "cmd_nodes_in_use q = int (card {i. i < 20 \<and> ph i \<noteq> NFree})" using f(3) by linarith
  have lt: "waiting (ph i) \<Longrightarrow> i < 20" for i using f(6) [of i] by (cases "i < 20") auto
  show "\<forall>i \<in> set (cmd_pending_queue q). i < 20 \<and> waiting (ph i) \<and> \<not> completed (cmd_nodes q i) \<and> cmd_skb (cmd_nodes q i) \<noteq> None"
    using f(5) lt unfolding node_ok_def by blast
  show "\<forall>i. cur_cmd q = Some i \<longrightarrow> i < 20 \<and> waiting (ph i) \<and> i \<notin> set (cmd_pending_queue q) \<and> cmd_skb (cmd_nodes q i) = None"
    using f(5) lt unfolding node_ok_def by blast
  show "\<forall>i r. resp_skb (cmd_nodes q i) = Some r \<longrightarrow>
       completed (cmd_nodes q i) \<and> r ! 0 = cmd_code (cmd_nodes q i) \<and> ch_seq r = cmd_seq (cmd_nodes q i)"
    using f(5) unfolding node_ok_def by blast
qed

section \<open>Timeouts\<close>

text \<open>What a wait that is not woken does with a command that is not completed: it leaves both the pending
  queue and the current slot, its node is fresh again, and the result is an error.\<close>

lemma decode_error:
  assumes "ret < 0" "cmd_decode ret n p a = (ret', p', a')"
  shows "ret' < 0" "a' = a"
  using assms by (auto simp: cmd_decode_def Let_def split: if_splits)

lemma recycled_node:
  "cmd_nodes (recycle_cmd_node i q) i = fresh_node" "cur_cmd (recycle_cmd_node i q) = cur_cmd q"
  "\<not> in_pending_queue (cmd_nodes q i) \<Longrightarrow> cmd_pending_queue (recycle_cmd_node i q) = cmd_pending_queue q"
  by (auto simp: recycle_cmd_node_def reset_cmd_node_def upd_node_def Let_def fresh_node_def)

lemma cmd_expired:
  assumes inv: "cmd_inv q init ph" and i: "ph i = NQueued" "\<not> completed (cmd_nodes q i)"
    and w: "wait_and_decode_cmd_resp kenv ops False i p a q = (ret, p', a', q')"
    and sched: "esp_cmd_timeout_is_commit_ambiguous (cmd_code (cmd_nodes q i)) \<Longrightarrow>
      test_bit ESP_FW_RESET_EXPECTED (cmd_restart kenv ops a) \<or> test_bit ESP_DRIVER_UNLOADING a \<or> test_bit ESP_TRANSPORT_REMOVING a"
  shows "ret < 0" "cmd_nodes q' i = fresh_node" "i \<notin> set (cmd_pending_queue q')" "cur_cmd q' \<noteq> Some i"
    "a' = (if sent_at (cmd_nodes q i) \<noteq> 0 \<and> esp_cmd_timeout_is_commit_ambiguous (cmd_code (cmd_nodes q i)) \<and>
        \<not> test_bit ESP_DRIVER_UNLOADING a \<and> \<not> test_bit ESP_TRANSPORT_REMOVING a \<and> \<not> test_bit ESP_ALLOW_RECONSTRUCT a \<and>
        \<not> test_bit ESP_FW_RESET_EXPECTED a then cmd_restart kenv ops a else a)"
proof -
  have used: "ph i \<noteq> NFree" using i by simp
  note u = cmd_inv_used [OF inv used]
  obtain r a1 q1 where g: "esp_cmd_wait_event_guard kenv ops False i a q = (r, a1, q1)" by (metis prod_cases3)
  obtain r2 q2 where f: "cmd_wait_finish r i q1 = (r2, q2)" by (metis surj_pair)
  define a2 where "a2 = cmd_timeout_restart kenv ops r2 (cmd_nodes q2 i) a1"
  define r3 where "r3 = (if \<not> test_bit ESP_DRIVER_ACTIVE a2 \<and> r2 = 0 then - ESHUTDOWN else r2)"
  obtain r4 p4 a4 where d: "cmd_decode r3 (cmd_nodes q2 i) p a2 = (r4, p4, a4)" by (metis prod_cases3)
  have res: "ret = r4" "a' = a4" "q' = cmd_release i a4 q2"
    using w g f d by (auto simp: wait_and_decode_cmd_resp_def a2_def r3_def)
  have r: "r = 0" using g i(2) by (auto simp: esp_cmd_wait_event_guard_def Let_def)
  have q1: "cmd_inv q1 init (ph(i := NWaited (0 < r)))" using guard_inv [OF inv i(1) _ g] by simp
  then have q2: "cmd_inv q2 init (ph(i := NFinished))"
    using finish_inv [OF q1, of i "0 < r" r2 q2] f r by simp
  have n2: "\<not> in_pending_queue (cmd_nodes q2 i)" "i \<notin> set (cmd_pending_queue q2)" "cur_cmd q2 \<noteq> Some i"
    using cmd_inv_used(3) [OF q2, of i] by (auto simp: node_ok_def)
  have same: "sent_at (cmd_nodes q2 i) = sent_at (cmd_nodes q i)" "cmd_code (cmd_nodes q2 i) = cmd_code (cmd_nodes q i)"
    and r2: "r2 = - ETIMEDOUT"
    using g f i(2) unfolding esp_cmd_wait_event_guard_def cmd_wait_finish_def Let_def by (auto split: if_splits)
  have r3: "r3 = - ETIMEDOUT" by (simp add: r3_def r2)
  show "ret < 0" using decode_error(1) [OF _ d] res r3 by simp
  show "cmd_nodes q' i = fresh_node" "i \<notin> set (cmd_pending_queue q')" "cur_cmd q' \<noteq> Some i"
    using n2 by (simp_all add: res cmd_release_def Let_def recycled_node)
  have a4: "a4 = a2" using decode_error(2) [OF _ d] r3 by simp
  have a1: "a1 = (if sent_at (cmd_nodes q i) \<noteq> 0 \<and> esp_cmd_timeout_is_commit_ambiguous (cmd_code (cmd_nodes q i)) \<and>
        \<not> test_bit ESP_DRIVER_UNLOADING a \<and> \<not> test_bit ESP_TRANSPORT_REMOVING a \<and> \<not> test_bit ESP_ALLOW_RECONSTRUCT a \<and>
        \<not> test_bit ESP_FW_RESET_EXPECTED a then cmd_restart kenv ops a else a)"
    using g i(2) unfolding esp_cmd_wait_event_guard_def Let_def by simp
  have "a2 = a1"
    using sched unfolding a2_def cmd_timeout_restart_def same a1 by auto
  then show "a' = (if sent_at (cmd_nodes q i) \<noteq> 0 \<and> esp_cmd_timeout_is_commit_ambiguous (cmd_code (cmd_nodes q i)) \<and>
        \<not> test_bit ESP_DRIVER_UNLOADING a \<and> \<not> test_bit ESP_TRANSPORT_REMOVING a \<and> \<not> test_bit ESP_ALLOW_RECONSTRUCT a \<and>
        \<not> test_bit ESP_FW_RESET_EXPECTED a then cmd_restart kenv ops a else a)"
    using res a4 a1 by simp
qed

end
