(* ===== verification/Host_Mlme.thy ===== *)
theory Host_Mlme
  imports Host_Cmd
begin

text \<open>
  Firmware events on the host (\<^verbatim>\<open>host/esp_cmd.c\<close>): the authentication, association and
  disconnect events are staged while a command runs and delivered to cfg80211 afterwards;
  scan results, management frames and their transmit status are delivered at once. The
  wireless fields of the interface are in \<open>wifi_priv\<close>, the ones of the data path in the adapter.
  Shown: an event of another command or of another BSS changes nothing, and cfg80211 gets
  at most one authentication and one association answer for each command.
\<close>

section \<open>Environment\<close>

text \<open>\<open>me_wiphy\<close>: the adapter has a wiphy; \<open>me_current_bss\<close>: \<open>wireless_dev_current_bss_exists\<close>; \<open>me_copy\<close>:
  \<open>skb_copy\<close> succeeds; \<open>me_channel\<close>: the kernel knows the channel and it is not disabled;
  \<open>me_station\<close>: the interface is a station.\<close>

record 'c mlme_env =
  me_kenv :: kernel_env
  me_ops :: "'c esp_if_ops"
  me_wiphy :: bool
  me_current_bss :: bool
  me_copy :: bool
  me_channel :: "u8 \<Rightarrow> bool"
  me_station :: bool

abbreviation (input) EVENT_SCAN_RESULT :: u8 where "EVENT_SCAN_RESULT \<equiv> 1"
abbreviation (input) EVENT_STA_DISCONNECT :: u8 where "EVENT_STA_DISCONNECT \<equiv> 3"
abbreviation (input) EVENT_AUTH_RX :: u8 where "EVENT_AUTH_RX \<equiv> 4"
abbreviation (input) EVENT_ASSOC_RX :: u8 where "EVENT_ASSOC_RX \<equiv> 5"
abbreviation (input) EVENT_AP_MGMT_RX :: u8 where "EVENT_AP_MGMT_RX \<equiv> 6"
abbreviation (input) HOSTED_EVENT_MGMT_TX_STATUS :: u8 where "HOSTED_EVENT_MGMT_TX_STATUS \<equiv> 7"
abbreviation (input) DISCONNECT_TYPE_DISASSOC :: u8 where "DISCONNECT_TYPE_DISASSOC \<equiv> 1"
abbreviation (input) IEEE_HEADER_SIZE :: nat where "IEEE_HEADER_SIZE \<equiv> 24"

text \<open>A field of a packed event, and whether the interface has a network device.\<close>

definition bytes_at :: "nat \<Rightarrow> nat \<Rightarrow> bytes \<Rightarrow> bytes" where
  "bytes_at off n skb = take n (drop off skb)"

definition has_ndev :: "'c esp_adapter \<Rightarrow> bool" where
  "has_ndev a = (case priv0 a of None \<Rightarrow> False | Some w \<Rightarrow> wd_ndev w)"

definition no_bssid :: bytes where
  "no_bssid = replicate MAC_ADDR_LEN 0"

section \<open>BSS references\<close>

definition esp_wifi_put_bss :: "bool \<Rightarrow> wifi_priv \<Rightarrow> wifi_priv" where
  "esp_wifi_put_bss wiphy p =
     (let p' = p\<lparr>wp_bss := None\<rparr>
      in case wp_bss p of Some b \<Rightarrow> if wiphy then cfg_notify (CFG_PUT_BSS b) p' else p' | None \<Rightarrow> p')"

definition esp_wifi_ref_bss :: "bool \<Rightarrow> nat \<Rightarrow> wifi_priv \<Rightarrow> wifi_priv" where
  "esp_wifi_ref_bss wiphy b p =
     (if \<not> wiphy then p
      else
        let q = cfg_notify (CFG_REF_BSS b) p
        in if wp_bss p = Some b then cfg_notify (CFG_PUT_BSS b) q
           else let q = q\<lparr>wp_bss := Some b\<rparr>
                in case wp_bss p of Some c \<Rightarrow> cfg_notify (CFG_PUT_BSS c) q | None \<Rightarrow> q)"

definition esp_wifi_take_assoc_bss :: "bool \<Rightarrow> nat \<Rightarrow> wifi_priv \<Rightarrow> wifi_priv" where
  "esp_wifi_take_assoc_bss wiphy b p =
     (if \<not> wiphy then p
      else case wp_bss p of
             None \<Rightarrow> if assoc_cmd_pending p \<or> assoc_awaiting_mlme p then p\<lparr>wp_bss := Some b\<rparr>
                     else cfg_notify (CFG_PUT_BSS b) p
           | Some c \<Rightarrow> if c = b then cfg_notify (CFG_PUT_BSS b) p
                       else cfg_notify (CFG_PUT_BSS c) (p\<lparr>wp_bss := Some b\<rparr>))"

section \<open>Pending commands\<close>

definition esp_wifi_clear_auth_pending :: "wifi_priv \<Rightarrow> wifi_priv" where
  "esp_wifi_clear_auth_pending p =
     p\<lparr>auth_cmd_pending := False, auth_cmd_seq := 0, auth_awaiting_mlme := False, auth_bssid := no_bssid\<rparr>"

definition esp_wifi_clear_assoc_pending :: "wifi_priv \<Rightarrow> wifi_priv" where
  "esp_wifi_clear_assoc_pending p =
     p\<lparr>assoc_cmd_pending := False, assoc_cmd_seq := 0, assoc_control_port := False, assoc_awaiting_mlme := False,
       assoc_mlme_notified := False, staged_assoc_seq := 0, assoc_bssid := no_bssid, assoc_req_ie := [],
       staged_assoc_skb := None\<rparr>"

datatype esp_mlme_op = ESP_MLME_AUTH | ESP_MLME_ASSOC | ESP_MLME_DISCONNECT

section \<open>Delivery\<close>

definition skb_has_flex_frame :: "bytes \<Rightarrow> nat \<Rightarrow> nat \<Rightarrow> bool" where
  "skb_has_flex_frame skb prefix frame_len \<longleftrightarrow> prefix \<le> length skb \<and> frame_len \<le> length skb - prefix"

text \<open>The fields of \<open>struct auth_event\<close> and \<open>struct assoc_event\<close>, and their well-formedness.\<close>

definition auth_event_seq :: "bytes \<Rightarrow> u16" where "auth_event_seq skb = le_word (bytes_at 26 2 skb)"
definition auth_event_frame :: "bytes \<Rightarrow> bytes" where
  "auth_event_frame skb = bytes_at 28 (unat (le_word (bytes_at 24 2 skb) :: u16)) skb"
definition auth_event_ok :: "bytes \<Rightarrow> bool" where
  "auth_event_ok skb \<longleftrightarrow> skb_has_flex_frame skb 28 (unat (le_word (bytes_at 24 2 skb) :: u16))"

definition assoc_event_seq :: "bytes \<Rightarrow> u16" where "assoc_event_seq skb = le_word (bytes_at 46 2 skb)"
definition assoc_event_frame :: "bytes \<Rightarrow> bytes" where
  "assoc_event_frame skb = bytes_at 62 (unat (le_word (bytes_at 48 2 skb) :: u16)) skb"
definition assoc_event_ok :: "bytes \<Rightarrow> bool" where
  "assoc_event_ok skb \<longleftrightarrow> skb_has_flex_frame skb 62 (unat (le_word (bytes_at 48 2 skb) :: u16))"

definition event_bssid :: "bytes \<Rightarrow> bytes" where "event_bssid skb = bytes_at 4 MAC_ADDR_LEN skb"

definition disconnect_event_seq :: "bytes \<Rightarrow> u16" where "disconnect_event_seq skb = le_word (bytes_at 44 2 skb)"

definition esp_deliver_auth_from_skb :: "bool \<Rightarrow> bytes \<Rightarrow> wifi_priv \<Rightarrow> wifi_priv" where
  "esp_deliver_auth_from_skb ndev skb p =
     (if \<not> ndev \<or> \<not> auth_event_ok skb then p
      else if \<not> auth_awaiting_mlme p \<or> auth_cmd_seq p = 0 \<or> auth_event_seq skb \<noteq> auth_cmd_seq p \<or>
              auth_bssid p \<noteq> event_bssid skb then p
      else cfg_notify (CFG_RX_AUTH (auth_event_frame skb))
             (p\<lparr>auth_awaiting_mlme := False, auth_cmd_seq := 0, auth_bssid := no_bssid\<rparr>))"

definition esp_deliver_assoc_from_skb ::
  "bool \<Rightarrow> bytes \<Rightarrow> wifi_priv \<times> 'c esp_adapter \<Rightarrow> wifi_priv \<times> 'c esp_adapter" where
  "esp_deliver_assoc_from_skb current_bss skb s =
     (let (p, a) = s; frame = assoc_event_frame skb;
          status_code = (if IEEE_HEADER_SIZE + 4 \<le> length frame then le_word (bytes_at (IEEE_HEADER_SIZE + 2) 2 frame) else 0 :: u16)
      in if \<not> has_ndev a \<or> \<not> assoc_event_ok skb then (p, a)
         else if \<not> (assoc_cmd_pending p \<or> assoc_awaiting_mlme p) \<or> assoc_cmd_seq p = 0 \<or>
                 assoc_event_seq skb \<noteq> assoc_cmd_seq p \<or> assoc_bssid p \<noteq> event_bssid skb then (p, a)
         else
           let gen = (if status_code = 0 then assoc_cmd_seq p else if \<not> current_bss then 0 else conn_generation p);
               a = (if status_code = 0
                    then upd_priv (\<lambda>w. w\<lparr>stop_data := False, port_open := \<not> assoc_control_port p\<rparr>) a
                    else if \<not> current_bss then upd_priv (\<lambda>w. w\<lparr>stop_data := True, port_open := False\<rparr>) a else a)
           in (cfg_notify (CFG_RX_ASSOC (wp_bss p) frame (assoc_req_ie p))
                 (p\<lparr>assoc_cmd_pending := False, assoc_awaiting_mlme := False, assoc_mlme_notified := True,
                    conn_generation := gen, staged_assoc_seq := 0, assoc_cmd_seq := 0, assoc_control_port := False,
                    assoc_bssid := no_bssid, wp_bss := None, assoc_req_ie := [],
                    rssi := ucast (le_word (bytes_at 50 4 skb) :: u32)\<rparr>), a))"

text \<open>The deauthentication or disassociation frame made from a disconnect event.\<close>

definition process_deauth_event :: "bool \<Rightarrow> bytes \<Rightarrow> wifi_priv \<Rightarrow> wifi_priv" where
  "process_deauth_event ndev skb p =
     (if \<not> ndev then p
      else cfg_notify (CFG_RX_DEAUTH
        ([if skb ! 1 = DISCONNECT_TYPE_DISASSOC then 0xA0 else 0xC0, 0, 0, 0] @ mac_address p @ event_bssid skb @
         event_bssid skb @ [0, 0] @ le_bytes 2 (ucast (skb ! 43) :: u16))) p)"

text \<open>Whether a disconnect event is for this connection, and whether it answers a local request.\<close>

definition disconnect_match :: "u16 \<Rightarrow> wifi_priv \<Rightarrow> bool option" where
  "disconnect_match disc_seq p =
     (if (disconnect_cmd_pending p \<or> disconnect_awaiting_mlme p) \<and> disconnect_cmd_seq p \<noteq> 0 \<and>
         disc_seq = disconnect_cmd_seq p then Some True
      else if (conn_generation p \<noteq> 0 \<and> disc_seq = conn_generation p) \<or>
              (staged_assoc_seq p \<noteq> 0 \<and> disc_seq = staged_assoc_seq p) then Some False
      else if local_disconnect_req p \<and> (disconnect_cmd_pending p \<or> disconnect_awaiting_mlme p) \<and>
              disconnect_cmd_seq p = 0 then Some True
      else None)"

definition esp_deliver_disconnect_from_skb ::
  "bool \<Rightarrow> bytes \<Rightarrow> wifi_priv \<times> 'c esp_adapter \<Rightarrow> wifi_priv \<times> 'c esp_adapter" where
  "esp_deliver_disconnect_from_skb wiphy skb s =
     (let (p, a) = s
      in if length skb < 46 then (p, a)
         else case disconnect_match (disconnect_event_seq skb) p of
                None \<Rightarrow> (p, a)
              | Some loc \<Rightarrow>
                  let p = p\<lparr>local_disconnect_req := False, disconnect_awaiting_mlme := False, disconnect_cmd_seq := 0,
                            staged_assoc_seq := 0, assoc_awaiting_mlme := False, assoc_cmd_seq := 0,
                            conn_generation := 0, disconnect_bssid := no_bssid, staged_assoc_skb := None\<rparr>;
                      p = esp_wifi_clear_auth_pending (esp_wifi_clear_assoc_pending (esp_wifi_put_bss wiphy p));
                      a = upd_priv (\<lambda>w. w\<lparr>stop_data := True\<rparr>) (esp_port_close a)
                  in (if loc then cfg_notify (CFG_DISCONNECTED (ucast (skb ! 43)) True) p
                      else process_deauth_event (has_ndev a) skb p, a))"

section \<open>Staging\<close>

definition esp_mlme_busy :: "wifi_priv \<Rightarrow> bool" where
  "esp_mlme_busy p \<longleftrightarrow> mlme_wdev_held p \<or> auth_cmd_pending p \<or> assoc_cmd_pending p \<or> disconnect_cmd_pending p"

text \<open>The staged authentication frames that are handed out, and what stays staged.\<close>

definition esp_auth_splice_guard :: "'c esp_adapter \<Rightarrow> wifi_priv \<Rightarrow> bytes list \<times> wifi_priv" where
  "esp_auth_splice_guard a p =
     (if auth_cmd_pending p \<and> \<not> (test_bit ESP_CLEANUP_IN_PROGRESS a \<or> test_bit ESP_DRIVER_UNLOADING a) then ([], p)
      else if \<not> auth_awaiting_mlme p then ([], p\<lparr>staged_auth_q := []\<rparr>)
      else (staged_auth_q p, p\<lparr>staged_auth_q := []\<rparr>))"

definition mlme_awaiting :: "wifi_priv \<Rightarrow> bool" where
  "mlme_awaiting p \<longleftrightarrow> assoc_awaiting_mlme p \<or> auth_awaiting_mlme p \<or> disconnect_awaiting_mlme p"

definition esp_mlme_flush_staged ::
  "'c mlme_env \<Rightarrow> wifi_priv \<times> 'c esp_adapter \<Rightarrow> wifi_priv \<times> 'c esp_adapter" where
  "esp_mlme_flush_staged env s =
     (let (p, a) = s;
          (auth_q, p) = esp_auth_splice_guard a p;
          assoc = staged_assoc_skb p; disc = staged_disconnect_skb p;
          p = p\<lparr>staged_assoc_skb := None, staged_disconnect_skb := None\<rparr>;
          p = foldl (\<lambda>p skb. esp_deliver_auth_from_skb (has_ndev a) skb p) p auth_q;
          s = (case assoc of Some skb \<Rightarrow> esp_deliver_assoc_from_skb (me_current_bss env) skb (p, a) | None \<Rightarrow> (p, a));
          (p, a) = (case disc of Some skb \<Rightarrow> esp_deliver_disconnect_from_skb (me_wiphy env) skb s | None \<Rightarrow> s)
      in (if \<not> mlme_awaiting p then p\<lparr>mlme_timeout_work := False\<rparr> else p, a))"

definition esp_mlme_work :: "'c mlme_env \<Rightarrow> wifi_priv \<times> 'c esp_adapter \<Rightarrow> wifi_priv \<times> 'c esp_adapter" where
  "esp_mlme_work env s =
     (let (p, a) = s; p = p\<lparr>mlme_work := False\<rparr>
      in if \<not> has_ndev a \<or> mlme_wdev_held p then (p, a) else esp_mlme_flush_staged env (p, a))"

definition esp_mlme_timeout_work ::
  "'c mlme_env \<Rightarrow> wifi_priv \<times> 'c esp_adapter \<Rightarrow> wifi_priv \<times> 'c esp_adapter" where
  "esp_mlme_timeout_work env s =
     (let (p, a) = s;
          assoc_timed_out = assoc_awaiting_mlme p; disc_timed_out = disconnect_awaiting_mlme p;
          auth_timed_out = auth_awaiting_mlme p;
          p = p\<lparr>mlme_timeout_work := False\<rparr>;
          p = (if assoc_timed_out
               then p\<lparr>assoc_awaiting_mlme := False, assoc_cmd_pending := False, staged_assoc_seq := 0, assoc_cmd_seq := 0\<rparr>
               else p);
          p = (if disc_timed_out
               then p\<lparr>disconnect_awaiting_mlme := False, disconnect_cmd_pending := False, disconnect_cmd_seq := 0\<rparr>
               else p);
          p = (if auth_timed_out
               then p\<lparr>auth_awaiting_mlme := False, auth_cmd_pending := False, auth_cmd_seq := 0\<rparr> else p);
          restart = cmd_restart (me_kenv env) (me_ops env);
          (p, a) = (if assoc_timed_out then (esp_wifi_clear_assoc_pending p, restart a) else (p, a));
          (p, a) = (if disc_timed_out
                    then let p = esp_wifi_clear_auth_pending (esp_wifi_clear_assoc_pending
                                   (esp_wifi_put_bss (me_wiphy env) p));
                             a = esp_port_close a
                         in (if has_ndev a then cfg_notify (CFG_DISCONNECTED 1 True) p else p, restart a)
                    else (p, a))
      in if auth_timed_out then (esp_wifi_clear_auth_pending p, restart a) else (p, a))"

definition esp_mark_scan_done :: "bool \<Rightarrow> wifi_priv \<Rightarrow> wifi_priv" where
  "esp_mark_scan_done aborted p =
     (let q = p\<lparr>scan_request := False, scan_in_progress := False\<rparr>
      in if scan_request p then cfg_notify (CFG_SCAN_DONE aborted) q else q)"

definition esp_scan_timeout_work ::
  "'c mlme_env \<Rightarrow> wifi_priv \<times> 'c esp_adapter \<Rightarrow> wifi_priv \<times> 'c esp_adapter" where
  "esp_scan_timeout_work env s =
     (let (p, a) = s; req = scan_request p; p = p\<lparr>scan_timeout_work := False\<rparr>
      in if scan_in_progress p \<or> req
         then ((esp_mark_scan_done True p)\<lparr>waiting_for_scan_done := False\<rparr>,
               if req then cmd_restart (me_kenv env) (me_ops env) a else a)
         else (p, a))"

definition esp_mlme_init :: "wifi_priv \<Rightarrow> wifi_priv" where
  "esp_mlme_init p = p\<lparr>staged_auth_q := [], mlme_work := False, mlme_timeout_work := False, scan_timeout_work := False\<rparr>"

definition esp_mlme_has_staged :: "wifi_priv \<Rightarrow> bool" where
  "esp_mlme_has_staged p \<longleftrightarrow> staged_auth_q p \<noteq> [] \<or> staged_assoc_skb p \<noteq> None \<or> staged_disconnect_skb p \<noteq> None"

definition esp_mlme_begin :: "esp_mlme_op \<Rightarrow> wifi_priv \<Rightarrow> wifi_priv" where
  "esp_mlme_begin op p =
     (let p = p\<lparr>mlme_wdev_held := True\<rparr>
      in case op of
           ESP_MLME_AUTH \<Rightarrow> p\<lparr>auth_cmd_pending := True, auth_awaiting_mlme := False\<rparr>
         | ESP_MLME_ASSOC \<Rightarrow> p\<lparr>assoc_mlme_notified := False\<rparr>
         | ESP_MLME_DISCONNECT \<Rightarrow> p\<lparr>disconnect_cmd_pending := True, disconnect_awaiting_mlme := False\<rparr>)"

definition esp_mlme_end ::
  "'c mlme_env \<Rightarrow> esp_mlme_op \<Rightarrow> bool \<Rightarrow> wifi_priv \<times> 'c esp_adapter \<Rightarrow> wifi_priv \<times> 'c esp_adapter" where
  "esp_mlme_end env op success s =
     (let (p, a) = s;
          p = (if \<not> success \<and> op = ESP_MLME_AUTH
               then p\<lparr>staged_auth_q := [], auth_cmd_pending := False, auth_awaiting_mlme := False, auth_cmd_seq := 0,
                      auth_bssid := no_bssid\<rparr> else p);
          p = (if \<not> success \<and> op = ESP_MLME_ASSOC
               then p\<lparr>staged_assoc_skb := None, staged_assoc_seq := 0, assoc_awaiting_mlme := False,
                      assoc_mlme_notified := False\<rparr> else p);
          (p, a) = esp_mlme_flush_staged env (p, a);
          p = (case op of
                 ESP_MLME_AUTH \<Rightarrow> p\<lparr>auth_cmd_pending := False, auth_awaiting_mlme := success\<rparr>
               | ESP_MLME_ASSOC \<Rightarrow> p\<lparr>assoc_cmd_pending := False,
                   assoc_awaiting_mlme := success \<and> \<not> assoc_mlme_notified p \<and> assoc_cmd_seq p \<noteq> 0\<rparr>
               | ESP_MLME_DISCONNECT \<Rightarrow> p\<lparr>disconnect_cmd_pending := False, disconnect_awaiting_mlme := success\<rparr>);
          p = p\<lparr>mlme_wdev_held := False, mlme_timeout_work := mlme_awaiting p\<rparr>
      in (if esp_mlme_has_staged p \<and> events_wq a then p\<lparr>mlme_work := True\<rparr> else p, a))"

definition esp_mlme_stage_event ::
  "'c mlme_env \<Rightarrow> bytes \<Rightarrow> u8 \<Rightarrow> wifi_priv \<times> 'c esp_adapter \<Rightarrow> wifi_priv \<times> 'c esp_adapter" where
  "esp_mlme_stage_event env skb event_code s =
     (let (p, a) = s
      in if \<not> me_copy env
         then (if event_code = EVENT_ASSOC_RX
               then p\<lparr>assoc_awaiting_mlme := False, assoc_cmd_pending := False, staged_assoc_seq := 0, assoc_cmd_seq := 0\<rparr>
               else if event_code = EVENT_STA_DISCONNECT
               then p\<lparr>disconnect_awaiting_mlme := False, disconnect_cmd_pending := False, disconnect_cmd_seq := 0\<rparr>
               else if event_code = EVENT_AUTH_RX
               then p\<lparr>auth_awaiting_mlme := False, auth_cmd_pending := False, auth_cmd_seq := 0\<rparr>
               else p, cmd_restart (me_kenv env) (me_ops env) a)
         else (if event_code = EVENT_AUTH_RX
               then if length (staged_auth_q p) < 8 then p\<lparr>staged_auth_q := staged_auth_q p @ [skb]\<rparr> else p
               else if event_code = EVENT_ASSOC_RX
               then if staged_assoc_skb p = None
                    then p\<lparr>staged_assoc_skb := Some skb, staged_assoc_seq := assoc_cmd_seq p\<rparr> else p
               else if event_code = EVENT_STA_DISCONNECT
               then if staged_disconnect_skb p = None then p\<lparr>staged_disconnect_skb := Some skb\<rparr> else p
               else p, a))"

definition esp_mlme_cancel :: "'c esp_adapter \<Rightarrow> wifi_priv \<Rightarrow> wifi_priv" where
  "esp_mlme_cancel a p =
     (let p = p\<lparr>mlme_timeout_work := False, scan_timeout_work := False, mlme_work := False\<rparr>;
          p = snd (esp_auth_splice_guard a p);
          p = p\<lparr>staged_assoc_skb := None, staged_assoc_seq := 0, staged_disconnect_skb := None,
                assoc_awaiting_mlme := False, auth_awaiting_mlme := False, disconnect_awaiting_mlme := False,
                mlme_wdev_held := False, auth_cmd_pending := False, disconnect_cmd_pending := False,
                conn_generation := 0, local_disconnect_req := False, disconnect_cmd_seq := 0,
                disconnect_bssid := no_bssid\<rparr>;
          p = esp_wifi_clear_auth_pending (esp_wifi_clear_assoc_pending p)
      in if scan_in_progress p \<or> scan_request p then esp_mark_scan_done True p else p)"

section \<open>Events\<close>

definition process_scan_result_event ::
  "'c mlme_env \<Rightarrow> bytes \<Rightarrow> wifi_priv \<Rightarrow> wifi_priv" where
  "process_scan_result_event env skb p =
     (if length skb < 4 then p
      else if skb ! 1 = 0
      then if \<not> scan_in_progress p \<and> \<not> scan_request p \<and> \<not> waiting_for_scan_done p then p
           else (esp_mark_scan_done False (p\<lparr>scan_timeout_work := False\<rparr>))\<lparr>waiting_for_scan_done := False\<rparr>
      else if length skb < 28 then p
      else if \<not> scan_in_progress p then p
      else
        let frame_len = unat (le_word (bytes_at 24 2 skb) :: u16)
        in if \<not> skb_has_flex_frame skb 28 frame_len \<or> frame_len < 12 then p
           else
             let frame = bytes_at 28 frame_len skb; channel = skb ! 11; ftype = skb ! 10;
                 kind = (if ftype = 8 then 1 else if ftype = 5 then 2 else 0)
             in if me_channel env channel
                then cfg_notify (CFG_INFORM_BSS channel kind (event_bssid skb) (le_word (bytes_at 0 8 frame))
                       (le_word (bytes_at 10 2 frame)) (le_word (bytes_at 8 2 frame)) (drop 12 frame)
                       (le_word (bytes_at 12 4 skb) * 100)) p
                else p)"

definition queue_mlme_work :: "bool \<Rightarrow> wifi_priv \<times> 'c esp_adapter \<Rightarrow> wifi_priv \<times> 'c esp_adapter" where
  "queue_mlme_work busy s =
     (let (p, a) = s in (if \<not> busy \<and> events_wq a then p\<lparr>mlme_work := True\<rparr> else p, a))"

definition process_auth_event ::
  "'c mlme_env \<Rightarrow> bytes \<Rightarrow> wifi_priv \<times> 'c esp_adapter \<Rightarrow> wifi_priv \<times> 'c esp_adapter" where
  "process_auth_event env skb s =
     (let (p, a) = s
      in if \<not> has_ndev a \<or> \<not> auth_event_ok skb then (p, a)
         else if \<not> ((auth_cmd_pending p \<or> auth_awaiting_mlme p) \<and> auth_cmd_seq p \<noteq> 0 \<and>
                    auth_event_seq skb = auth_cmd_seq p \<and> auth_bssid p = event_bssid skb) then (p, a)
         else queue_mlme_work (esp_mlme_busy p) (esp_mlme_stage_event env skb EVENT_AUTH_RX (p, a)))"

definition chan_to_freq :: "u8 \<Rightarrow> int" where
  "chan_to_freq chan =
     (if 1 \<le> chan \<and> chan \<le> 13 then 2407 + 5 * uint chan
      else if chan = 14 then 2484
      else if 32 \<le> chan \<and> chan \<le> 177 then 5000 + 5 * uint chan
      else - 1)"

definition process_mgmt_tx_status :: "bool \<Rightarrow> bool \<Rightarrow> bytes \<Rightarrow> u64 \<Rightarrow> wifi_priv \<Rightarrow> wifi_priv" where
  "process_mgmt_tx_status ndev ack data c p = (if ndev then cfg_notify (CFG_MGMT_TX_STATUS c data ack) p else p)"

definition process_ap_mgmt_rx :: "bool \<Rightarrow> bytes \<Rightarrow> wifi_priv \<Rightarrow> wifi_priv" where
  "process_ap_mgmt_rx ndev skb p =
     (let frame_len = unat (le_word (bytes_at 16 4 skb) :: u32)
      in if \<not> ndev \<or> \<not> skb_has_flex_frame skb 20 frame_len then p
         else cfg_notify (CFG_RX_MGMT (chan_to_freq (ucast (le_word (bytes_at 12 4 skb) :: u32)))
                (le_word (bytes_at 8 4 skb)) (bytes_at 20 frame_len skb)) p)"

definition process_disconnect_event ::
  "'c mlme_env \<Rightarrow> bytes \<Rightarrow> wifi_priv \<times> 'c esp_adapter \<Rightarrow> wifi_priv \<times> 'c esp_adapter" where
  "process_disconnect_event env skb s =
     (let (p, a) = s
      in if length skb < 46 then (p, a)
         else if disconnect_match (disconnect_event_seq skb) p = None then (p, a)
         else queue_mlme_work (esp_mlme_busy p) (esp_mlme_stage_event env skb EVENT_STA_DISCONNECT (p, a)))"

definition process_assoc_event ::
  "'c mlme_env \<Rightarrow> bytes \<Rightarrow> wifi_priv \<times> 'c esp_adapter \<Rightarrow> wifi_priv \<times> 'c esp_adapter" where
  "process_assoc_event env skb s =
     (let (p, a) = s
      in if \<not> assoc_event_ok skb then (p, a)
         else if \<not> ((assoc_cmd_pending p \<or> assoc_awaiting_mlme p) \<and> assoc_cmd_seq p \<noteq> 0 \<and>
                    assoc_event_seq skb = assoc_cmd_seq p \<and> assoc_bssid p = event_bssid skb) then (p, a)
         else queue_mlme_work (esp_mlme_busy p) (esp_mlme_stage_event env skb EVENT_ASSOC_RX (p, a)))"

text \<open>The transmit status of a management frame: reported once, for the request it is about.\<close>

definition process_mgmt_status_event :: "bool \<Rightarrow> bytes \<Rightarrow> wifi_priv \<Rightarrow> int \<times> wifi_priv" where
  "process_mgmt_status_event ndev skb p =
     (let tx_id = le_word (bytes_at 4 8 skb); frame_len = unat (le_word (bytes_at 12 4 skb) :: u32)
      in if length skb < 20 then (- EINVAL, p)
         else if tx_id = 0 \<or> \<not> skb_has_flex_frame skb 20 frame_len then (- EINVAL, p)
         else if pending_mgmt_active p \<and> pending_mgmt_id p = tx_id
         then (0, process_mgmt_tx_status ndev (skb ! 16 \<noteq> 0) (bytes_at 20 frame_len skb) (pending_mgmt_cookie p)
                    (p\<lparr>pending_mgmt_active := False\<rparr>))
         else (0, p))"

definition process_cmd_event ::
  "'c mlme_env \<Rightarrow> bytes \<Rightarrow> wifi_priv \<times> 'c esp_adapter \<Rightarrow> int \<times> wifi_priv \<times> 'c esp_adapter" where
  "process_cmd_event env skb s =
     (let (p, a) = s; code = skb ! 0
      in if length skb < 4 then (- EMSGSIZE, p, a)
         else if code = EVENT_SCAN_RESULT then (0, process_scan_result_event env skb p, a)
         else if code = EVENT_ASSOC_RX then (0, process_assoc_event env skb (p, a))
         else if code = EVENT_STA_DISCONNECT then (0, process_disconnect_event env skb (p, a))
         else if code = EVENT_AUTH_RX then (0, process_auth_event env skb (p, a))
         else if code = EVENT_AP_MGMT_RX then (0, process_ap_mgmt_rx (has_ndev a) skb p, a)
         else if code = HOSTED_EVENT_MGMT_TX_STATUS
         then let (ret, p) = process_mgmt_status_event (has_ndev a) skb p in (ret, p, a)
         else (0, p, a))"

definition esp_mark_disconnect :: "'c mlme_env \<Rightarrow> u16 \<Rightarrow> bool \<Rightarrow> wifi_priv \<times> 'c esp_adapter \<Rightarrow> wifi_priv" where
  "esp_mark_disconnect env reason loc s =
     (let (p, a) = s in if has_ndev a \<and> me_current_bss env then cfg_notify (CFG_DISCONNECTED reason loc) p else p)"

definition esp_mark_scan_done_and_disconnect :: "'c mlme_env \<Rightarrow> bool \<Rightarrow> wifi_priv \<times> 'c esp_adapter \<Rightarrow> wifi_priv" where
  "esp_mark_scan_done_and_disconnect env loc s =
     (let (p, a) = s
      in if \<not> me_station env then p
         else esp_mark_disconnect env 0 loc (esp_wifi_put_bss (me_wiphy env) (esp_mark_scan_done True p), a))"

definition esp_cfg_cleanup :: "'c mlme_env \<Rightarrow> wifi_priv \<times> 'c esp_adapter \<Rightarrow> wifi_priv \<times> 'c esp_adapter" where
  "esp_cfg_cleanup env s =
     (let (p, a) = s
      in if priv0 a = None then s
         else (if me_station env then esp_mark_scan_done_and_disconnect env False s else p, esp_port_close a))"

section \<open>Requests\<close>

text \<open>The locked sections of \<open>cmd_auth_request\<close>, \<open>cmd_assoc_request\<close> and \<open>cmd_disconnect_request\<close> before the
  command is queued; \<open>None\<close>: an earlier request is still open.\<close>

definition auth_request_begin :: "bytes \<Rightarrow> u16 \<Rightarrow> wifi_priv \<Rightarrow> wifi_priv option" where
  "auth_request_begin bssid seq p =
     (if auth_cmd_pending p \<or> auth_awaiting_mlme p then None
      else Some (esp_mlme_begin ESP_MLME_AUTH (p\<lparr>auth_bssid := bssid, auth_cmd_seq := seq\<rparr>)))"

definition assoc_request_begin ::
  "bool \<Rightarrow> nat \<Rightarrow> bytes \<Rightarrow> bytes \<Rightarrow> bool \<Rightarrow> u16 \<Rightarrow> wifi_priv \<Rightarrow> (bool \<times> wifi_priv) option" where
  "assoc_request_begin wiphy bss bssid ie control_port seq p =
     (if assoc_cmd_pending p \<or> assoc_awaiting_mlme p then None
      else
        let need_bss_ref = (wp_bss p = None);
            p = p\<lparr>assoc_req_ie := ie, assoc_bssid := bssid, assoc_cmd_seq := seq, assoc_control_port := control_port,
                  assoc_cmd_pending := True\<rparr>;
            p = (if need_bss_ref then esp_wifi_ref_bss wiphy bss p else p)
        in Some (need_bss_ref, esp_mlme_begin ESP_MLME_ASSOC p))"

definition disconnect_request_begin :: "bytes option \<Rightarrow> u16 \<Rightarrow> wifi_priv \<Rightarrow> wifi_priv" where
  "disconnect_request_begin mac seq p =
     esp_mlme_begin ESP_MLME_DISCONNECT (p\<lparr>local_disconnect_req := True, disconnect_cmd_seq := seq,
       disconnect_bssid := (case mac of Some m \<Rightarrow> m | None \<Rightarrow> no_bssid)\<rparr>)"

section \<open>At most one answer for each command\<close>

fun is_auth :: "cfg_event \<Rightarrow> bool" where
  "is_auth (CFG_RX_AUTH f) = True"
| "is_auth _ = False"

fun is_assoc :: "cfg_event \<Rightarrow> bool" where
  "is_assoc (CFG_RX_ASSOC b f ie) = True"
| "is_assoc _ = False"

text \<open>The answers given to cfg80211, and one more while a command waits for its own.\<close>

definition auth_due :: "wifi_priv \<Rightarrow> nat" where
  "auth_due p = length (filter is_auth (cfg_events p)) + (if auth_cmd_seq p = 0 then 0 else 1)"

definition assoc_due :: "wifi_priv \<Rightarrow> nat" where
  "assoc_due p = length (filter is_assoc (cfg_events p)) + (if assoc_cmd_seq p = 0 then 0 else 1)"

definition due_le :: "wifi_priv \<Rightarrow> wifi_priv \<Rightarrow> bool" where
  "due_le p' p \<longleftrightarrow> auth_due p' \<le> auth_due p \<and> assoc_due p' \<le> assoc_due p \<and>
     (length (staged_auth_q p) \<le> 8 \<longrightarrow> length (staged_auth_q p') \<le> 8)"

lemma due_refl [simp]: "due_le p p" by (simp add: due_le_def)

lemma due_trans: "due_le p'' p' \<Longrightarrow> due_le p' p \<Longrightarrow> due_le p'' p" by (auto simp: due_le_def)

lemmas due_defs = due_le_def auth_due_def assoc_due_def cfg_notify_def

text \<open>A step of the driver runs between locked sections of others; the delivery of a staged frame is a
  step of its own, for any frame. The counters say how many authentication and association commands
  were begun.\<close>

inductive mlme_step ::
  "(wifi_priv \<times> 'c esp_adapter) \<times> nat \<times> nat \<Rightarrow> (wifi_priv \<times> 'c esp_adapter) \<times> nat \<times> nat \<Rightarrow> bool" where
  event: "process_cmd_event env skb s = (r, s') \<Longrightarrow> mlme_step (s, n, k) (s', n, k)"
| deliver_auth: "mlme_step ((p, a), n, k) ((esp_deliver_auth_from_skb (has_ndev a) skb p, a), n, k)"
| deliver_assoc: "mlme_step (s, n, k) (esp_deliver_assoc_from_skb b skb s, n, k)"
| deliver_disconnect: "mlme_step (s, n, k) (esp_deliver_disconnect_from_skb b skb s, n, k)"
| splice: "mlme_step ((p, a), n, k) ((snd (esp_auth_splice_guard a p), a), n, k)"
| mlme_worker: "mlme_step (s, n, k) (esp_mlme_work env s, n, k)"
| mlme_timeout: "mlme_step (s, n, k) (esp_mlme_timeout_work env s, n, k)"
| scan_timeout: "mlme_step (s, n, k) (esp_scan_timeout_work env s, n, k)"
| auth_begin: "auth_request_begin bssid seq p = Some p' \<Longrightarrow> mlme_step ((p, a), n, k) ((p', a), Suc n, k)"
| assoc_begin: "assoc_request_begin w bss bssid ie cp seq p = Some (r, p') \<Longrightarrow>
    mlme_step ((p, a), n, k) ((p', a), n, Suc k)"
| disconnect_begin: "mlme_step ((p, a), n, k) ((disconnect_request_begin mac seq p, a), n, k)"
| request_end: "mlme_step (s, n, k) (esp_mlme_end env op success s, n, k)"
| clear_auth: "mlme_step ((p, a), n, k) ((esp_wifi_clear_auth_pending p, a), n, k)"
| clear_assoc: "mlme_step ((p, a), n, k) ((esp_wifi_clear_assoc_pending p, a), n, k)"
| cancel: "mlme_step ((p, a), n, k) ((esp_mlme_cancel a p, a), n, k)"
| bss: "mlme_step ((p, a), n, k) ((esp_wifi_put_bss w p, a), n, k)"
| bss_taken: "mlme_step ((p, a), n, k) ((esp_wifi_take_assoc_bss w b p, a), n, k)"
| bss_referenced: "mlme_step ((p, a), n, k) ((esp_wifi_ref_bss w b p, a), n, k)"
| cleaned: "mlme_step (s, n, k) (esp_cfg_cleanup env s, n, k)"
| adapter: "mlme_step ((p, a), n, k) ((p, a'), n, k)"

inductive_cases mlme_stepE: "mlme_step x y"

inductive mlme_reachable :: "(wifi_priv \<times> 'c esp_adapter) \<times> nat \<times> nat \<Rightarrow> bool" where
  start: "auth_cmd_seq p = 0 \<Longrightarrow> assoc_cmd_seq p = 0 \<Longrightarrow> cfg_events p = [] \<Longrightarrow> staged_auth_q p = [] \<Longrightarrow>
    mlme_reachable ((p, a), 0, 0)"
| step: "mlme_reachable x \<Longrightarrow> mlme_step x y \<Longrightarrow> mlme_reachable y"

lemma put_bss_due [simp]: "due_le (esp_wifi_put_bss w p) p"
  by (auto simp: esp_wifi_put_bss_def due_defs Let_def split: option.splits)

lemma ref_bss_due [simp]: "due_le (esp_wifi_ref_bss w b p) p"
  by (auto simp: esp_wifi_ref_bss_def due_defs Let_def split: option.splits)

lemma take_bss_due [simp]: "due_le (esp_wifi_take_assoc_bss w b p) p"
  by (auto simp: esp_wifi_take_assoc_bss_def due_defs Let_def split: option.splits)

lemma clear_auth_due [simp]: "due_le (esp_wifi_clear_auth_pending p) p"
  by (simp add: esp_wifi_clear_auth_pending_def due_defs)

lemma clear_assoc_due [simp]: "due_le (esp_wifi_clear_assoc_pending p) p"
  by (simp add: esp_wifi_clear_assoc_pending_def due_defs)

lemma deauth_due [simp]: "due_le (process_deauth_event nd skb p) p"
  by (simp add: process_deauth_event_def due_defs)

lemma deliver_auth_due [simp]: "due_le (esp_deliver_auth_from_skb nd skb p) p"
  by (simp add: esp_deliver_auth_from_skb_def due_defs)

lemma deliver_assoc_due: "due_le (fst (esp_deliver_assoc_from_skb b skb s)) (fst s)"
  by (cases s) (simp add: esp_deliver_assoc_from_skb_def due_defs Let_def)

lemma clear_all_due: "due_le (esp_wifi_clear_auth_pending (esp_wifi_clear_assoc_pending (esp_wifi_put_bss w p))) p"
  by (rule due_trans [OF clear_auth_due due_trans [OF clear_assoc_due put_bss_due]])

lemma notify_due: "\<not> is_auth e \<Longrightarrow> \<not> is_assoc e \<Longrightarrow> due_le (cfg_notify e p) p"
  by (simp add: due_defs)

lemma deliver_disconnect_due: "due_le (fst (esp_deliver_disconnect_from_skb w skb s)) (fst s)"
proof (cases s)
  case (Pair p a)
  let ?p = "p\<lparr>local_disconnect_req := False, disconnect_awaiting_mlme := False, disconnect_cmd_seq := 0,
    staged_assoc_seq := 0, assoc_awaiting_mlme := False, assoc_cmd_seq := 0, conn_generation := 0,
    disconnect_bssid := no_bssid, staged_assoc_skb := None\<rparr>"
  have b: "due_le (esp_wifi_clear_auth_pending (esp_wifi_clear_assoc_pending (esp_wifi_put_bss w ?p))) p" (is "due_le ?q p")
    by (rule due_trans [OF clear_all_due]) (simp add: due_defs)
  have "due_le (cfg_notify (CFG_DISCONNECTED r l) ?q) p" "due_le (process_deauth_event nd skb ?q) p" for r l nd
    by (rule due_trans [OF _ b], simp add: notify_due)+
  then show ?thesis
    by (simp add: Pair esp_deliver_disconnect_from_skb_def Let_def split: option.split)
qed

lemma splice_due: "due_le (snd (esp_auth_splice_guard a p)) p"
  by (simp add: esp_auth_splice_guard_def due_defs)

lemma deliver_auths_due: "due_le (foldl (\<lambda>p skb. esp_deliver_auth_from_skb nd skb p) p skbs) p"
proof (induction skbs arbitrary: p)
  case (Cons skb skbs)
  then show ?case by (simp add: due_trans [OF Cons.IH deliver_auth_due])
qed simp

lemma flush_due: "due_le (fst (esp_mlme_flush_staged env s)) (fst s)"
proof (cases s)
  case (Pair p a)
  obtain aq p1 where g: "esp_auth_splice_guard a p = (aq, p1)" by fastforce
  define p2 where "p2 = p1\<lparr>staged_assoc_skb := None, staged_disconnect_skb := None\<rparr>"
  define p3 where "p3 = foldl (\<lambda>p skb. esp_deliver_auth_from_skb (has_ndev a) skb p) p2 aq"
  define s4 where "s4 = (case staged_assoc_skb p1 of
    Some skb \<Rightarrow> esp_deliver_assoc_from_skb (me_current_bss env) skb (p3, a) | None \<Rightarrow> (p3, a))"
  define s5 where "s5 = (case staged_disconnect_skb p1 of
    Some skb \<Rightarrow> esp_deliver_disconnect_from_skb (me_wiphy env) skb s4 | None \<Rightarrow> s4)"
  have "due_le p1 p" using splice_due [of a p] g by simp
  moreover have "due_le p2 p1" by (simp add: p2_def due_defs)
  moreover have "due_le p3 p2" unfolding p3_def by (rule deliver_auths_due)
  moreover have "due_le (fst s4) p3" using deliver_assoc_due by (fastforce simp: s4_def split: option.split)
  moreover have "due_le (fst s5) (fst s4)" by (simp add: s5_def deliver_disconnect_due split: option.split)
  ultimately have 5: "due_le (fst s5) p" by (meson due_trans)
  have "fst (esp_mlme_flush_staged env s) = (if \<not> mlme_awaiting (fst s5) then (fst s5)\<lparr>mlme_timeout_work := False\<rparr> else fst s5)"
    unfolding esp_mlme_flush_staged_def Pair Let_def prod.case g p2_def [symmetric] p3_def [symmetric] s4_def [symmetric]
      s5_def [symmetric] by (cases s5) simp
  moreover have "due_le ((fst s5)\<lparr>mlme_timeout_work := False\<rparr>) (fst s5)" by (simp add: due_defs)
  ultimately show ?thesis using 5 Pair by (auto intro: due_trans)
qed

lemma worker_due: "due_le (fst (esp_mlme_work env s)) (fst s)"
proof (cases s)
  case (Pair p a)
  have "due_le (p\<lparr>mlme_work := False\<rparr>) p" by (simp add: due_defs)
  then show ?thesis
    using due_trans [OF flush_due [of env "(p\<lparr>mlme_work := False\<rparr>, a)"]] by (simp add: esp_mlme_work_def Pair Let_def)
qed

lemma mark_scan_due [simp]: "due_le (esp_mark_scan_done b p) p"
  by (simp add: esp_mark_scan_done_def due_defs Let_def)

lemma timeout_due: "due_le (fst (esp_mlme_timeout_work env s)) (fst s)"
proof (cases s)
  case (Pair p a)
  define p1 where "p1 = p\<lparr>mlme_timeout_work := False\<rparr>"
  define p2 where "p2 = (if assoc_awaiting_mlme p
    then p1\<lparr>assoc_awaiting_mlme := False, assoc_cmd_pending := False, staged_assoc_seq := 0, assoc_cmd_seq := 0\<rparr> else p1)"
  define p3 where "p3 = (if disconnect_awaiting_mlme p
    then p2\<lparr>disconnect_awaiting_mlme := False, disconnect_cmd_pending := False, disconnect_cmd_seq := 0\<rparr> else p2)"
  define p4 where "p4 = (if auth_awaiting_mlme p
    then p3\<lparr>auth_awaiting_mlme := False, auth_cmd_pending := False, auth_cmd_seq := 0\<rparr> else p3)"
  define p5 where "p5 = (if assoc_awaiting_mlme p then esp_wifi_clear_assoc_pending p4 else p4)"
  define a5 where "a5 = (if assoc_awaiting_mlme p then cmd_restart (me_kenv env) (me_ops env) a else a)"
  define p6 where "p6 = esp_wifi_clear_auth_pending (esp_wifi_clear_assoc_pending (esp_wifi_put_bss (me_wiphy env) p5))"
  define p7 where "p7 = (if disconnect_awaiting_mlme p
    then if has_ndev (esp_port_close a5) then cfg_notify (CFG_DISCONNECTED 1 True) p6 else p6 else p5)"
  have "due_le p1 p" "due_le p2 p1" "due_le p3 p2" "due_le p4 p3" "due_le p5 p4"
    by (auto simp: p1_def p2_def p3_def p4_def p5_def due_defs esp_wifi_clear_assoc_pending_def)
  moreover have "due_le p6 p5" unfolding p6_def by (rule clear_all_due)
  moreover have "due_le p7 p5" using \<open>due_le p6 p5\<close> due_trans [OF notify_due [of "CFG_DISCONNECTED 1 True" p6]]
    by (auto simp: p7_def)
  ultimately have 7: "due_le p7 p" by (meson due_trans)
  have "fst (esp_mlme_timeout_work env s) = (if auth_awaiting_mlme p then esp_wifi_clear_auth_pending p7 else p7)"
    unfolding esp_mlme_timeout_work_def Pair p7_def p6_def p5_def a5_def p4_def p3_def p2_def p1_def Let_def by simp
  then show ?thesis using 7 Pair due_trans [OF clear_auth_due 7] by simp
qed

lemma scan_timeout_due: "due_le (fst (esp_scan_timeout_work env s)) (fst s)"
  by (cases s) (simp add: esp_scan_timeout_work_def esp_mark_scan_done_def due_defs Let_def)

lemma stage_due: "due_le (fst (esp_mlme_stage_event env skb code s)) (fst s)"
  by (cases s) (simp add: esp_mlme_stage_event_def due_defs)

lemma queue_work_due: "due_le (fst (queue_mlme_work b s)) (fst s)"
  by (cases s) (simp add: queue_mlme_work_def due_defs)

lemma staged_due: "due_le (fst (queue_mlme_work b (esp_mlme_stage_event env skb code s))) (fst s)"
  by (rule due_trans [OF queue_work_due stage_due])

lemma scan_result_due: "due_le (process_scan_result_event env skb p) p"
  by (simp add: process_scan_result_event_def esp_mark_scan_done_def due_defs Let_def)

lemma mgmt_status_due: "due_le (snd (process_mgmt_status_event nd skb p)) p"
  by (simp add: process_mgmt_status_event_def process_mgmt_tx_status_def due_defs Let_def)

lemma mgmt_rx_due: "due_le (process_ap_mgmt_rx nd skb p) p"
  by (simp add: process_ap_mgmt_rx_def due_defs Let_def)

lemma event_due: "due_le (fst (snd (process_cmd_event env skb s))) (fst s)"
proof (cases s)
  case (Pair p a)
  have "due_le (fst (process_auth_event env skb s)) p" "due_le (fst (process_assoc_event env skb s)) p"
    "due_le (fst (process_disconnect_event env skb s)) p"
    using staged_due [of _ env skb _ s]
    by (simp_all add: Pair process_auth_event_def process_assoc_event_def process_disconnect_event_def)
  then show ?thesis
    by (simp add: process_cmd_event_def Pair Let_def scan_result_due mgmt_rx_due mgmt_status_due split_beta)
qed

lemma mlme_end_due: "due_le (fst (esp_mlme_end env op ok s)) (fst s)"
proof (cases s)
  case (Pair p a)
  define p1 where "p1 = (if \<not> ok \<and> op = ESP_MLME_AUTH
    then p\<lparr>staged_auth_q := [], auth_cmd_pending := False, auth_awaiting_mlme := False, auth_cmd_seq := 0,
      auth_bssid := no_bssid\<rparr> else p)"
  define p2 where "p2 = (if \<not> ok \<and> op = ESP_MLME_ASSOC
    then p1\<lparr>staged_assoc_skb := None, staged_assoc_seq := 0, assoc_awaiting_mlme := False,
      assoc_mlme_notified := False\<rparr> else p1)"
  obtain p3 a3 where f: "esp_mlme_flush_staged env (p2, a) = (p3, a3)" by fastforce
  have "due_le p1 p" "due_le p2 p1" by (simp_all add: p1_def p2_def due_defs)
  moreover have "due_le p3 p2" using flush_due [of env "(p2, a)"] by (simp add: f)
  ultimately have 3: "due_le p3 p" by (meson due_trans)
  have "due_le (fst (esp_mlme_end env op ok s)) p3"
    unfolding esp_mlme_end_def Pair Let_def prod.case p1_def [symmetric] p2_def [symmetric] f
    by (cases op) (simp_all add: due_defs)
  with 3 Pair show ?thesis by (auto intro: due_trans)
qed

lemma cancel_due: "due_le (esp_mlme_cancel a p) p"
proof -
  define p1 where "p1 = p\<lparr>mlme_timeout_work := False, scan_timeout_work := False, mlme_work := False\<rparr>"
  define p2 where "p2 = snd (esp_auth_splice_guard a p1)"
  define p3 where "p3 = p2\<lparr>staged_assoc_skb := None, staged_assoc_seq := 0, staged_disconnect_skb := None,
    assoc_awaiting_mlme := False, auth_awaiting_mlme := False, disconnect_awaiting_mlme := False,
    mlme_wdev_held := False, auth_cmd_pending := False, disconnect_cmd_pending := False, conn_generation := 0,
    local_disconnect_req := False, disconnect_cmd_seq := 0, disconnect_bssid := no_bssid\<rparr>"
  define p4 where "p4 = esp_wifi_clear_auth_pending (esp_wifi_clear_assoc_pending p3)"
  have "due_le p1 p" "due_le p3 p2" by (simp_all add: p1_def p3_def due_defs)
  moreover have "due_le p2 p1" by (simp add: p2_def splice_due)
  moreover have "due_le p4 p3" unfolding p4_def by (rule due_trans [OF clear_auth_due clear_assoc_due])
  ultimately have 4: "due_le p4 p" by (meson due_trans)
  have "esp_mlme_cancel a p = (if scan_in_progress p4 \<or> scan_request p4 then esp_mark_scan_done True p4 else p4)"
    by (simp add: esp_mlme_cancel_def p4_def p3_def p2_def p1_def Let_def)
  then show ?thesis using 4 due_trans [OF mark_scan_due 4] by simp
qed

lemma cleanup_due: "due_le (fst (esp_cfg_cleanup env s)) (fst s)"
proof (cases s)
  case (Pair p a)
  have "due_le (esp_wifi_put_bss w (esp_mark_scan_done True p)) p" for w
    by (rule due_trans [OF put_bss_due mark_scan_due])
  then show ?thesis
    by (auto simp: Pair esp_cfg_cleanup_def esp_mark_scan_done_and_disconnect_def esp_mark_disconnect_def
        intro: due_trans [OF notify_due])
qed

lemma mlme_step_due:
  assumes "mlme_step ((p, a), n, k) ((p', a'), n', k')"
  shows "auth_due p' + n \<le> auth_due p + n' \<and> assoc_due p' + k \<le> assoc_due p + k' \<and>
    (length (staged_auth_q p) \<le> 8 \<longrightarrow> length (staged_auth_q p') \<le> 8)"
proof -
  have same: ?thesis if "due_le p' p" "n' = n" "k' = k" using that by (simp add: due_le_def)
  show ?thesis
    using assms
  proof (cases rule: mlme_step.cases)
    case (event env skb r)
    then show ?thesis using event_due [of env skb "(p, a)"] same by simp
  next
    case (deliver_assoc b skb)
    then show ?thesis using deliver_assoc_due [of b skb "(p, a)"] same by (metis fst_conv)
  next
    case (deliver_disconnect b skb)
    then show ?thesis using deliver_disconnect_due [of b skb "(p, a)"] same by (metis fst_conv)
  next
    case (mlme_worker env)
    then show ?thesis using worker_due [of env "(p, a)"] same by (metis fst_conv)
  next
    case (mlme_timeout env)
    then show ?thesis using timeout_due [of env "(p, a)"] same by (metis fst_conv)
  next
    case (scan_timeout env)
    then show ?thesis using scan_timeout_due [of env "(p, a)"] same by (metis fst_conv)
  next
    case (request_end env op ok)
    then show ?thesis using mlme_end_due [of env op ok "(p, a)"] same by (metis fst_conv)
  next
    case (cleaned env)
    then show ?thesis using cleanup_due [of env "(p, a)"] same by (metis fst_conv)
  next
    case (auth_begin bssid seq)
    then show ?thesis
      by (auto simp: auth_request_begin_def esp_mlme_begin_def Let_def auth_due_def assoc_due_def split: if_splits)
  next
    case (assoc_begin w bss bssid ie cp seq r)
    then show ?thesis
      by (auto simp: assoc_request_begin_def esp_mlme_begin_def esp_wifi_ref_bss_def cfg_notify_def Let_def auth_due_def
          assoc_due_def split: if_splits)
  next
    case (disconnect_begin mac seq)
    then show ?thesis by (intro same) (simp_all add: disconnect_request_begin_def esp_mlme_begin_def due_defs Let_def)
  qed (rule same; simp add: splice_due cancel_due)+
qed

lemma mlme_reachable_due:
  assumes "mlme_reachable x"
  shows "case x of ((p, a), n, k) \<Rightarrow> auth_due p \<le> n \<and> assoc_due p \<le> k \<and> length (staged_auth_q p) \<le> 8"
  using assms
proof induction
  case (step x y)
  obtain p a n k p' a' n' k' where xy: "x = ((p, a), n, k)" "y = ((p', a'), n', k')" by (metis prod.exhaust)
  from step.IH mlme_step_due [OF step.hyps(2) [unfolded xy]] show ?case by (simp add: xy)
qed (simp add: auth_due_def assoc_due_def)

section \<open>Events during a command\<close>

text \<open>Whether an authentication or association event answers the open command.\<close>

definition auth_answer :: "bytes \<Rightarrow> wifi_priv \<Rightarrow> bool" where
  "auth_answer skb p \<longleftrightarrow> auth_event_ok skb \<and> auth_cmd_seq p \<noteq> 0 \<and> auth_event_seq skb = auth_cmd_seq p \<and>
     event_bssid skb = auth_bssid p"

definition assoc_answer :: "bytes \<Rightarrow> wifi_priv \<Rightarrow> bool" where
  "assoc_answer skb p \<longleftrightarrow> assoc_event_ok skb \<and> assoc_cmd_seq p \<noteq> 0 \<and> assoc_event_seq skb = assoc_cmd_seq p \<and>
     event_bssid skb = assoc_bssid p"

lemma stage_quiet: "cfg_events (fst (queue_mlme_work b (esp_mlme_stage_event env skb code (p, a)))) = cfg_events p"
  by (simp add: queue_mlme_work_def esp_mlme_stage_event_def)

lemma events_quiet:
  "cfg_events (fst (process_auth_event env skb (p, a))) = cfg_events p"
  "cfg_events (fst (process_assoc_event env skb (p, a))) = cfg_events p"
  "cfg_events (fst (process_disconnect_event env skb (p, a))) = cfg_events p"
  by (simp_all add: process_auth_event_def process_assoc_event_def process_disconnect_event_def stage_quiet)

text \<open>An MLME event is never reported by the event handler itself, and one that answers nothing
  changes nothing.\<close>

lemma mlme_event_effect:
  assumes "skb ! 0 \<in> {EVENT_AUTH_RX, EVENT_ASSOC_RX, EVENT_STA_DISCONNECT}"
    and e: "process_cmd_event env skb (p, a) = (r, p', a')"
  shows "cfg_events p' = cfg_events p"
    and "(p', a') = (p, a) \<or> skb ! 0 = EVENT_AUTH_RX \<and> auth_answer skb p \<or> skb ! 0 = EVENT_ASSOC_RX \<and> assoc_answer skb p \<or>
      skb ! 0 = EVENT_STA_DISCONNECT \<and> 46 \<le> length skb \<and> disconnect_match (disconnect_event_seq skb) p \<noteq> None"
proof -
  consider "(p', a') = (p, a)" | "skb ! 0 = EVENT_AUTH_RX" "process_auth_event env skb (p, a) = (p', a')"
    | "skb ! 0 = EVENT_ASSOC_RX" "process_assoc_event env skb (p, a) = (p', a')"
    | "skb ! 0 = EVENT_STA_DISCONNECT" "process_disconnect_event env skb (p, a) = (p', a')"
    using assms by (cases "length skb < 4") (auto simp: process_cmd_event_def Let_def)
  note c = this
  show "cfg_events p' = cfg_events p"
    using c
  proof cases
    case 2 then show ?thesis using events_quiet(1) [of env skb p a] by simp
  next
    case 3 then show ?thesis using events_quiet(2) [of env skb p a] by simp
  next
    case 4 then show ?thesis using events_quiet(3) [of env skb p a] by simp
  qed simp
  show "(p', a') = (p, a) \<or> skb ! 0 = EVENT_AUTH_RX \<and> auth_answer skb p \<or> skb ! 0 = EVENT_ASSOC_RX \<and> assoc_answer skb p \<or>
      skb ! 0 = EVENT_STA_DISCONNECT \<and> 46 \<le> length skb \<and> disconnect_match (disconnect_event_seq skb) p \<noteq> None"
    using c
  proof cases
    case 2 then show ?thesis by (auto simp: process_auth_event_def auth_answer_def split: if_splits)
  next
    case 3 then show ?thesis by (auto simp: process_assoc_event_def assoc_answer_def split: if_splits)
  next
    case 4 then show ?thesis by (auto simp: process_disconnect_event_def split: if_splits)
  qed simp
qed

text \<open>The answer to a command that arrives before the command returns: it waits until the result is
  known, then it is reported once, or never when the command failed.\<close>

lemma auth_during_command:
  assumes p: "auth_cmd_pending p" "auth_answer skb p" "staged_auth_q p = []" "staged_assoc_skb p = None"
      "staged_disconnect_skb p = None"
    and a: "has_ndev a" "events_wq a" "\<not> test_bit ESP_CLEANUP_IN_PROGRESS a" "\<not> test_bit ESP_DRIVER_UNLOADING a"
    and env: "me_copy env"
    and s: "process_auth_event env skb (p, a) = s1" "esp_mlme_end env ESP_MLME_AUTH ok s1 = s2" "esp_mlme_work env s2 = s3"
  shows "cfg_events (fst s2) = cfg_events p"
    and "cfg_events (fst s3) = cfg_events p @ (if ok then [CFG_RX_AUTH (auth_event_frame skb)] else [])"
    and "auth_cmd_seq (fst s3) = 0"
proof -
  have b: "esp_mlme_busy p" using p by (simp add: esp_mlme_busy_def)
  have 1: "s1 = (p\<lparr>staged_auth_q := [skb]\<rparr>, a)"
    using p a env b s(1) by (auto simp: process_auth_event_def auth_answer_def queue_mlme_work_def esp_mlme_stage_event_def)
  have 2: "s2 = esp_mlme_end env ESP_MLME_AUTH ok (p\<lparr>staged_auth_q := [skb]\<rparr>, a)" using s(2) 1 by simp
  note d = esp_mlme_end_def esp_mlme_flush_staged_def esp_auth_splice_guard_def mlme_awaiting_def esp_mlme_has_staged_def
    Let_def
  show "cfg_events (fst s2) = cfg_events p" using p a unfolding 2 by (cases ok) (simp_all add: d)
  have 3: "s3 = esp_mlme_work env (esp_mlme_end env ESP_MLME_AUTH ok (p\<lparr>staged_auth_q := [skb]\<rparr>, a))" using s(3) 2 by simp
  show "cfg_events (fst s3) = cfg_events p @ (if ok then [CFG_RX_AUTH (auth_event_frame skb)] else [])"
    and "auth_cmd_seq (fst s3) = 0"
    using p a unfolding 3
    by (cases ok; simp add: d esp_mlme_work_def esp_deliver_auth_from_skb_def auth_answer_def cfg_notify_def)+
qed

end
