(* ===== verification/Host_Request.thy ===== *)
theory Host_Request
  imports Host_Mlme
begin

text \<open>
  The requests of the host (\<^verbatim>\<open>adapter.h\<close>, \<^verbatim>\<open>host/esp_cmd.c\<close>): for every command its code, the size of its
  structure with the data behind it, and the fields the command function writes, as pairs
  of an offset behind the payload header and the bytes. The request buffer is zeroed before.
  Shown: for arguments within the bounds the command functions check, every write lies in the
  request, so the request has exactly the announced length.
\<close>

abbreviation (input) MAX_SSID_LEN :: nat where "MAX_SSID_LEN \<equiv> 32"
abbreviation (input) OTA_CHUNK_SIZE :: nat where "OTA_CHUNK_SIZE \<equiv> 1016"
abbreviation (input) MAX_KEY_LEN :: nat where "MAX_KEY_LEN \<equiv> 32"
abbreviation (input) MAX_SEQ_LEN :: nat where "MAX_SEQ_LEN \<equiv> 10"
abbreviation (input) WIFI_WPA_ALG_TKIP :: u32 where "WIFI_WPA_ALG_TKIP \<equiv> 2"

section \<open>Ciphers\<close>

definition wpa_cipher_to_alg :: "u32 \<Rightarrow> u32" where
  "wpa_cipher_to_alg c =
     (if c = 0x000FAC04 then 3
      else if c = 0x000FAC09 \<or> c = 0x000FAC08 then 9
      else if c = 0x000FAC02 then 2
      else if c = 0x000FAC05 then 5
      else if c = 0x000FAC01 then 1
      else if c = 0x000FAC06 \<or> c = 0x000FAC0B \<or> c = 0x000FAC0C then 7
      else 0)"

section \<open>Requests\<close>

text \<open>Station parameters of \<open>cmd_add_station\<close>; an absent capability is the empty list.\<close>

record sta_param =
  sp_mac :: bytes
  sp_changed :: bool
  sp_flags_mask :: u32
  sp_flags_set :: u32
  sp_modify_mask :: u32
  sp_listen_interval :: u32
  sp_aid :: u16
  sp_ext_capab :: bytes
  sp_rates :: bytes
  sp_ht :: "bytes option"
  sp_vht :: "bytes option"
  sp_he :: bytes

datatype host_request =
    RqMcast u8 bytes
  | RqIp bytes
  | RqDisconnect u8 u16 "bytes option"
  | RqAssoc bytes bool bool
  | RqSetAuthorized bytes bool
  | RqAuth bytes u8 u8 bytes bytes bytes
  | RqMgmtTx u8 bool u32 bool bool u64 bytes
  | RqSetDefaultKey u8
  | RqDelKey u8 "bytes option"
  | RqAddKey u8 "bytes option" bytes bytes u32
  | RqSetTime u64 u64
  | RqInit
  | RqDeinit
  | RqMonitor bool u8
  | RqScan "bytes option" u16 bytes u8
  | RqOtaStart
  | RqOtaWrite bytes
  | RqOtaEnd
  | RqRawTp u8 u32
  | RqRssi
  | RqGetMac
  | RqSetMac bytes
  | RqSetMode u8
  | RqSetIe u8 bytes
  | RqApConfig bytes
  | RqSetRadio u8
  | RqGetRadio
  | RqWow bool bool bool bool bool
  | RqSetTxPower u32
  | RqStation sta_param
  | RqGetTxPower
  | RqGetReg
  | RqSetReg u8 u8

fun rq_code :: "host_request \<Rightarrow> u8" where
  "rq_code (RqMcast _ _) = CMD_SET_MCAST_MAC_ADDR"
| "rq_code (RqIp _) = CMD_SET_IP_ADDR"
| "rq_code (RqDisconnect _ _ _) = CMD_DISCONNECT"
| "rq_code (RqAssoc _ _ _) = CMD_STA_ASSOC"
| "rq_code (RqSetAuthorized _ _) = CMD_STA_SET_AUTHORIZED"
| "rq_code (RqAuth _ _ _ _ _ _) = CMD_STA_AUTH"
| "rq_code (RqMgmtTx _ _ _ _ _ _ _) = CMD_MGMT_TX"
| "rq_code (RqSetDefaultKey _) = CMD_SET_DEFAULT_KEY"
| "rq_code (RqDelKey _ _) = CMD_DEL_KEY"
| "rq_code (RqAddKey _ _ _ _ _) = CMD_ADD_KEY"
| "rq_code (RqSetTime _ _) = CMD_SET_TIME"
| "rq_code RqInit = CMD_INIT_INTERFACE"
| "rq_code RqDeinit = CMD_DEINIT_INTERFACE"
| "rq_code (RqMonitor _ _) = CMD_MONITOR_CONFIG"
| "rq_code (RqScan _ _ _ _) = CMD_SCAN_REQUEST"
| "rq_code RqOtaStart = CMD_START_OTA_UPDATE"
| "rq_code (RqOtaWrite _) = CMD_START_OTA_WRITE"
| "rq_code RqOtaEnd = CMD_START_OTA_END"
| "rq_code (RqRawTp code _) = code"
| "rq_code RqRssi = CMD_STA_RSSI"
| "rq_code RqGetMac = CMD_GET_MAC"
| "rq_code (RqSetMac _) = CMD_SET_MAC"
| "rq_code (RqSetMode _) = CMD_SET_MODE"
| "rq_code (RqSetIe _ _) = CMD_SET_IE"
| "rq_code (RqApConfig _) = CMD_AP_CONFIG"
| "rq_code (RqSetRadio _) = CMD_SET_RADIO_SERVICE"
| "rq_code RqGetRadio = CMD_GET_RADIO_SERVICE"
| "rq_code (RqWow _ _ _ _ _) = CMD_SET_WOW_CONFIG"
| "rq_code (RqSetTxPower _) = CMD_SET_TXPOWER"
| "rq_code (RqStation _) = CMD_AP_STATION"
| "rq_code RqGetTxPower = CMD_GET_TXPOWER"
| "rq_code RqGetReg = CMD_GET_REG_DOMAIN"
| "rq_code (RqSetReg _ _) = CMD_SET_REG_DOMAIN"

text \<open>The size of the request: the packed structure and the data behind it.\<close>

fun rq_len :: "host_request \<Rightarrow> nat" where
  "rq_len (RqMcast _ _) = 57"
| "rq_len (RqIp _) = 12"
| "rq_len (RqDisconnect _ _ _) = 16"
| "rq_len (RqAssoc ie _ _) = 12 + length ie"
| "rq_len (RqSetAuthorized _ _) = 16"
| "rq_len (RqAuth _ _ _ _ _ d) = 80 + length d"
| "rq_len (RqMgmtTx _ _ _ _ _ _ buf) = 28 + length buf"
| "rq_len (RqSetDefaultKey _) = 76"
| "rq_len (RqDelKey _ _) = 76"
| "rq_len (RqAddKey _ _ _ _ _) = 76"
| "rq_len (RqSetTime _ _) = 24"
| "rq_len RqInit = 8"
| "rq_len RqDeinit = 8"
| "rq_len (RqMonitor _ _) = 12"
| "rq_len (RqScan _ _ _ _) = 52"
| "rq_len RqOtaStart = 8"
| "rq_len (RqOtaWrite d) = 10 + length d"
| "rq_len RqOtaEnd = 8"
| "rq_len (RqRawTp _ _) = 12"
| "rq_len RqRssi = 12"
| "rq_len RqGetMac = 8"
| "rq_len (RqSetMac _) = 16"
| "rq_len (RqSetMode _) = 12"
| "rq_len (RqSetIe _ ie) = 12 + length ie"
| "rq_len (RqApConfig _) = 53"
| "rq_len (RqSetRadio _) = 20"
| "rq_len RqGetRadio = 8"
| "rq_len (RqWow _ _ _ _ _) = 13"
| "rq_len (RqSetTxPower _) = 12"
| "rq_len (RqStation _) = 124"
| "rq_len RqGetTxPower = 12"
| "rq_len RqGetReg = 12"
| "rq_len (RqSetReg _ _) = 12"

definition le2 :: "u16 \<Rightarrow> bytes" where "le2 = le_bytes 2"
definition le4 :: "u32 \<Rightarrow> bytes" where "le4 = le_bytes 4"
definition le8 :: "u64 \<Rightarrow> bytes" where "le8 = le_bytes 8"
definition bool_byte :: "bool \<Rightarrow> u8" where "bool_byte b = (if b then 1 else 0)"

text \<open>The key field with its zero padding; for TKIP the two MIC keys are exchanged.\<close>

definition key_data :: "u32 \<Rightarrow> bytes \<Rightarrow> bytes" where
  "key_data algo key =
     (let d = key @ replicate (MAX_KEY_LEN - length key) 0
      in if algo = WIFI_WPA_ALG_TKIP then take 16 d @ drop 24 d @ take 8 (drop 16 d) else d)"

definition opt_bytes :: "nat \<Rightarrow> bytes option \<Rightarrow> (nat \<times> bytes) list" where
  "opt_bytes off x = (case x of Some bs \<Rightarrow> [(off, bs)] | None \<Rightarrow> [])"

definition station_writes :: "sta_param \<Rightarrow> (nat \<times> bytes) list" where
  "station_writes s =
     [(8, sp_mac s), (14, le2 (if sp_changed s then 1 else 0)), (16, le4 (sp_flags_mask s)), (20, le4 (sp_flags_set s)),
      (24, le4 (sp_modify_mask s)), (28, le4 (sp_listen_interval s)), (32, le2 (sp_aid s)), (34, take 4 (sp_ext_capab s))] @
     (let n = min (length (sp_rates s)) 10
      in if sp_rates s = [] then [] else [(40, [1, of_nat n]), (42, take n (sp_rates s))]) @
     (case sp_ht s of None \<Rightarrow> [] | Some h \<Rightarrow> [(52, [45, 26]), (54, take 26 h)]) @
     (case sp_vht s of None \<Rightarrow> [] | Some v \<Rightarrow> [(80, [191, 12]), (82, take 12 v)]) @
     (let n = min (length (sp_he s)) 24
      in if sp_he s = [] then [] else [(96, [255, of_nat n + 1, 35]), (99, take n (sp_he s))])"

fun rq_writes :: "host_request \<Rightarrow> (nat \<times> bytes) list" where
  "rq_writes (RqMcast n addrs) = [(8, [n]), (9, addrs)]"
| "rq_writes (RqIp ip) = [(8, ip)]"
| "rq_writes (RqDisconnect subtype reason mac) = [(6, [subtype]), (8, le2 reason)] @ opt_bytes 10 mac"
| "rq_writes (RqAssoc ie reassoc cp) = [(8, [of_nat (length ie), bool_byte reassoc, bool_byte cp, 0]), (12, ie)]"
| "rq_writes (RqSetAuthorized bssid auth) = [(8, bssid), (14, [bool_byte auth])]"
| "rq_writes (RqAuth bssid channel auth_type ssid key d) =
     [(15, [auth_type]), (16, ssid), (8, bssid), (14, [channel]), (77, [of_nat (length d)]), (80, d)] @
     (if key = [] then [] else [(50, key), (49, [of_nat (length key)])])"
| "rq_writes (RqMgmtTx channel offchan wait no_cck dont_wait tx_id buf) =
     [(6, [HOSTED_MGMT_TX_ASYNC_STATUS_V1]), (8, [channel]), (24, le4 (of_nat (length buf))), (9, [bool_byte offchan]),
      (10, le4 wait), (14, [bool_byte no_cck]), (15, [bool_byte dont_wait]), (16, le8 tx_id), (28, buf)]"
| "rq_writes (RqSetDefaultKey i) = [(12, le4 (ucast i)), (73, [1])]"
| "rq_writes (RqDelKey i mac) = opt_bytes 52 mac @ [(12, le4 (ucast i)), (72, [1])]"
| "rq_writes (RqAddKey i mac key seq algo) =
     opt_bytes 52 mac @ [(12, le4 (ucast i)), (48, le4 (of_nat (length key))), (16, key_data algo key),
       (68, le4 (of_nat (length seq))), (58, seq), (8, le4 algo)]"
| "rq_writes (RqSetTime sec usec) = [(8, le8 sec), (16, le8 usec)]"
| "rq_writes (RqMonitor enable channel) = [(8, [bool_byte enable, channel, 0, 0])]"
| "rq_writes (RqScan ssid duration bssid channel) =
     opt_bytes 16 ssid @ [(14, le2 duration), (8, bssid), (49, [channel])]"
| "rq_writes (RqOtaWrite d) = [(8, le2 (of_nat (length d))), (10, d)]"
| "rq_writes (RqRawTp _ run_id) = [(8, le4 run_id)]"
| "rq_writes (RqSetMac mac) = [(8, mac)]"
| "rq_writes (RqSetMode mode) = [(8, le2 (ucast mode))]"
| "rq_writes (RqSetIe ty ie) = [(8, [ty]), (10, le2 (of_nat (length ie))), (12, ie)]"
| "rq_writes (RqApConfig cfg) = [(8, cfg)]"
| "rq_writes (RqSetRadio service) = [(8, [service])]"
| "rq_writes (RqWow anyp disc magic fourway eap) = [(8, [bool_byte anyp, bool_byte disc, bool_byte magic, bool_byte fourway, bool_byte eap])]"
| "rq_writes (RqSetTxPower pw) = [(8, le4 pw)]"
| "rq_writes (RqStation s) = station_writes s"
| "rq_writes (RqSetReg c0 c1) = [(8, [c0, c1, 0, 0])]"
| "rq_writes _ = []"

text \<open>What the command functions guarantee of the arguments: the fixed arrays have their sizes, and the
  checked lengths are in their bounds.\<close>

definition opt_len :: "nat \<Rightarrow> bytes option \<Rightarrow> bool" where
  "opt_len n x = (case x of Some bs \<Rightarrow> length bs = n | None \<Rightarrow> True)"

fun rq_valid :: "host_request \<Rightarrow> bool" where
  "rq_valid (RqMcast _ addrs) = (length addrs = 48)"
| "rq_valid (RqIp ip) = (length ip = 4)"
| "rq_valid (RqDisconnect _ _ mac) = opt_len MAC_ADDR_LEN mac"
| "rq_valid (RqAssoc ie _ _) = (length ie \<le> 255)"
| "rq_valid (RqSetAuthorized bssid _) = (length bssid = MAC_ADDR_LEN)"
| "rq_valid (RqAuth bssid _ _ ssid key d) =
     (length bssid = MAC_ADDR_LEN \<and> length ssid \<le> MAX_SSID_LEN \<and> length key \<le> 27 \<and> length d \<le> 255)"
| "rq_valid (RqMgmtTx _ _ _ _ _ _ buf) = (28 + length buf < 2 ^ 16)"
| "rq_valid (RqDelKey _ mac) = opt_len MAC_ADDR_LEN mac"
| "rq_valid (RqAddKey _ mac key seq _) =
     (opt_len MAC_ADDR_LEN mac \<and> length key \<le> MAX_KEY_LEN \<and> length seq \<le> MAX_SEQ_LEN)"
| "rq_valid (RqScan ssid _ bssid _) = (opt_len MAX_SSID_LEN ssid \<and> length bssid = MAC_ADDR_LEN)"
| "rq_valid (RqOtaWrite d) = (length d \<le> OTA_CHUNK_SIZE)"
| "rq_valid (RqRawTp code _) = (code \<in> {CMD_RAW_TP_ESP_TO_HOST, CMD_RAW_TP_HOST_TO_ESP, CMD_RAW_TP_BIDIRECTIONAL})"
| "rq_valid (RqSetMac mac) = (length mac = MAC_ADDR_LEN)"
| "rq_valid (RqSetIe _ ie) = (length ie < 2 ^ 16)"
| "rq_valid (RqApConfig cfg) = (length cfg = 45)"
| "rq_valid (RqStation s) = (length (sp_mac s) = MAC_ADDR_LEN)"
| "rq_valid _ = True"

section \<open>Writes lie in the request\<close>

text \<open>A write behind the end makes the buffer longer, so an overrun is seen in the length.\<close>

definition put_at :: "nat \<Rightarrow> bytes \<Rightarrow> bytes \<Rightarrow> bytes" where
  "put_at off bs xs = take off xs @ bs @ drop (off + length bs) xs"

definition put_all :: "(nat \<times> bytes) list \<Rightarrow> bytes \<Rightarrow> bytes" where
  "put_all ws xs = foldl (\<lambda>xs (off, bs). put_at (HDR_SIZE + off) bs xs) xs ws"

lemma put_at_length [simp]: "off + length bs \<le> length xs \<Longrightarrow> length (put_at off bs xs) = length xs"
  by (simp add: put_at_def)

definition fits :: "nat \<Rightarrow> (nat \<times> bytes) list \<Rightarrow> bool" where
  "fits n ws \<longleftrightarrow> list_all (\<lambda>(off, bs). 6 \<le> off \<and> off + length bs \<le> n) ws"

lemma fits_simps [simp]:
  "fits n []" "fits n ((off, bs) # ws) \<longleftrightarrow> 6 \<le> off \<and> off + length bs \<le> n \<and> fits n ws"
  "fits n (vs @ ws) \<longleftrightarrow> fits n vs \<and> fits n ws"
  by (auto simp: fits_def)

lemma put_all_length: "fits n ws \<Longrightarrow> length xs = HDR_SIZE + n \<Longrightarrow> length (put_all ws xs) = length xs"
proof (induction ws arbitrary: xs)
  case (Cons w ws)
  obtain off bs where w: "w = (off, bs)" by fastforce
  with Cons.prems have "length (put_at (HDR_SIZE + off) bs xs) = length xs" by simp
  with Cons.IH [of "put_at (HDR_SIZE + off) bs xs"] Cons.prems w show ?case by (simp add: put_all_def)
qed (simp add: put_all_def)

text \<open>The payload header and the command header up to the sequence number stay as they are.\<close>

lemma put_all_prefix: "fits n ws \<Longrightarrow> length xs = HDR_SIZE + n \<Longrightarrow> take (HDR_SIZE + 6) (put_all ws xs) = take (HDR_SIZE + 6) xs"
proof (induction ws arbitrary: xs)
  case (Cons w ws)
  obtain off bs where w: "w = (off, bs)" by fastforce
  let ?x = "put_at (HDR_SIZE + off) bs xs"
  from Cons.prems w have l: "length ?x = length xs" "6 \<le> off" "off + length bs \<le> n" by simp_all
  have "take (HDR_SIZE + 6) ?x = take (HDR_SIZE + 6) xs" using l Cons.prems by (simp add: put_at_def min_def)
  moreover have "take (HDR_SIZE + 6) (put_all ws ?x) = take (HDR_SIZE + 6) ?x"
    using Cons.IH [of ?x] Cons.prems w l by simp
  ultimately show ?case by (simp add: put_all_def w)
qed (simp add: put_all_def)

lemma field_lengths [simp]:
  "length (le2 x) = 2" "length (le4 y) = 4" "length (le8 z) = 8"
  by (simp_all add: le2_def le4_def le8_def)

lemma opt_bytes_fits: "opt_len k x \<Longrightarrow> 6 \<le> off \<Longrightarrow> off + k \<le> n \<Longrightarrow> fits n (opt_bytes off x)"
  by (auto simp: opt_len_def opt_bytes_def split: option.splits)

lemma key_data_length [simp]: "length key \<le> MAX_KEY_LEN \<Longrightarrow> length (key_data algo key) = 32"
  by (auto simp: key_data_def Let_def)

lemma station_fits: "length (sp_mac s) = 6 \<Longrightarrow> fits 124 (station_writes s)"
  by (auto simp: station_writes_def Let_def min_def split: option.splits)

lemma request_fits: "rq_valid r \<Longrightarrow> fits (rq_len r) (rq_writes r)"
  by (cases r rule: rq_writes.cases) (auto simp: station_fits intro: opt_bytes_fits)

end
