(* ===== verification/Host_Cmd_Api.thy ===== *)
theory Host_Cmd_Api
  imports Host_Request
begin

text \<open>
  The command functions of the host (\<^verbatim>\<open>host/esp_cmd.c\<close>): checks, request, queueing, wait and what is done with
  the result. The interface is the adapter's first one. While a function waits, the worker, the
  receiver and other callers run; what they do is the function \<open>ce_meanwhile\<close> of the environment.
  Shown: each function submits nothing or exactly one well-formed request, and gives its node back.
\<close>

section \<open>One command\<close>

record 'c api_env =
  ae_cmd :: "'c cmd_env"
  ae_mlme :: "'c mlme_env"
  ae_kmemdup :: bool

type_synonym 'c host_state = "wifi_priv \<times> 'c esp_adapter \<times> cmd_queue"

definition cmd_write :: "nat \<Rightarrow> (nat \<times> bytes) list \<Rightarrow> cmd_queue \<Rightarrow> cmd_queue" where
  "cmd_write i ws q = upd_node i (\<lambda>n. n\<lparr>cmd_skb := map_option (put_all ws) (cmd_skb n)\<rparr>) q"

text \<open>Queueing node \<open>i\<close>, the wait, and the decoding of the response.\<close>

definition cmd_exchange :: "'c cmd_env \<Rightarrow> bool \<Rightarrow> nat \<Rightarrow> 'c host_state \<Rightarrow> int \<times> 'c host_state" where
  "cmd_exchange env high i s =
     (let (p, a, q) = s;
          (p, a, q) = ce_meanwhile env (p, a, snd (queue_cmd_node (ce_kenv env) high i a q))
      in wait_and_decode_cmd_resp (ce_kenv env) (ce_ops env) (ce_woken env) i p a q)"

text \<open>The pattern of most command functions.\<close>

definition run_command :: "'c cmd_env \<Rightarrow> bool \<Rightarrow> host_request \<Rightarrow> 'c host_state \<Rightarrow> int \<times> 'c host_state" where
  "run_command env high r s =
     (let (p, a, q) = s
      in case prepare_command_request env a (rq_code r) (rq_len r) q of
           (Inl e, q) \<Rightarrow> (e, p, a, q)
         | (Inr i, q) \<Rightarrow> cmd_exchange env high i (p, a, cmd_write i (rq_writes r) q))"

definition in_cleanup :: "'c host_state \<Rightarrow> bool" where
  "in_cleanup s = test_bit ESP_CLEANUP_IN_PROGRESS (fst (snd s))"

definition iface_is :: "u4 \<Rightarrow> 'c host_state \<Rightarrow> bool" where
  "iface_is t s = (case priv0 (fst (snd s)) of None \<Rightarrow> False | Some w \<Rightarrow> wd_if_type w = t)"

definition is_multicast_ether_addr :: "bytes \<Rightarrow> bool" where
  "is_multicast_ether_addr mac = odd (mac ! 0)"

section \<open>Simple commands\<close>

definition cmd_set_mcast_mac_list :: "'c api_env \<Rightarrow> u8 \<Rightarrow> bytes \<Rightarrow> 'c host_state \<Rightarrow> int \<times> 'c host_state" where
  "cmd_set_mcast_mac_list env n addrs s =
     (if in_cleanup s then (0, s) else run_command (ae_cmd env) False (RqMcast n addrs) s)"

definition cmd_set_ip_address :: "'c api_env \<Rightarrow> bytes \<Rightarrow> 'c host_state \<Rightarrow> int \<times> 'c host_state" where
  "cmd_set_ip_address env ip s = (if in_cleanup s then (0, s) else run_command (ae_cmd env) False (RqIp ip) s)"

definition cmd_sta_set_authorized :: "'c api_env \<Rightarrow> bytes \<Rightarrow> bool \<Rightarrow> 'c host_state \<Rightarrow> int \<times> 'c host_state" where
  "cmd_sta_set_authorized env bssid authorized s =
     (if \<not> iface_is ESP_STA_IF s then (- EINVAL, s)
      else if in_cleanup s then (- ESHUTDOWN, s)
      else let (ret, p, a, q) = run_command (ae_cmd env) False (RqSetAuthorized bssid authorized) s
           in if ret \<noteq> 0 then (ret, p, a, q)
              else (0, p, if authorized then esp_port_open a else esp_port_close a, q))"

definition cmd_set_default_key :: "'c api_env \<Rightarrow> u8 \<Rightarrow> 'c host_state \<Rightarrow> int \<times> 'c host_state" where
  "cmd_set_default_key env i s = (if in_cleanup s then (0, s) else run_command (ae_cmd env) False (RqSetDefaultKey i) s)"

text \<open>The station address of a key: none for a group key.\<close>

definition key_mac :: "bool \<Rightarrow> bytes option \<Rightarrow> bytes option" where
  "key_mac pw_key mac_addr =
     (case (if pw_key then mac_addr else Some (replicate MAC_ADDR_LEN 0xff)) of
        Some m \<Rightarrow> if is_multicast_ether_addr m then None else Some m
      | None \<Rightarrow> None)"

definition cmd_del_key :: "'c api_env \<Rightarrow> u8 \<Rightarrow> bool \<Rightarrow> bytes option \<Rightarrow> 'c host_state \<Rightarrow> int \<times> 'c host_state" where
  "cmd_del_key env i pw_key mac_addr s =
     (if in_cleanup s then (0, s) else run_command (ae_cmd env) False (RqDelKey i (key_mac pw_key mac_addr)) s)"

definition cmd_add_key ::
  "'c api_env \<Rightarrow> u8 \<Rightarrow> bool \<Rightarrow> bytes option \<Rightarrow> bytes \<Rightarrow> bytes \<Rightarrow> u32 \<Rightarrow> 'c host_state \<Rightarrow> int \<times> 'c host_state" where
  "cmd_add_key env i pw_key mac_addr key seq cipher s =
     (if key = [] then (- EINVAL, s)
      else if MAX_KEY_LEN < length key then (- EINVAL, s)
      else if MAX_SEQ_LEN < length seq then (- EINVAL, s)
      else if in_cleanup s then (- EFAULT, s)
      else run_command (ae_cmd env) False
             (RqAddKey i (key_mac pw_key mac_addr) key seq (wpa_cipher_to_alg cipher)) s)"

definition cmd_update_fw_time :: "'c api_env \<Rightarrow> u64 \<Rightarrow> u64 \<Rightarrow> 'c host_state \<Rightarrow> int \<times> 'c host_state" where
  "cmd_update_fw_time env tv_sec tv_nsec s =
     (if in_cleanup s then (0, s) else run_command (ae_cmd env) False (RqSetTime tv_sec (tv_nsec div 1000)) s)"

definition cmd_init_interface :: "'c api_env \<Rightarrow> 'c host_state \<Rightarrow> int \<times> 'c host_state" where
  "cmd_init_interface env s = run_command (ae_cmd env) False RqInit s"

definition cmd_deinit_interface :: "'c api_env \<Rightarrow> 'c host_state \<Rightarrow> int \<times> 'c host_state" where
  "cmd_deinit_interface env s =
     (if in_cleanup s \<and> \<not> test_bit ESP_ALLOW_DEINIT (fst (snd s)) then (0, s)
      else run_command (ae_cmd env) False RqDeinit s)"

text \<open>The monitor command is addressed to the monitor interface; a command that could not be queued is
  given back without a wait.\<close>

definition cmd_monitor_config :: "'c api_env \<Rightarrow> bool \<Rightarrow> u8 \<Rightarrow> 'c host_state \<Rightarrow> int \<times> 'c host_state" where
  "cmd_monitor_config env enable channel s =
     (let (p, a, q) = s; ce = ae_cmd env; r = RqMonitor enable channel
      in if priv0 a = None then (- ENODEV, s)
         else case prepare_command_request_for_if ce a ESP_MONITOR_IF (rq_code r) (rq_len r) q of
                (Inl e, q) \<Rightarrow> (e, p, a, q)
              | (Inr i, q) \<Rightarrow>
                  let q = cmd_write i (rq_writes r) q;
                      (ret, q') = queue_cmd_node (ce_kenv ce) False i a q
                  in if ret \<noteq> 0 then (ret, p, a, recycle_cmd_node i q')
                     else cmd_exchange ce False i (p, a, q))"

definition cmd_get_rssi :: "'c api_env \<Rightarrow> 'c host_state \<Rightarrow> int \<times> 'c host_state" where
  "cmd_get_rssi env s = (if \<not> iface_is ESP_STA_IF s then (- EINVAL, s) else run_command (ae_cmd env) False RqRssi s)"

definition cmd_get_mac :: "'c api_env \<Rightarrow> 'c host_state \<Rightarrow> int \<times> 'c host_state" where
  "cmd_get_mac env s = run_command (ae_cmd env) False RqGetMac s"

definition cmd_set_mac :: "'c api_env \<Rightarrow> bytes \<Rightarrow> 'c host_state \<Rightarrow> int \<times> 'c host_state" where
  "cmd_set_mac env mac s = run_command (ae_cmd env) False (RqSetMac mac) s"

definition cmd_set_mode :: "'c api_env \<Rightarrow> u8 \<Rightarrow> 'c host_state \<Rightarrow> int \<times> 'c host_state" where
  "cmd_set_mode env mode s = (if in_cleanup s then (0, s) else run_command (ae_cmd env) False (RqSetMode mode) s)"

definition cmd_stop_ap :: "'c api_env \<Rightarrow> 'c host_state \<Rightarrow> int \<times> 'c host_state" where
  "cmd_stop_ap env s = (if \<not> iface_is ESP_AP_IF s then (- EINVAL, s) else cmd_set_mode env 1 s)"

definition cmd_set_ie :: "'c api_env \<Rightarrow> u8 \<Rightarrow> bytes \<Rightarrow> 'c host_state \<Rightarrow> int \<times> 'c host_state" where
  "cmd_set_ie env ty ie s =
     (if in_cleanup s then (0, s)
      else if 2 ^ 16 - 1 < length ie then (- EINVAL, s)
      else run_command (ae_cmd env) False (RqSetIe ty ie) s)"

definition cmd_set_ap_config :: "'c api_env \<Rightarrow> bytes \<Rightarrow> 'c host_state \<Rightarrow> int \<times> 'c host_state" where
  "cmd_set_ap_config env cfg s =
     (if \<not> iface_is ESP_AP_IF s then (- EINVAL, s)
      else if in_cleanup s then (0, s)
      else run_command (ae_cmd env) False (RqApConfig cfg) s)"

abbreviation (input) ESP_RADIO_SERVICE_MAX :: u8 where "ESP_RADIO_SERVICE_MAX \<equiv> 4"

definition cmd_set_radio_service :: "'c api_env \<Rightarrow> u8 \<Rightarrow> 'c host_state \<Rightarrow> int \<times> 'c host_state" where
  "cmd_set_radio_service env service s =
     (if ESP_RADIO_SERVICE_MAX \<le> service then (- EINVAL, s)
      else if priv0 (fst (snd s)) = None then (- ENODEV, s)
      else run_command (ae_cmd env) True (RqSetRadio service) s)"

definition cmd_get_radio_service :: "'c api_env \<Rightarrow> 'c host_state \<Rightarrow> int \<times> 'c host_state" where
  "cmd_get_radio_service env s =
     (if priv0 (fst (snd s)) = None then (- ENODEV, s) else run_command (ae_cmd env) True RqGetRadio s)"

definition cmd_set_wow_config ::
  "'c api_env \<Rightarrow> bool \<Rightarrow> bool \<Rightarrow> bool \<Rightarrow> bool \<Rightarrow> bool \<Rightarrow> 'c host_state \<Rightarrow> int \<times> 'c host_state" where
  "cmd_set_wow_config env anyp disc magic fourway eap s = run_command (ae_cmd env) False (RqWow anyp disc magic fourway eap) s"

definition cmd_set_tx_power :: "'c api_env \<Rightarrow> u32 \<Rightarrow> 'c host_state \<Rightarrow> int \<times> 'c host_state" where
  "cmd_set_tx_power env pw s = (if in_cleanup s then (0, s) else run_command (ae_cmd env) False (RqSetTxPower pw) s)"

definition cmd_add_station :: "'c api_env \<Rightarrow> sta_param \<Rightarrow> 'c host_state \<Rightarrow> int \<times> 'c host_state" where
  "cmd_add_station env sta s =
     (if \<not> iface_is ESP_AP_IF s then (- EINVAL, s)
      else if in_cleanup s then (0, s)
      else run_command (ae_cmd env) False (RqStation sta) s)"

text \<open>A transmit power that cannot be asked for now is not an error.\<close>

definition cmd_get_tx_power :: "'c api_env \<Rightarrow> 'c host_state \<Rightarrow> int \<times> 'c host_state" where
  "cmd_get_tx_power env s =
     (let (p, a, q) = s; ce = ae_cmd env
      in case prepare_command_request ce a CMD_GET_TXPOWER (rq_len RqGetTxPower) q of
           (Inl e, q) \<Rightarrow> (if e = - EBUSY then 0 else e, p, a, q)
         | (Inr i, q) \<Rightarrow> cmd_exchange ce False i (p, a, q))"

definition cmd_get_reg_domain :: "'c api_env \<Rightarrow> 'c host_state \<Rightarrow> int \<times> 'c host_state" where
  "cmd_get_reg_domain env s = run_command (ae_cmd env) False RqGetReg s"

definition cmd_set_reg_domain :: "'c api_env \<Rightarrow> u8 \<Rightarrow> u8 \<Rightarrow> 'c host_state \<Rightarrow> int \<times> 'c host_state" where
  "cmd_set_reg_domain env c0 c1 s =
     (if c0 = 0 \<or> c1 = 0 then (- EINVAL, s)
      else let (ret, p, a, q) = run_command (ae_cmd env) False (RqSetReg c0 c1) s
           in (ret, if ret = 0 then p\<lparr>country_code := [c0, c1, 0]\<rparr> else p, a, q))"

section \<open>Firmware update and throughput test\<close>

definition esp_ota_finish_or_recover :: "'c api_env \<Rightarrow> int \<times> 'c host_state \<Rightarrow> int \<times> 'c host_state" where
  "esp_ota_finish_or_recover env x =
     (let (ret, p, a, q) = x
      in if ret = 0 then x
         else if test_bit ESP_DRIVER_UNLOADING a \<or> test_bit ESP_TRANSPORT_REMOVING a then x
         else (ret, p, if test_bit ESP_FW_RESET_EXPECTED a then a
                       else cmd_restart (ce_kenv (ae_cmd env)) (ce_ops (ae_cmd env)) a, q))"

text \<open>The start of an update recovers only from a failed exchange, not from a failed preparation.\<close>

definition cmd_process_ota_start :: "'c api_env \<Rightarrow> 'c host_state \<Rightarrow> int \<times> 'c host_state" where
  "cmd_process_ota_start env s =
     (let (p, a, q) = s; ce = ae_cmd env
      in case prepare_command_request ce a CMD_START_OTA_UPDATE (rq_len RqOtaStart) q of
           (Inl e, q) \<Rightarrow> (e, p, a, q)
         | (Inr i, q) \<Rightarrow> esp_ota_finish_or_recover env (cmd_exchange ce False i (p, a, q)))"

definition cmd_process_ota_write :: "'c api_env \<Rightarrow> bytes \<Rightarrow> 'c host_state \<Rightarrow> int \<times> 'c host_state" where
  "cmd_process_ota_write env chunk s =
     esp_ota_finish_or_recover env
       (if OTA_CHUNK_SIZE < length chunk then (- EINVAL, s) else run_command (ae_cmd env) False (RqOtaWrite chunk) s)"

definition cmd_process_ota_end :: "'c api_env \<Rightarrow> 'c host_state \<Rightarrow> int \<times> 'c host_state" where
  "cmd_process_ota_end env s = esp_ota_finish_or_recover env (run_command (ae_cmd env) False RqOtaEnd s)"

definition esp_raw_tp_alloc_run_id :: "u32 \<Rightarrow> u32" where
  "esp_raw_tp_alloc_run_id host_raw_tp_run_id = (if host_raw_tp_run_id + 1 = 0 then 1 else host_raw_tp_run_id + 1)"

text \<open>\<open>cmd_init_raw_tp_task_timer\<close> with the mode and the run number of the module; the number is drawn
  before the mode is looked at.\<close>

definition cmd_init_raw_tp_task_timer ::
  "'c api_env \<Rightarrow> u32 \<Rightarrow> u32 \<Rightarrow> 'c host_state \<Rightarrow> u32 \<times> int \<times> 'c host_state" where
  "cmd_init_raw_tp_task_timer env raw_tp_mode host_raw_tp_run_id s =
     (let run_id = esp_raw_tp_alloc_run_id host_raw_tp_run_id;
          start = (\<lambda>code. run_command (ae_cmd env) False (RqRawTp code run_id) s)
      in (run_id,
          if raw_tp_mode = 2 then start CMD_RAW_TP_ESP_TO_HOST
          else if raw_tp_mode = 1 then start CMD_RAW_TP_HOST_TO_ESP
          else if raw_tp_mode = 3 then start CMD_RAW_TP_BIDIRECTIONAL
          else (- EINVAL, s)))"

section \<open>Scans\<close>

text \<open>\<open>internal_scan_request\<close>; \<open>wait\<close> is the result of the wait for the end of the scan, and what happens to the
  interface meanwhile.\<close>

definition internal_scan_request ::
  "'c api_env \<Rightarrow> (wifi_priv \<Rightarrow> int \<times> wifi_priv) \<Rightarrow> bytes option \<Rightarrow> u8 \<Rightarrow> bool \<Rightarrow> 'c host_state \<Rightarrow> int \<times> 'c host_state" where
  "internal_scan_request env wait ssid channel is_blocking s =
     (let (p, a, q) = s; ce = ae_cmd env; r = RqScan ssid 0 no_bssid channel
      in if scan_in_progress p then (- EBUSY, s)
         else if in_cleanup s then (- EBUSY, s)
         else case prepare_command_request ce a (rq_code r) (rq_len r) q of
                (Inl e, q) \<Rightarrow> (e, p, a, q)
              | (Inr i, q) \<Rightarrow>
                  let p = p\<lparr>scan_in_progress := True, waiting_for_scan_done := waiting_for_scan_done p \<or> is_blocking\<rparr>;
                      (ret, p, a, q) = cmd_exchange ce False i (p, a, cmd_write i (rq_writes r) q)
                  in if ret = 0 \<and> is_blocking
                     then let (w, p) = wait p;
                              stop = esp_mark_scan_done True (p\<lparr>waiting_for_scan_done := False\<rparr>)
                          in if w = 0 then (- ETIMEDOUT, stop, a, q)
                             else if w < 0 then (w, stop, a, q)
                             else (0, p, a, q)
                     else (ret, p, a, q))"

text \<open>A scan request of cfg80211: its SSIDs, whether it has extra elements, its channels, and the
  number of channels that are not disabled.\<close>

record scan_req =
  sr_ssids :: "bytes list"
  sr_ie :: bool
  sr_channels :: "u8 list"
  sr_duration :: u16
  sr_bssid :: bytes
  sr_bands :: "bool list list"

definition scan_eligible_channels :: "scan_req \<Rightarrow> nat" where
  "scan_eligible_channels r = sum_list (map (\<lambda>band. length (filter Not band)) (sr_bands r))"

definition cmd_scan_request :: "'c api_env \<Rightarrow> scan_req \<Rightarrow> 'c host_state \<Rightarrow> int \<times> 'c host_state" where
  "cmd_scan_request env req s =
     (let (p, a, q) = s; ce = ae_cmd env; n = length (sr_channels req);
          ssid = (case sr_ssids req of [] \<Rightarrow> None
                  | x # _ \<Rightarrow> if x = [] then None else Some (take MAX_SSID_LEN (x @ replicate MAX_SSID_LEN 0)));
          r = RqScan ssid (sr_duration req) (sr_bssid req) (if n = 1 then sr_channels req ! 0 else 0)
      in if 1 < length (sr_ssids req) then (- EOPNOTSUPP, s)
         else if sr_ie req then (- EOPNOTSUPP, s)
         else if 1 < n \<and> 0 < scan_eligible_channels req \<and> n < scan_eligible_channels req then (- EOPNOTSUPP, s)
         else if in_cleanup s then (- EBUSY, s)
         else if scan_in_progress p \<or> scan_request p then (- EBUSY, s)
         else case prepare_command_request ce a (rq_code r) (rq_len r) q of
                (Inl e, q) \<Rightarrow> (e, p, a, q)
              | (Inr i, q) \<Rightarrow>
                  let (ret, p, a, q) = cmd_exchange ce False i
                        (p\<lparr>scan_in_progress := True, scan_request := True\<rparr>, a, cmd_write i (rq_writes r) q)
                  in if ret \<noteq> 0 then (ret, p\<lparr>scan_in_progress := False, scan_request := False\<rparr>, a, q)
                     else (0, p\<lparr>scan_timeout_work := True\<rparr>, a, q))"

section \<open>Connection\<close>

definition cmd_disconnect_request :: "'c api_env \<Rightarrow> u16 \<Rightarrow> bytes option \<Rightarrow> u8 \<Rightarrow> 'c host_state \<Rightarrow> int \<times> 'c host_state" where
  "cmd_disconnect_request env reason mac subtype s =
     (let (p, a, q) = s; ce = ae_cmd env; r = RqDisconnect subtype reason mac
      in if in_cleanup s then (0, s)
         else case prepare_command_request ce a (rq_code r) (rq_len r) q of
                (Inl e, q) \<Rightarrow> (e, p, a, q)
              | (Inr i, q) \<Rightarrow>
                  let p = esp_wifi_clear_auth_pending (esp_wifi_clear_assoc_pending p);
                      q = cmd_write i (rq_writes r) q;
                      sta = iface_is ESP_STA_IF s
                  in if iface_is ESP_AP_IF s
                     then if mac = None then (- EOPNOTSUPP, p, a, recycle_cmd_node i q)
                          else cmd_exchange ce False i (p, a, q)
                     else
                       let p = disconnect_request_begin mac (cmd_seq (cmd_nodes q i)) p;
                           (ret, p, a, q) = cmd_exchange ce False i (p, a, q);
                           p = (if ret \<noteq> 0 \<or> \<not> sta then p\<lparr>local_disconnect_req := False\<rparr> else p);
                           (p, a) = esp_mlme_end (ae_mlme env) ESP_MLME_DISCONNECT (ret = 0) (p, a)
                       in if ret = 0 \<and> sta \<and> subtype = DISCONNECT_TYPE_DISASSOC
                          then let p = p\<lparr>local_disconnect_req := False, disconnect_awaiting_mlme := False,
                                         disconnect_cmd_seq := 0, conn_generation := 0, disconnect_bssid := no_bssid\<rparr>;
                                   p = esp_wifi_clear_auth_pending (esp_wifi_clear_assoc_pending
                                         (esp_wifi_put_bss (me_wiphy (ae_mlme env)) p))
                               in (ret, cfg_notify (CFG_DISCONNECTED reason True) p, esp_port_close a, q)
                          else if ret = 0 \<and> sta
                          then (ret, if local_disconnect_req p then p else p\<lparr>disconnect_awaiting_mlme := False\<rparr>, a, q)
                          else (ret, p, a, q))"

definition cmd_assoc_request ::
  "'c api_env \<Rightarrow> nat \<Rightarrow> bytes \<Rightarrow> bytes \<Rightarrow> bool \<Rightarrow> bool \<Rightarrow> 'c host_state \<Rightarrow> int \<times> 'c host_state" where
  "cmd_assoc_request env bss bssid ie reassoc control_port s =
     (let (p, a, q) = s; ce = ae_cmd env; r = RqAssoc ie reassoc control_port; wiphy = me_wiphy (ae_mlme env)
      in if \<not> iface_is ESP_STA_IF s then (- EINVAL, s)
         else if in_cleanup s then (- EFAULT, s)
         else if 255 < length ie then (- EINVAL, s)
         else case prepare_command_request ce a (rq_code r) (rq_len r) q of
                (Inl e, q) \<Rightarrow> (e, p, a, q)
              | (Inr i, q) \<Rightarrow>
                  let q = cmd_write i (rq_writes r) q
                  in if ie \<noteq> [] \<and> \<not> ae_kmemdup env then (- ENOMEM, p, a, recycle_cmd_node i q)
                     else case assoc_request_begin wiphy bss bssid ie control_port (cmd_seq (cmd_nodes q i)) p of
                            None \<Rightarrow> (- EBUSY, p, a, recycle_cmd_node i q)
                          | Some (need_bss_ref, p) \<Rightarrow>
                              let (ret, p, a, q) = cmd_exchange ce False i (p, a, q);
                                  (p, a) = esp_mlme_end (ae_mlme env) ESP_MLME_ASSOC (ret = 0) (p, a)
                              in if ret \<noteq> 0
                                 then let p = esp_wifi_clear_assoc_pending p
                                      in (ret, if need_bss_ref then esp_wifi_put_bss wiphy p else p, a, q)
                                 else (0, esp_wifi_take_assoc_bss wiphy bss p, a, q))"

text \<open>A BSS as \<open>cmd_auth_request\<close> sees it: its address, its channel, and the SSID element of its
  information elements, if they have one.\<close>

record auth_req =
  ar_bss :: nat
  ar_bssid :: bytes
  ar_channel :: u8
  ar_ssid :: "bytes option"
  ar_type :: u8
  ar_data :: bytes
  ar_ie :: bytes
  ar_key :: bytes

definition wlan_auth_type :: "u8 \<Rightarrow> u8" where
  "wlan_auth_type t = (if t = 2 then 2 else if t = 4 then 3 else if t = 0 then 0 else t)"

definition auth_data :: "auth_req \<Rightarrow> bytes" where
  "auth_data req =
     (if ar_data req \<noteq> [] then ar_data req @ ar_ie req
      else if ar_ie req \<noteq> [] then replicate 4 0 @ ar_ie req else [])"

definition cmd_auth_request :: "'c api_env \<Rightarrow> auth_req \<Rightarrow> 'c host_state \<Rightarrow> int \<times> 'c host_state" where
  "cmd_auth_request env req s =
     (let (p, a, q) = s; ce = ae_cmd env
      in if \<not> iface_is ESP_STA_IF s then (- EINVAL, s)
         else if in_cleanup s then (- EFAULT, s)
         else case ar_ssid req of
                None \<Rightarrow> (- EINVAL, s)
              | Some ssid \<Rightarrow>
                  if MAX_SSID_LEN < length ssid then (- EINVAL, s)
                  else if 255 < length (auth_data req) then (- EINVAL, s)
                  else if 27 < length (ar_key req) then (- EINVAL, s)
                  else
                    let r = RqAuth (ar_bssid req) (ar_channel req) (wlan_auth_type (ar_type req)) ssid (ar_key req)
                              (auth_data req)
                    in case prepare_command_request ce a (rq_code r) (rq_len r) q of
                         (Inl e, q) \<Rightarrow> (e, p, a, q)
                       | (Inr i, q) \<Rightarrow>
                           let q = cmd_write i (rq_writes r) q
                           in case auth_request_begin (ar_bssid req) (cmd_seq (cmd_nodes q i)) p of
                                None \<Rightarrow> (- EBUSY, p, a, recycle_cmd_node i q)
                              | Some p \<Rightarrow>
                                  let (ret, p, a, q) = cmd_exchange ce False i (p, a, q);
                                      (p, a) = esp_mlme_end (ae_mlme env) ESP_MLME_AUTH (ret = 0) (p, a)
                                  in if ret \<noteq> 0 then (ret, esp_wifi_clear_auth_pending p, a, q)
                                     else (0, esp_wifi_ref_bss (me_wiphy (ae_mlme env)) (ar_bss req) p, a, q))"

section \<open>Management frames\<close>

record mgmt_req =
  mr_channel :: u8
  mr_offchan :: bool
  mr_wait :: u32
  mr_no_cck :: bool
  mr_dont_wait_for_ack :: bool
  mr_buf :: bytes

definition mgmt_next_id :: "u64 \<Rightarrow> u64" where
  "mgmt_next_id i = (if i + 1 = 0 then 1 else i + 1)"

text \<open>The locked section before the command: an open transaction is refused for seven seconds.\<close>

definition mgmt_request_begin :: "kernel_env \<Rightarrow> wifi_priv \<Rightarrow> wifi_priv option" where
  "mgmt_request_begin kenv p =
     (if pending_mgmt_active p \<and> \<not> 0 < sint (jiffies kenv - (pending_mgmt_sent_at p + msecs_to_jiffies kenv 7000)) then None
      else
        let p = (if pending_mgmt_active p then p\<lparr>pending_mgmt_cookie := 0\<rparr> else p);
            tx_id = mgmt_next_id (mgmt_tx_id p)
        in Some (p\<lparr>mgmt_tx_id := tx_id, pending_mgmt_id := tx_id, pending_mgmt_active := True,
                   pending_mgmt_sent_at := jiffies kenv\<rparr>))"

text \<open>\<open>cmd_mgmt_request\<close>; the cookie is returned beside the result.\<close>

definition cmd_mgmt_request :: "'c api_env \<Rightarrow> mgmt_req \<Rightarrow> 'c host_state \<Rightarrow> u64 option \<times> int \<times> 'c host_state" where
  "cmd_mgmt_request env req s =
     (let (p, a, q) = s; ce = ae_cmd env; buf = mr_buf req
      in if buf = [] then (None, - EINVAL, s)
         else if 2 ^ 16 - 1 < 28 + length buf then (None, - EMSGSIZE, s)
         else case mgmt_request_begin (ce_kenv ce) p of
                None \<Rightarrow> (None, - EBUSY, s)
              | Some p \<Rightarrow>
                  let tx_id = mgmt_tx_id p;
                      r = RqMgmtTx (mr_channel req) (mr_offchan req) (mr_wait req) (mr_no_cck req)
                            (mr_dont_wait_for_ack req) tx_id buf
                  in case prepare_command_request ce a (rq_code r) (rq_len r) q of
                       (Inl e, q) \<Rightarrow> (None, e, p\<lparr>pending_mgmt_active := False\<rparr>, a, q)
                     | (Inr i, q) \<Rightarrow>
                         let c = ucast (cmd_seq (cmd_nodes q i)) :: u64;
                             p = p\<lparr>pending_mgmt_cookie := c\<rparr>;
                             q = upd_node i (\<lambda>n. n\<lparr>cookie := c, mgmt_dont_wait_for_ack := mr_dont_wait_for_ack req\<rparr>) q
                         in if \<not> ae_kmemdup env
                            then (Some c, - ENOMEM, p\<lparr>pending_mgmt_active := False\<rparr>, a, recycle_cmd_node i q)
                            else
                              let q = upd_node i (\<lambda>n. n\<lparr>mgmt_frame := Some buf\<rparr>) q;
                                  (ret, p, a, q) = cmd_exchange ce False i (p, a, cmd_write i (rq_writes r) q)
                              in (Some c, ret,
                                  if ret \<noteq> 0 \<and> pending_mgmt_id p = tx_id then p\<lparr>pending_mgmt_active := False\<rparr> else p,
                                  a, q))"

section \<open>The request that is submitted\<close>

lemma upd_node_twice: "cmd_nodes (upd_node i f q) = (cmd_nodes q)(i := f (cmd_nodes q i))"
  by (simp add: upd_node_def)

text \<open>A prepared node: fields and request.\<close>

lemma prepare_node:
  assumes p: "prepare_command_request env a code len q = (Inr i, q')" and inv: "cmd_inv q True ph"
  obtains w where "priv0 a = Some w" "code \<noteq> 0" "test_bit ESP_CMD_INIT_DONE a" "esp_cmd_is_admitted a code"
    "len + HDR_SIZE \<le> ESP_SIZE_OF_CMD_NODE"
    "cmd_nodes q' i = fresh_node\<lparr>in_use := True, cmd_code := code, cmd_seq := cmd_next_seq (next_cmd_seq q),
       cmd_skb := Some (cmd_request (wd_if_type w) code (cmd_next_seq (next_cmd_seq q)) len)\<rparr>"
    "cur_cmd q' = cur_cmd q" "cmd_pending_queue q' = cmd_pending_queue q" "cmd_wq q' = cmd_wq q"
proof -
  obtain w where w: "priv0 a = Some w" and pf: "prepare_command_request_for_if env a (wd_if_type w) code len q = (Inr i, q')"
    using p by (auto simp: prepare_command_request_def split: option.splits)
  from pf obtain j q1 where c: "code \<noteq> 0" "test_bit ESP_CMD_INIT_DONE a" "esp_cmd_is_admitted a code"
    and g: "get_free_cmd_node (ce_alloc_skb env) a code q = (Inr (Some j), q1)"
    and f: "cmd_fill_request (ce_tailroom env) (wd_if_type w) code len j q1 = (Inr i, q')"
    by (auto simp: prepare_command_request_for_if_def split: if_splits prod.splits sum.splits option.splits)
  from f have j: "j = i" and l: "len + HDR_SIZE \<le> ESP_SIZE_OF_CMD_NODE"
    by (auto simp: cmd_fill_request_def Let_def split: if_splits)
  from g c obtain rest where r: "cmd_free_queue q = i # rest"
    and q1: "q1 = upd_node i (\<lambda>n. n\<lparr>cmd_skb := Some []\<rparr>) (upd_node i (\<lambda>n. n\<lparr>in_pending_queue := False, in_use := True\<rparr>)
         (q\<lparr>cmd_free_queue := rest, cmd_nodes_in_use := cmd_nodes_in_use q + 1\<rparr>))"
    by (auto simp: get_free_cmd_node_def take_cmd_node_def j split: if_splits list.splits)
  have "ph i = NFree" using inv r by (auto simp: cmd_inv_def split: if_splits)
  moreover have "cmd_pool q" using inv by (auto simp: cmd_inv_def split: if_splits)
  ultimately have n: "cmd_nodes q i = fresh_node" using inv by (auto simp: cmd_inv_def node_ok_def)
  have s: "next_cmd_seq q1 = next_cmd_seq q" "cmd_nodes q1 i = fresh_node\<lparr>in_use := True, cmd_skb := Some []\<rparr>"
    "cur_cmd q1 = cur_cmd q" "cmd_pending_queue q1 = cmd_pending_queue q" "cmd_wq q1 = cmd_wq q"
    using n by (simp_all add: q1 upd_node_def fresh_node_def)
  show ?thesis
  proof (rule that [OF w c l])
    show "cmd_nodes q' i = fresh_node\<lparr>in_use := True, cmd_code := code, cmd_seq := cmd_next_seq (next_cmd_seq q),
       cmd_skb := Some (cmd_request (wd_if_type w) code (cmd_next_seq (next_cmd_seq q)) len)\<rparr>"
      using f by (auto simp: cmd_fill_request_def Let_def j s upd_node_twice fresh_node_def split: if_splits)
  qed (use f in \<open>auto simp: cmd_fill_request_def Let_def s split: if_splits\<close>)
qed

lemma cmd_request_length: "8 \<le> len \<Longrightarrow> length (cmd_request t code seq len) = HDR_SIZE + len"
  by (simp add: cmd_request_def command_header_def HDR_SIZE_def)

lemma rq_len_ge [simp]: "8 \<le> rq_len r"
  by (cases r) simp_all

lemma rq_code_nonzero: "rq_valid r \<Longrightarrow> rq_code r \<noteq> 0"
  by (cases r) auto

text \<open>The request a command function submits.\<close>

definition request_frame :: "u4 \<Rightarrow> u16 \<Rightarrow> host_request \<Rightarrow> bytes" where
  "request_frame t seq r = put_all (rq_writes r) (cmd_request t (rq_code r) seq (rq_len r))"

lemma request_frame_shape:
  assumes "rq_valid r"
  shows "length (request_frame t seq r) = HDR_SIZE + rq_len r"
    and "take 18 (request_frame t seq r) = header_bytes (cmd_frame_header t (rq_len r)) @ [rq_code r, 0, 0, 0] @ le_bytes 2 seq"
proof -
  note f = request_fits [OF assms] and l = cmd_request_length [OF rq_len_ge, of t "rq_code r" seq r]
  show "length (request_frame t seq r) = HDR_SIZE + rq_len r"
    unfolding request_frame_def using put_all_length [OF f l] l by simp
  have "take 18 (request_frame t seq r) = take 18 (cmd_request t (rq_code r) seq (rq_len r))"
    unfolding request_frame_def using put_all_prefix [OF f l] by (simp add: HDR_SIZE_def)
  also have "\<dots> = header_bytes (cmd_frame_header t (rq_len r)) @ [rq_code r, 0, 0, 0] @ le_bytes 2 seq"
    using rq_len_ge [of r] by (simp add: cmd_request_def command_header_def numeral_eq_Suc)
  finally show "take 18 (request_frame t seq r) = header_bytes (cmd_frame_header t (rq_len r)) @ [rq_code r, 0, 0, 0] @ le_bytes 2 seq" .
qed

lemma request_frame_fields:
  assumes "rq_valid r"
  shows "length (drop HDR_SIZE (request_frame t seq r)) = rq_len r"
    and "drop HDR_SIZE (request_frame t seq r) ! 0 = rq_code r"
    and "ch_seq (drop HDR_SIZE (request_frame t seq r)) = seq"
    and "header_of (request_frame t seq r) = Some (cmd_frame_header t (rq_len r))"
proof -
  let ?f = "request_frame t seq r"
  note s = request_frame_shape [OF assms, of t seq]
  show "length (drop HDR_SIZE ?f) = rq_len r" using s(1) by simp
  have split: "?f = header_bytes (cmd_frame_header t (rq_len r)) @ [rq_code r, 0, 0, 0] @ le_bytes 2 seq @ drop 18 ?f"
    using append_take_drop_id [of 18 ?f] s(2) by simp
  have d: "drop HDR_SIZE ?f = [rq_code r, 0, 0, 0] @ le_bytes 2 seq @ drop 18 ?f"
    by (subst split) (simp add: HDR_SIZE_def)
  show "drop HDR_SIZE ?f ! 0 = rq_code r" unfolding d by simp
  show "ch_seq (drop HDR_SIZE ?f) = seq" unfolding d ch_seq_def by (simp add: le_word_le_bytes)
  show "header_of ?f = Some (cmd_frame_header t (rq_len r))" by (subst split) (simp add: header_of_header_bytes)
qed

section \<open>An answered command\<close>

text \<open>While the caller waits: the worker submits the command, the transport takes it, and the
  response arrives.\<close>

definition answered :: "'c cmd_env \<Rightarrow> (bytes \<Rightarrow> bytes) \<Rightarrow> bool" where
  "answered env answer \<longleftrightarrow>
     ce_meanwhile env = (\<lambda>(p, a, q).
       let request = (case cmd_pending_queue q of [] \<Rightarrow> [] | i # _ \<Rightarrow> cmd_checksum a (the (cmd_skb (cmd_nodes q i))));
           (a, q) = esp_cmd_work (ce_kenv env) (ce_ops env) a q
       in (p, a, snd (process_cmd_resp (answer request) a q)))"

definition cmd_path_open :: "'c esp_adapter \<Rightarrow> bool" where
  "cmd_path_open a \<longleftrightarrow> test_bit ESP_DRIVER_ACTIVE a \<and> test_bit ESP_CMD_INIT_DONE a \<and> \<not> test_bit ESP_TRANSPORT_REMOVING a \<and>
     \<not> test_bit ESP_DRIVER_UNLOADING a \<and> \<not> test_bit ESP_CLEANUP_IN_PROGRESS a"

definition answered_node :: "command_node \<Rightarrow> bytes \<Rightarrow> u64 \<Rightarrow> u64 \<Rightarrow> command_node" where
  "answered_node n resp queued sent = n\<lparr>queued_at := queued, in_pending_queue := False, sent_at := sent, cmd_skb := None,
     mgmt_dont_wait_for_ack := mgmt_dont_wait_for_ack n \<or> resp ! 0 = CMD_MGMT_TX \<and>
       ch_status resp = CMD_RESPONSE_SUCCESS \<and> resp ! 6 = HOSTED_MGMT_TX_ASYNC_STATUS_V1,
     resp_skb := Some resp, cn_result := 0, completed := True\<rparr>"

lemma exchange_answered:
  assumes n: "n = cmd_nodes q i" "cmd_code n \<noteq> 0" "cmd_skb n = Some skb" "\<not> completed n" "resp_skb n = None"
    and q: "cur_cmd q = None" "cmd_pending_queue q = []"
    and a: "cmd_path_open a" "esp_cmd_is_admitted a (cmd_code n)"
    and sent: "esp_send_packet (ce_ops env) (cmd_checksum a skb) a = (0, a1)" "state_flags a1 = state_flags a"
    and env: "answered env answer" and resp: "resp = answer (cmd_checksum a skb)" "8 \<le> length resp"
      "unat (ch_len resp) \<le> length resp - 8" "resp ! 0 = cmd_code n" "ch_seq resp = cmd_seq n"
  obtains q' where "cmd_exchange env high i (p, a, q) =
    (case cmd_decode 0 (answered_node n resp (jiffies (ce_kenv env)) (jiffies (ce_kenv env))) p a1 of
       (ret, p', a') \<Rightarrow> (ret, p', a', q'))"
proof -
  let ?j = "jiffies (ce_kenv env)"
  have fl: "test_bit f a1 = test_bit f a" for f using sent(2) by (simp add: test_bit_def)
  note o = a(1) [unfolded cmd_path_open_def]
  define q1 where "q1 = snd (queue_cmd_node (ce_kenv env) high i a q)"
  have q1: "cmd_pending_queue q1 = [i]" "cmd_nodes q1 i = n\<lparr>queued_at := ?j, in_pending_queue := True\<rparr>"
    "cur_cmd q1 = None"
    using a(2) n(1) q by (simp_all add: q1_def queue_cmd_node_def Let_def)
  define q2 where "q2 = snd (esp_cmd_work (ce_kenv env) (ce_ops env) a q1)"
  have w: "esp_cmd_work (ce_kenv env) (ce_ops env) a q1 = (a1, q2)" "cur_cmd q2 = Some i"
    "cmd_nodes q2 i = n\<lparr>queued_at := ?j, in_pending_queue := False, sent_at := ?j, cmd_skb := None\<rparr>"
    using o a(2) n q1 sent(1) by (simp_all add: q2_def esp_cmd_work_def Let_def)
  define q3 where "q3 = snd (process_cmd_resp resp a1 q2)"
  have q3: "cmd_nodes q3 i = answered_node n resp ?j ?j"
    using o resp n w by (simp add: q3_def process_cmd_resp_def fl Let_def answered_node_def)
  have m: "ce_meanwhile env (p, a, q1) = (p, a1, q3)"
    using env w(1) q1 n(3) resp(1) by (simp add: answered_def q3_def Let_def)
  have fin: "completed (cmd_nodes q3 i)" "cn_result (cmd_nodes q3 i) = 0" by (simp_all add: q3 answered_node_def)
  have g: "esp_cmd_wait_event_guard (ce_kenv env) (ce_ops env) (ce_woken env) i a1 q3 = (1, a1, q3)"
    by (simp add: esp_cmd_wait_event_guard_def fin)
  obtain q4 where f: "cmd_wait_finish 1 i q3 = (0, q4)" and q4: "cmd_nodes q4 = cmd_nodes q3"
    using fin by (simp add: cmd_wait_finish_def Let_def split: if_splits)
  have "cmd_timeout_restart (ce_kenv env) (ce_ops env) 0 (cmd_nodes q4 i) a1 = a1" by (simp add: cmd_timeout_restart_def)
  then have wd: "wait_and_decode_cmd_resp (ce_kenv env) (ce_ops env) (ce_woken env) i p a1 q3 =
      (case cmd_decode 0 (answered_node n resp ?j ?j) p a1 of (ret, p', a') \<Rightarrow> (ret, p', a', cmd_release i a' q4))"
    using o by (simp add: wait_and_decode_cmd_resp_def g f q4 q3 fl)
  obtain ret p' a' where d: "cmd_decode 0 (answered_node n resp ?j ?j) p a1 = (ret, p', a')" by (metis prod_cases3)
  show ?thesis
    by (rule that [of "cmd_release i a' q4"]) (simp add: cmd_exchange_def q1_def [symmetric] m wd d)
qed

end
