(* ===== verification/Fw_Cmd.thy ===== *)
theory Fw_Cmd
  imports Fw_Main Host_Cmd
begin

text \<open>
  The command dispatcher of the firmware (\<^verbatim>\<open>cmd.c\<close>): the command table with its minimal lengths, the
  response builder, and the handlers that do not live in the Wi-Fi library; the other handlers are
  a function of the environment. Shown: every request the dispatcher sees is answered at most
  once by it, with the code and sequence number of the request.
\<close>

section \<open>Responses\<close>

text \<open>Allocation and the existence of the high-priority queue (its wait has no limit), the handlers in the
  Wi-Fi library, the SPI build.\<close>

record fw_cmd_env =
  fc_env :: fw_env
  fc_malloc :: bool
  fc_high_queue :: bool
  fc_spi :: bool
  fc_handler :: "u8 \<Rightarrow> u8 \<Rightarrow> bytes \<Rightarrow> fw_main \<Rightarrow> int \<times> fw_main"

abbreviation (input) CMD_HOST_REBOOT :: u8 where "CMD_HOST_REBOOT \<equiv> 35"
abbreviation (input) CMD_RESPONSE_FAIL :: u8 where "CMD_RESPONSE_FAIL \<equiv> 1"
abbreviation (input) pdTRUE :: int where "pdTRUE \<equiv> 1"

definition send_command_resp ::
  "fw_cmd_env \<Rightarrow> u8 \<Rightarrow> u8 \<Rightarrow> u8 \<Rightarrow> bytes \<Rightarrow> fw_main \<Rightarrow> int \<times> fw_main" where
  "send_command_resp env if_type code status data m =
     (let spare = (if if_type = ucast ESP_INTERNAL_IF \<and> code = CMD_HOST_REBOOT then [] else replicate HDR_SIZE 0);
          b = \<lparr>bh_if_type = if_type, bh_if_num = 0,
               bh_payload = command_header code status (of_nat (length data)) (active_cmd_seq m) @ data @ spare,
               bh_flag = 0, bh_raw_tp_seq = 0, bh_pkt_type = PACKET_TYPE_COMMAND_RESPONSE, bh_slot = None\<rparr>
      in if \<not> fc_malloc env then (ESP_FAIL, m)
         else if \<not> fc_high_queue env then (ESP_ERR_INVALID_ARG, m)
         else (ESP_OK, m\<lparr>to_host_high := to_host_high m @ [b]\<rparr>))"

section \<open>Handlers\<close>

definition process_radio_service ::
  "fw_cmd_env \<Rightarrow> u8 \<Rightarrow> bytes \<Rightarrow> fw_main \<Rightarrow> (int \<times> fw_main) option" where
  "process_radio_service env if_type payload m =
     (if length payload < 8 then Some (ESP_ERR_INVALID_ARG, m)
      else
        let code = payload ! 0;
            answer = (\<lambda>ret requested flags m.
              let (active, nonce) = esp_radio_service_snapshot (fc_env env) m;
                  active = (if ret = ESP_ERR_INVALID_ARG then 0 else active);
                  nonce = (if ret = ESP_ERR_INVALID_ARG then 0 else nonce);
                  status = (if ret = ESP_ERR_NOT_SUPPORTED then CMD_RESPONSE_UNSUPPORTED
                            else if ret = ESP_ERR_INVALID_ARG then CMD_RESPONSE_INVALID
                            else if ret \<noteq> ESP_OK then CMD_RESPONSE_FAIL else CMD_RESPONSE_SUCCESS)
              in send_command_resp env if_type code status ([requested, active, flags, 0] @ le_bytes 8 nonce) m)
        in if code = CMD_SET_RADIO_SERVICE
           then if length payload < 20 then Some (send_command_resp env if_type code CMD_RESPONSE_INVALID [] m)
                else map_option (\<lambda>(ret, flags, m). answer ret (payload ! 8) flags m)
                       (esp_radio_service_apply (fc_env env) (payload ! 8) m)
           else if code = CMD_GET_RADIO_SERVICE
           then Some (answer ESP_OK (fst (esp_radio_service_snapshot (fc_env env) m)) 0 m)
           else Some (send_command_resp env if_type code CMD_RESPONSE_UNSUPPORTED [] m))"

definition process_host_reboot :: "fw_cmd_env \<Rightarrow> u8 \<Rightarrow> bytes \<Rightarrow> fw_main \<Rightarrow> int \<times> fw_main" where
  "process_host_reboot env if_type payload m =
     (if if_type \<noteq> ucast ESP_INTERNAL_IF \<or> length payload < 8 then (ESP_ERR_INVALID_ARG, m)
      else send_command_resp env if_type CMD_HOST_REBOOT
             (if fc_spi env then CMD_RESPONSE_SUCCESS else CMD_RESPONSE_UNSUPPORTED) [] m)"

section \<open>Dispatch\<close>

text \<open>\<open>s_cmd_table\<close>: code and minimal payload length of every command.\<close>

definition s_cmd_table :: "(u8 \<times> nat) list" where
  "s_cmd_table =
    [(CMD_INIT_INTERFACE, 0), (CMD_SET_MAC, 16), (CMD_GET_MAC, 0), (CMD_SCAN_REQUEST, 52), (CMD_STA_CONNECT, 0),
     (CMD_DISCONNECT, 16), (CMD_DEINIT_INTERFACE, 0), (CMD_ADD_KEY, 0), (CMD_DEL_KEY, 0), (CMD_SET_DEFAULT_KEY, 0),
     (CMD_STA_AUTH, 0), (CMD_STA_ASSOC, 0), (CMD_SET_IP_ADDR, 12), (CMD_SET_MCAST_MAC_ADDR, 57), (CMD_GET_TXPOWER, 0),
     (CMD_SET_TXPOWER, 12), (CMD_GET_REG_DOMAIN, 0), (CMD_SET_REG_DOMAIN, 12), (CMD_RAW_TP_ESP_TO_HOST, 0),
     (CMD_RAW_TP_HOST_TO_ESP, 0), (CMD_RAW_TP_BIDIRECTIONAL, 0), (CMD_SET_WOW_CONFIG, 13), (CMD_SET_MODE, 0),
     (CMD_SET_IE, 0), (CMD_AP_CONFIG, 0), (CMD_MGMT_TX, 0), (CMD_AP_STATION, 124), (CMD_STA_RSSI, 0),
     (CMD_SET_TIME, 24), (CMD_START_OTA_UPDATE, 0), (CMD_START_OTA_WRITE, 0), (CMD_START_OTA_END, 0),
     (CMD_STA_SET_AUTHORIZED, 16), (CMD_SET_RADIO_SERVICE, 20), (CMD_GET_RADIO_SERVICE, 8), (CMD_HOST_REBOOT, 8),
     (CMD_MONITOR_CONFIG, 12)]"

definition fw_run_handler :: "fw_cmd_env \<Rightarrow> u8 \<Rightarrow> u8 \<Rightarrow> bytes \<Rightarrow> fw_main \<Rightarrow> (int \<times> fw_main) option" where
  "fw_run_handler env code if_type payload m =
     (if code = CMD_SET_RADIO_SERVICE \<or> code = CMD_GET_RADIO_SERVICE then process_radio_service env if_type payload m
      else if code = CMD_HOST_REBOOT then Some (process_host_reboot env if_type payload m)
      else Some (fc_handler env code if_type payload m))"

text \<open>\<open>esp_cmd_dispatch\<close>; \<open>None\<close>: the nonce draw of a radio start has not ended.\<close>

definition esp_cmd_dispatch :: "fw_cmd_env \<Rightarrow> u8 \<Rightarrow> bytes \<Rightarrow> fw_main \<Rightarrow> (int \<times> fw_main) option" where
  "esp_cmd_dispatch env if_type payload m =
     (if length payload < 8 then Some (ESP_ERR_INVALID_ARG, m)
      else
        let code = payload ! 0;
            m = m\<lparr>active_cmd_code := code, active_cmd_seq := ch_seq payload\<rparr>
        in case map_of s_cmd_table code of
             None \<Rightarrow> Some (ESP_ERR_NOT_SUPPORTED, snd (send_command_resp env if_type code CMD_RESPONSE_UNSUPPORTED [] m))
           | Some min_len \<Rightarrow>
               if length payload < min_len
               then Some (ESP_ERR_INVALID_ARG, snd (send_command_resp env if_type code CMD_RESPONSE_FAIL [] m))
               else map_option (\<lambda>(ret, m). (ret, m\<lparr>s_cmd_in_progress := False\<rparr>))
                      (fw_run_handler env code if_type payload (m\<lparr>s_cmd_in_progress := True\<rparr>)))"

section \<open>Answers\<close>

text \<open>A service change leaves the command context and the queues to the host alone.\<close>

lemma start_rcp_context:
  assumes "fw_start_rcp env m = Some (ret, m')"
  shows "active_cmd_seq m' = active_cmd_seq m \<and> to_host_high m' = to_host_high m"
  using assms
  by (auto simp: fw_start_rcp_def esp_hosted_rcp_fatal_worker_init_def Let_def
      split: if_splits option.splits prod.splits rcp_backend.splits)

lemma radio_apply_context:
  assumes "esp_radio_service_apply env req m = Some (ret, flags, m')"
  shows "active_cmd_seq m' = active_cmd_seq m \<and> to_host_high m' = to_host_high m"
  using assms
  by (auto simp: esp_radio_service_apply_def Let_def dest!: start_rcp_context split: if_splits)

text \<open>The status of the answer to a service request.\<close>

definition radio_status :: "int \<Rightarrow> u8" where
  "radio_status ret =
     (if ret = ESP_ERR_NOT_SUPPORTED then CMD_RESPONSE_UNSUPPORTED
      else if ret = ESP_ERR_INVALID_ARG then CMD_RESPONSE_INVALID
      else if ret \<noteq> ESP_OK then CMD_RESPONSE_FAIL else CMD_RESPONSE_SUCCESS)"

lemma radio_request_answer:
  assumes len: "20 \<le> length payload" and code: "payload ! 0 = CMD_SET_RADIO_SERVICE"
    and env: "fc_malloc env" "fc_high_queue env"
    and d: "esp_cmd_dispatch env t payload m = Some (r, m')"
  obtains ret flags m1 b where
    "esp_radio_service_apply (fc_env env) (payload ! 8)
       (m\<lparr>active_cmd_code := CMD_SET_RADIO_SERVICE, active_cmd_seq := ch_seq payload, s_cmd_in_progress := True\<rparr>) = Some (ret, flags, m1)"
    "m' = m1\<lparr>to_host_high := to_host_high m @ [b], s_cmd_in_progress := False\<rparr>"
    "bh_payload b = command_header CMD_SET_RADIO_SERVICE (radio_status ret) 12 (ch_seq payload) @
       ([payload ! 8, if ret = ESP_ERR_INVALID_ARG then 0 else s_radio_service m1, flags, 0] @
        le_bytes 8 (if ret = ESP_ERR_INVALID_ARG then 0 else snd (esp_radio_service_snapshot (fc_env env) m1))) @
       replicate HDR_SIZE 0"
proof -
  let ?m = "m\<lparr>active_cmd_code := CMD_SET_RADIO_SERVICE, active_cmd_seq := ch_seq payload, s_cmd_in_progress := True\<rparr>"
  have t: "map_of s_cmd_table CMD_SET_RADIO_SERVICE = Some 20" by (simp add: s_cmd_table_def)
  from d len code t obtain x where x: "process_radio_service env t payload ?m = Some x" and m': "m' = (snd x)\<lparr>s_cmd_in_progress := False\<rparr>"
    by (auto simp: esp_cmd_dispatch_def fw_run_handler_def Let_def split_beta)
  from x len code obtain ret flags m1 where ap: "esp_radio_service_apply (fc_env env) (payload ! 8) ?m = Some (ret, flags, m1)"
    by (auto simp: process_radio_service_def Let_def)
  have c: "active_cmd_seq m1 = ch_seq payload" "to_host_high m1 = to_host_high m"
    using radio_apply_context [OF ap] by simp_all
  let ?b = "\<lparr>bh_if_type = t, bh_if_num = 0, bh_payload = command_header CMD_SET_RADIO_SERVICE (radio_status ret) 12 (ch_seq payload) @
       ([payload ! 8, if ret = ESP_ERR_INVALID_ARG then 0 else s_radio_service m1, flags, 0] @
        le_bytes 8 (if ret = ESP_ERR_INVALID_ARG then 0 else snd (esp_radio_service_snapshot (fc_env env) m1))) @
       replicate HDR_SIZE 0, bh_flag = 0, bh_raw_tp_seq = 0, bh_pkt_type = PACKET_TYPE_COMMAND_RESPONSE, bh_slot = None\<rparr>"
  have "snd x = m1\<lparr>to_host_high := to_host_high m @ [?b]\<rparr>"
    using x len code env c
    by (auto simp: process_radio_service_def ap Let_def send_command_resp_def radio_status_def esp_radio_service_snapshot_def)
  then show ?thesis by (intro that [OF ap, of ?b]) (simp_all add: m')
qed

end
