(* ===== verification/Cmd_Link.thy ===== *)
theory Cmd_Link
  imports Host_Cmd_Api Fw_Cmd
begin

text \<open>
  Commands end to end: the command functions of the host, the dispatcher of the firmware, and the
  response on the way back. Shown: the firmware never refuses a request of the host for its
  length, and after a service request host and firmware agree on the services and the session.
\<close>

section \<open>Requests reach their handler\<close>

lemma request_in_table: "rq_valid r \<Longrightarrow> \<exists>m. map_of s_cmd_table (rq_code r) = Some m \<and> m \<le> rq_len r"
  by (cases r) (auto simp: s_cmd_table_def)

lemma request_dispatched:
  assumes r: "rq_valid r" and f: "payload = drop HDR_SIZE (request_frame t seq r)"
  shows "esp_cmd_dispatch env if_type payload m =
    map_option (\<lambda>(ret, m). (ret, m\<lparr>s_cmd_in_progress := False\<rparr>))
      (fw_run_handler env (rq_code r) if_type payload
        (m\<lparr>active_cmd_code := rq_code r, active_cmd_seq := seq, s_cmd_in_progress := True\<rparr>))"
proof -
  obtain k where k: "map_of s_cmd_table (rq_code r) = Some k" "k \<le> rq_len r" using request_in_table [OF r] by blast
  note p = request_frame_fields [OF r, of t seq, folded f]
  have "\<not> length payload < k" "\<not> rq_len r < 8" using k(2) p(1) leD [OF rq_len_ge, of r] by simp_all
  then show ?thesis using k(1) by (simp add: esp_cmd_dispatch_def p Let_def)
qed

lemma request_reaches_handler:
  assumes r: "rq_valid r" and p: "prepare_command_request cenv a (rq_code r) (rq_len r) q = (Inr i, q')" and inv: "cmd_inv q True ph"
  shows "\<exists>w f. priv0 a = Some w \<and> cmd_skb (cmd_nodes (cmd_write i (rq_writes r) q') i) = Some f \<and>
    length f = HDR_SIZE + rq_len r \<and> length f \<le> ESP_SIZE_OF_CMD_NODE \<and>
    header_of f = Some (cmd_frame_header (wd_if_type w) (rq_len r)) \<and>
    drop HDR_SIZE f ! 0 = rq_code r \<and> ch_seq (drop HDR_SIZE f) = cmd_seq (cmd_nodes q' i) \<and>
    esp_cmd_dispatch fenv t (drop HDR_SIZE f) m =
      map_option (\<lambda>(ret, m). (ret, m\<lparr>s_cmd_in_progress := False\<rparr>))
        (fw_run_handler fenv (rq_code r) t (drop HDR_SIZE f)
          (m\<lparr>active_cmd_code := rq_code r, active_cmd_seq := cmd_seq (cmd_nodes q' i), s_cmd_in_progress := True\<rparr>))"
proof -
  let ?seq = "cmd_next_seq (next_cmd_seq q)"
  obtain w where w: "priv0 a = Some w" "rq_len r + HDR_SIZE \<le> ESP_SIZE_OF_CMD_NODE"
    and n: "cmd_nodes q' i = fresh_node\<lparr>in_use := True, cmd_code := rq_code r, cmd_seq := ?seq,
       cmd_skb := Some (cmd_request (wd_if_type w) (rq_code r) ?seq (rq_len r))\<rparr>"
    using prepare_node [OF p inv] by metis
  let ?f = "request_frame (wd_if_type w) ?seq r"
  have "cmd_skb (cmd_nodes (cmd_write i (rq_writes r) q') i) = Some ?f"
    by (simp add: cmd_write_def n request_frame_def)
  moreover have "length ?f = HDR_SIZE + rq_len r" by (rule request_frame_shape(1) [OF r])
  ultimately show ?thesis
    using w n request_frame_fields [OF r, of "wd_if_type w" ?seq] request_dispatched [OF r refl, of fenv t "wd_if_type w" ?seq m]
    by (intro exI [of _ w] exI [of _ ?f]) simp
qed

section \<open>Services agree\<close>

lemma checksum_payload:
  assumes "header_of skb \<noteq> None"
  shows "drop HDR_SIZE (cmd_checksum a skb) = drop HDR_SIZE skb"
  using assms by (auto simp: cmd_checksum_def HDR_SIZE_def split: option.splits)

lemma radio_request_byte:
  shows "drop HDR_SIZE (request_frame t seq (RqSetRadio svc)) ! 8 = svc"
proof -
  have "length (cmd_request t CMD_SET_RADIO_SERVICE seq 20) = 32" by (simp add: cmd_request_length HDR_SIZE_def)
  then show ?thesis by (simp add: request_frame_def put_all_def put_at_def HDR_SIZE_def nth_append min_def)
qed

text \<open>The result of the host for a result of the firmware.\<close>

definition radio_errno :: "int \<Rightarrow> int" where
  "radio_errno ret =
     (if ret = ESP_ERR_NOT_SUPPORTED then - EOPNOTSUPP
      else if ret = ESP_ERR_INVALID_ARG then - EINVAL
      else if ret \<noteq> ESP_OK then - EIO else 0)"

lemma decode_radio_answer:
  assumes "cmd_code n = CMD_SET_RADIO_SERVICE" "resp_skb n = Some resp"
    and resp: "resp = command_header CMD_SET_RADIO_SERVICE (radio_status ret) 12 seq @
       ([svc, active, flags, 0] @ le_bytes 8 nonce) @ replicate HDR_SIZE 0"
  shows "cmd_decode 0 n p a = (radio_errno ret, p,
    if ret = ESP_OK then a\<lparr>radio_service_active := active, radio_service_flags := flags, rcp_session_nonce := nonce\<rparr> else a)"
proof -
  have h: "length (command_header c s l x) = 8" for c s l x by (simp add: command_header_def)
  have f: "length resp = 32" "ch_status resp = radio_status ret" "resp ! 9 = active" "resp ! 10 = flags"
    "take 8 (drop 12 resp) = le_bytes 8 nonce"
    unfolding resp by (simp_all add: nth_append h HDR_SIZE_def ch_status_def) (simp add: command_header_def)
  have "cmd_decode 0 n p a = (case decode_radio_service n a of (r, a) \<Rightarrow> (r, p, a))"
    using assms(1) by (simp add: cmd_decode_def Let_def)
  then show ?thesis
    using assms(2) f by (simp add: decode_radio_service_def radio_status_def radio_errno_def)
qed

lemma radio_agreement:
  assumes inv: "cmd_inv q True ph" and idle: "cur_cmd q = None" "cmd_pending_queue q = []"
    and path: "cmd_path_open a"
    and prep: "prepare_command_request (ae_cmd env) a CMD_SET_RADIO_SERVICE 20 q = (Inr i, q0)" and svc: "svc < 4"
    and frame: "priv0 a = Some w" "frame = request_frame (wd_if_type w) (cmd_next_seq (next_cmd_seq q)) (RqSetRadio svc)"
    and sent: "esp_send_packet (ce_ops (ae_cmd env)) (cmd_checksum a frame) a = (0, a1)" "state_flags a1 = state_flags a"
    and fw: "esp_cmd_dispatch fenv t (drop HDR_SIZE (cmd_checksum a frame)) m = Some (r, m')" "fc_malloc fenv" "fc_high_queue fenv"
    and ans: "answered (ae_cmd env) (\<lambda>_. bh_payload (last (to_host_high m')))"
    and run: "cmd_set_radio_service env svc (p, a, q) = (ret, p', a', q')"
  obtains fret flags m1 where
    "esp_radio_service_apply (fc_env fenv) svc
      (m\<lparr>active_cmd_code := CMD_SET_RADIO_SERVICE, active_cmd_seq := cmd_next_seq (next_cmd_seq q), s_cmd_in_progress := True\<rparr>)
      = Some (fret, flags, m1)"
    "ret = radio_errno fret"
    "fret = ESP_OK \<Longrightarrow> radio_service_active a' = s_radio_service m' \<and> radio_service_flags a' = flags \<and>
       rcp_session_nonce a' = snd (esp_radio_service_snapshot (fc_env fenv) m')"
    "fret \<noteq> ESP_OK \<Longrightarrow> a' = a1"
proof -
  let ?seq = "cmd_next_seq (next_cmd_seq q)"
  let ?r = "RqSetRadio svc"
  have rv: "rq_valid ?r" by simp
  note fields = request_frame_fields [OF rv, of "wd_if_type w" ?seq, folded frame(2)]
  have drop: "drop HDR_SIZE (cmd_checksum a frame) = drop HDR_SIZE frame" using checksum_payload fields(4) by blast
  have pl: "20 \<le> length (drop HDR_SIZE frame)" "drop HDR_SIZE frame ! 0 = CMD_SET_RADIO_SERVICE" "ch_seq (drop HDR_SIZE frame) = ?seq"
    "drop HDR_SIZE frame ! 8 = svc"
    using fields(1-3) radio_request_byte by (simp_all add: frame(2))
  obtain fret flags m1 b where ap: "esp_radio_service_apply (fc_env fenv) svc
      (m\<lparr>active_cmd_code := CMD_SET_RADIO_SERVICE, active_cmd_seq := ?seq, s_cmd_in_progress := True\<rparr>) = Some (fret, flags, m1)"
    and m': "m' = m1\<lparr>to_host_high := to_host_high m @ [b], s_cmd_in_progress := False\<rparr>"
    and b: "bh_payload b = command_header CMD_SET_RADIO_SERVICE (radio_status fret) 12 ?seq @
       ([svc, if fret = ESP_ERR_INVALID_ARG then 0 else s_radio_service m1, flags, 0] @
        le_bytes 8 (if fret = ESP_ERR_INVALID_ARG then 0 else snd (esp_radio_service_snapshot (fc_env fenv) m1))) @
       replicate HDR_SIZE 0"
    by (rule radio_request_answer [OF pl(1,2) fw(2,3) fw(1) [unfolded drop], unfolded pl(3,4)])
  obtain w' where w': "priv0 a = Some w'" and ok: "esp_cmd_is_admitted a CMD_SET_RADIO_SERVICE"
    and node: "cmd_nodes q0 i = fresh_node\<lparr>in_use := True, cmd_code := CMD_SET_RADIO_SERVICE, cmd_seq := ?seq,
       cmd_skb := Some (cmd_request (wd_if_type w') CMD_SET_RADIO_SERVICE ?seq 20)\<rparr>"
    and q0: "cur_cmd q0 = cur_cmd q" "cmd_pending_queue q0 = cmd_pending_queue q"
    using prepare_node [OF prep inv] by metis
  define q1 where "q1 = cmd_write i (rq_writes ?r) q0"
  have ww: "w' = w" using w' frame(1) by simp
  have skb: "cmd_skb (cmd_nodes q1 i) = Some frame"
    by (simp add: q1_def cmd_write_def node frame(2) request_frame_def ww)
  have resp: "8 \<le> length (bh_payload b)" "unat (ch_len (bh_payload b)) \<le> length (bh_payload b) - 8"
    "bh_payload b ! 0 = CMD_SET_RADIO_SERVICE" "ch_seq (bh_payload b) = ?seq"
    unfolding b by (simp_all add: command_header_def ch_len_def ch_seq_def HDR_SIZE_def)
  have c: "cmd_code (cmd_nodes q1 i) = CMD_SET_RADIO_SERVICE" "cmd_seq (cmd_nodes q1 i) = ?seq"
      "\<not> completed (cmd_nodes q1 i)" "resp_skb (cmd_nodes q1 i) = None" "cur_cmd q1 = None" "cmd_pending_queue q1 = []"
    by (simp_all add: q1_def cmd_write_def node q0 idle fresh_node_def)
  obtain q2 where ex: "cmd_exchange (ae_cmd env) True i (p, a, q1) =
    (case cmd_decode 0 (answered_node (cmd_nodes q1 i) (bh_payload b) (jiffies (ce_kenv (ae_cmd env)))
        (jiffies (ce_kenv (ae_cmd env)))) p a1 of (ret, p', a') \<Rightarrow> (ret, p', a', q2))"
    using exchange_answered [OF refl _ skb c(3,4,5,6) path _ sent ans, of "bh_payload b" True p] c resp ok m' by auto
  have dec: "cmd_decode 0 (answered_node (cmd_nodes q1 i) (bh_payload b) x y) p a1 = (radio_errno fret, p,
    if fret = ESP_OK then a1\<lparr>radio_service_active := s_radio_service m1, radio_service_flags := flags,
      rcp_session_nonce := snd (esp_radio_service_snapshot (fc_env fenv) m1)\<rparr> else a1)" for x y
  proof -
    let ?n = "answered_node (cmd_nodes q1 i) (bh_payload b) x y"
    have n: "cmd_code ?n = CMD_SET_RADIO_SERVICE" "resp_skb ?n = Some (bh_payload b)" by (simp_all add: answered_node_def c(1))
    show ?thesis unfolding decode_radio_answer [OF n b] by simp
  qed
  have "cmd_set_radio_service env svc (p, a, q) = cmd_exchange (ae_cmd env) True i (p, a, q1)"
    using svc frame(1) prep by (auto simp: cmd_set_radio_service_def run_command_def q1_def dest: leD)
  with ex dec run have res: "ret = radio_errno fret" "a' = (if fret = ESP_OK then a1\<lparr>radio_service_active := s_radio_service m1, radio_service_flags := flags,
      rcp_session_nonce := snd (esp_radio_service_snapshot (fc_env fenv) m1)\<rparr> else a1)"
    by simp_all
  show ?thesis
    by (rule that [OF ap res(1)]) (simp_all add: res(2) m' esp_radio_service_snapshot_def)
qed

end
