(* ===== verification/Spec2Isabelle.thy ===== *)
theory Spec2Isabelle
  imports Rcp_Link Cmd_Link
begin

text \<open>
  A verification of the core of ESP-Hosted for Linux: a Wi-Fi/Bluetooth/Thread co-processor
  (firmware under \<^verbatim>\<open>esp/esp_driver/network_adapter/main\<close>) attached to a Linux host (kernel module
  under \<^verbatim>\<open>host\<close>). The two sides exchange frames with a 12-byte header over a transport; the
  firmware announces itself with a boot event; the host brings network, Bluetooth and Thread
  endpoints up for that firmware incarnation and restarts the firmware when the stateful streams
  (HCI, Spinel) cannot be trusted any more.

  \<^bold>\<open>Theories, in import order\<close>

  \<^item> \<^verbatim>\<open>Prelude\<close>: word and byte-list types, error numbers, little-endian codecs, shared lemmas.
  \<^item> \<^verbatim>\<open>Wire\<close> (\<^verbatim>\<open>include/adapter.h\<close>, \<^verbatim>\<open>include/esp_host_wire_bounds.h\<close>): the payload header and its
    codec, the span check on machine words, the checksum with its aligned two-lane loop.
  \<^item> \<^verbatim>\<open>Adapter\<close> (\<^verbatim>\<open>include/esp.h\<close>, \<^verbatim>\<open>include/esp_if.h\<close>): the adapter record with its flag set and
    context state, and the transport hooks as a record of functions on a context of any type.
  \<^item> \<^verbatim>\<open>Recovery\<close> (\<^verbatim>\<open>main.c\<close>): recovery requests, the counted reboot budget, the delayed worker,
    and the reconstruction protocol. The locale \<open>recovery_transport\<close> holds what the hooks of
    a transport have to keep; the budget is an invariant of the step relation \<open>recovery_step\<close>.
  \<^item> \<^verbatim>\<open>Deframer\<close>: the reference receiver of the byte stream (locale \<open>frame_format\<close>).
  \<^item> \<^verbatim>\<open>Usb_Rx\<close>, \<^verbatim>\<open>Usb_Tx\<close>, \<^verbatim>\<open>Usb_Host\<close> (\<^verbatim>\<open>usb/esp_usb.c\<close>): the receive accumulator, the transmit
    queues, worker, completions and flush as a step relation whose steps are the code's locked
    sections, and the life cycle of the transport with its hook table.
  \<^item> \<^verbatim>\<open>Byte_Pipe\<close>: the abstract byte pipe that may fail (locale \<open>failing_pipe\<close>) and the one that
    may not (locale \<open>byte_pipe\<close>, a sublocale).
  \<^item> \<^verbatim>\<open>Fw_Rcp\<close> (\<^verbatim>\<open>esp_rcp.c\<close>, parts of \<^verbatim>\<open>app_main.c\<close>): the radio co-processor bridge of the
    firmware: queues, slot pool, startup gate, session nonce, fatal restart.
  \<^item> \<^verbatim>\<open>Usb_Device\<close> (\<^verbatim>\<open>usb/esp_usb_device.c\<close>): parser, polling writer, control requests and boot event
    of the USB firmware.
  \<^item> \<^verbatim>\<open>Usb_Link\<close>: the two USB sides composed.
  \<^item> \<^verbatim>\<open>Boot_Event\<close> (\<^verbatim>\<open>main.c\<close>): the host's boot event handler, with interface and radio set-up as
    environment functions; the locale \<open>boot_transport\<close> is what it relies on.
  \<^item> \<^verbatim>\<open>Host_Tx\<close>, \<^verbatim>\<open>Host_Rx\<close> (\<^verbatim>\<open>main.c\<close>): the frame layout and the transmit hook of the network
    device; the receive dispatcher, whose hand-overs to the kernel are returned as deliveries.
  \<^item> \<^verbatim>\<open>Host_Rcp\<close> (\<^verbatim>\<open>host/esp_rcp.c\<close>): the character device of the radio co-processor; the step
    relation \<open>rcp_step\<close> has the locked sections of its operations as steps.
  \<^item> \<^verbatim>\<open>Fw_Main\<close> (\<^verbatim>\<open>app_main.c\<close>): the receive dispatcher of the firmware with its aggregate parser,
    and the radio-service selector.
  \<^item> \<^verbatim>\<open>Rcp_Link\<close>: the character device, the dispatchers, the USB link and the bridge composed; the
    endpoint as an instance of the locale \<open>failing_pipe\<close>.

  \<^item> \<^verbatim>\<open>Host_Cmd\<close> (\<^verbatim>\<open>host/esp_cmd.c\<close>): the command queue of the host: node pool, worker, responses, waits,
    set-up and teardown; the step relation \<open>cmd_step\<close> has its locked sections as steps.
  \<^item> \<^verbatim>\<open>Host_Mlme\<close> (\<^verbatim>\<open>host/esp_cmd.c\<close>): events of the firmware, staged while a command runs and delivered to
    cfg80211 afterwards; step relation \<open>mlme_step\<close>. Calls into cfg80211 are recorded in order.
  \<^item> \<^verbatim>\<open>Host_Request\<close>, \<^verbatim>\<open>Host_Cmd_Api\<close> (\<^verbatim>\<open>include/adapter.h\<close>, \<^verbatim>\<open>host/esp_cmd.c\<close>): the request of each command
    with its writes, and the command functions. What others do while a caller waits is a function of
    the environment.
  \<^item> \<^verbatim>\<open>Fw_Cmd\<close> (\<^verbatim>\<open>cmd.c\<close>): the command dispatcher of the firmware, its table, its response builder and the
    service handler; the handlers in the Wi-Fi library are a function of the environment.
  \<^item> \<^verbatim>\<open>Cmd_Link\<close>: a request of the host, its handler and the response composed.

  \<^bold>\<open>Conventions\<close>

  State is passed explicitly; locks are not modelled as data: every definition that the code
  runs under a lock is one step. Results of the kernel or of FreeRTOS (allocation, submission,
  semaphores, clocks, random numbers) are fields of an environment record or arguments. Errors
  are the negative numbers of the kernel or the codes of ESP-IDF. The receive loops are total
  functions with a measure. The polling writer of the firmware consumes one list element per
  pass and returns \<open>None\<close> when the list ends; \<open>fw_write_returns\<close> says how many passes are enough.
  The nonce draw of the bridge consumes a list of random words in the same way.

  \<^bold>\<open>What is shown\<close>

  Frames cross the USB link unchanged in both directions however transfers cut the stream; each
  receiver refines the reference deframer; accumulator, queues, counters and in-flight URBs stay
  within bounds in every interleaving; the flush and the quiesce are barriers; the reboot budget
  bounds the resets handed to the transport and no request is lost in a reconstruction; the boot
  event is accepted exactly with well-formed metadata, depends on nothing older and round-trips
  with the firmware's builder; the bridge accounts for each of its slots, keeps the byte order,
  and opens its streams only to a host that proved the nonce. Spinel bytes go from the radio to the
  reader of the character device, and from its writer to the radio, unchanged and in order; a session
  sees no byte of an older one. Both receive dispatchers hand on only frames that are in bounds and
  intact, and every transmit call is counted once. Command nodes are accounted for in every
  interleaving, a response completes only the command it answers, a command that timed out is gone
  for good; every request is well formed and reaches its handler; a service change leaves host and
  firmware in agreement; cfg80211 hears of a command at most once and never of a stale one.

  \<^bold>\<open>Not modelled\<close>

  SDIO, SPI and SPI-HD transports on both sides, the cfg80211 operations above the command functions, the
  Bluetooth glue, the firmware handlers around the Wi-Fi library, interface creation, statistics, debugfs and logging; IDF, the Wi-Fi and Bluetooth libraries and the
  Linux kernel are outside the repository and appear as environment.
\<close>

section \<open>Concrete instances for the witnesses\<close>

definition w_env :: usb_env where
  "w_env = \<lparr>ue_alloc_skb = (\<lambda>_ _. True), ue_kmalloc = True, ue_control_msg = (\<lambda>_. (4, 0)),
     ue_alloc_rx_urb = (\<lambda>_. True), ue_alloc_rx_buf = (\<lambda>_. True), ue_submit_rx = (\<lambda>_. 0),
     ue_alloc_urb = True, ue_alloc_tx_ctx = True, ue_submit_tx = (\<lambda>_. 0), ue_linearize = (\<lambda>_. True)\<rparr>"

definition w_kenv :: kernel_env where
  "w_kenv = \<lparr>jiffies = 100000, msecs_to_jiffies = of_nat\<rparr>"

definition w_ctx :: esp_usb_context where
  "w_ctx = (usb_fresh_context True True)\<lparr>bulk_in_addr := 0x82, bulk_out_addr := 2, bulk_in_mps := 512,
     bulk_out_mps := 512, usb_running := True,
     rx_slots := replicate 8 \<lparr>slot_urb = True, slot_buf = True, slot_armed = True\<rparr>\<rparr>"

definition w_adapter :: "esp_usb_context esp_adapter" where
  "w_adapter = (the (init_adapter True True))\<lparr>ad_if_type := ESP_IF_TYPE_USB, if_ops_bound := True,
     if_context := Some w_ctx\<rparr>"

definition w_dev :: esp_usb_device_ctx where
  "w_dev = snd (fw_usb_init True True True True True True
     \<lparr>fd_installed = False, fd_running = False, fd_rx_queue = None, fd_rx_sem = False,
      fd_rx_signal = False, fd_rx_task = False, fd_rx_stream_buf = False, fd_rx_read_buf = False,
      fd_rx_stream = [], fd_ep_mps = 0, fd_boot_cap = 0, fd_boot_ext_cap = 0,
      fd_boot_cap_valid = False, fd_ready_replay_pending = False, fd_soft_reset_pending = False,
      fd_detached_pending = False, fd_ctrl_status = 0, fd_restarted = False\<rparr>)"

definition w_poll :: tud_poll where
  "w_poll = \<lparr>tp_mounted = True, tp_available = 4096, tp_written = 4096, tp_tick = 5\<rparr>"

definition w_rcp_env :: rcp_env where
  "w_rcp_env = \<lparr>re_taken = (\<lambda>_. 0), re_gate = (\<lambda>_. True), re_to_host_size = 20, re_rx_queue_size = 16,
     re_malloc = True, re_rx_queue_create = True, re_tx_queue_create = True, re_preboot_create = True,
     re_mutex_create = True, re_pool_calloc = True\<rparr>"

definition w_bridge :: rcp_bridge where
  "w_bridge = snd (the (esp_hosted_rcp_init w_rcp_env [(0, 7)] (bridge_boot True)))"

definition w_boot_env :: "esp_usb_context boot_env" where
  "w_boot_env = \<lparr>be_validate_chipset = esp_validate_chipset, be_adjust_spi_clock = (\<lambda>_ a. (0, a)),
     be_remove_card = (\<lambda>_ a. (0, a)), be_wiphy_stale = (\<lambda>_. False), be_remove_wiphy = (\<lambda>a. (0, a)),
     be_add_card = (\<lambda>a. (0, a)), be_ota = None, be_raw_tp = None, be_publish = (\<lambda>a. (0, a)),
     be_restore_monitor = (\<lambda>a. (0, a)), be_raw_tp_start = (\<lambda>a. (0, a)),
     be_init_rcp = (\<lambda>a. (0, a)), be_init_bt = (\<lambda>a. (0, a)), be_deinit_bt = (\<lambda>a. a)\<rparr>"


lemma w_alloc: "\<forall>n c. ue_alloc_skb w_env n c"
  by (simp add: w_env_def)

lemma w_settled: "rx_settled w_ctx" "rx_stream w_ctx = []" "\<not> rx_pad_expected w_ctx" "bulk_in_mps w_ctx = 512"
  by (simp_all add: w_ctx_def usb_fresh_context_def rx_settled_def)

section \<open>The USB link\<close>

text \<open>C1: frames the firmware wrote completely at high speed arrive in the
  host's receive queue unchanged and in order, nothing else in the context changes (in
  particular no loss is reported), however the bulk transfers cut the byte stream.\<close>

theorem usb_device_to_host:
  assumes "list_all2 (fw_wrote c buffered deadline) ws outs" "fd_ep_mps c = 512"
    and "rx_settled ctx" "rx_stream ctx = []" "\<not> rx_pad_expected ctx" "bulk_in_mps ctx = 512"
    and "\<forall>n c. ue_alloc_skb env n c" "concat transfers = concat outs"
  shows "fst (host_ingest_all env transfers ctx a) =
    ctx\<lparr>rx_queue := rx_queue ctx @ map (usb_build_frame \<circ> fst) ws\<rparr>"
  using assms by (rule device_to_host)

lemma w_wrote: "fw_wrote w_dev True 1000 (fs_handle 500, [w_poll, w_poll]) (usb_build_frame (fs_handle 500) @ [0])"
proof -
  have len: "length (usb_build_frame (fs_handle 500)) = 512"
    by (simp add: length_usb_build_frame fs_handle_def)
  then obtain b bs where f: "usb_build_frame (fs_handle 500) = b # bs"
    by (cases "usb_build_frame (fs_handle 500)") auto
  have "usb_write_all True 1000 [w_poll, w_poll] (usb_build_frame (fs_handle 500)) w_dev =
      Some (0, usb_build_frame (fs_handle 500) @ [0])"
    using len f by (simp add: usb_write_all_def w_poll_def Let_def w_dev_def fw_usb_init_def usb_zero_def
        usb_write_pad_def)
  then show ?thesis
    by (simp add: fw_wrote_def fw_usb_write_def HDR_SIZE_def) (simp add: fs_handle_def)
qed

theorem usb_device_to_host_witness:
  "fst (host_ingest_all w_env [take 100 (usb_build_frame (fs_handle 500)),
       drop 100 (usb_build_frame (fs_handle 500)) @ [0]] w_ctx w_adapter) =
     w_ctx\<lparr>rx_queue := rx_queue w_ctx @ [usb_build_frame (fs_handle 500)]\<rparr>"
  using usb_device_to_host [of w_dev True 1000 "[(fs_handle 500, [w_poll, w_poll])]"
      "[usb_build_frame (fs_handle 500) @ [0]]" w_ctx w_env
      "[take 100 (usb_build_frame (fs_handle 500)), drop 100 (usb_build_frame (fs_handle 500)) @ [0]]" w_adapter]
    w_wrote w_settled w_alloc by (simp add: w_dev_def fw_usb_init_def usb_zero_def)

text \<open>C2: frames with a valid header that the host submits back to back are
  queued by the firmware one by one, in order, with nothing left over and no restart
  requested, as long as its queue has room.\<close>

theorem usb_host_to_device:
  assumes "\<forall>f \<in> set skbs. complete_frame esp_usb_valid_header f" "\<forall>n c. malloc n c"
    and "fd_rx_queue c = Some q" "fd_rx_stream c = []" "length q + length skbs \<le> 32"
  shows "usb_ingest malloc (concat skbs) c rcp =
    (0, c\<lparr>fd_rx_queue := Some (q @ map usb_frame_handle skbs)\<rparr>, rcp)"
  using assms by (rule host_to_device)

lemma w_complete: "complete_frame esp_usb_valid_header (usb_build_frame (fs_handle 3))"
  using build_frame_valid [of "fs_handle 3"] by (simp add: header_checks_agree fs_handle_def)

theorem usb_host_to_device_witness:
  "usb_ingest (\<lambda>_ _. True) (concat [usb_build_frame (fs_handle 3), usb_build_frame (fs_handle 3)]) w_dev w_bridge =
    (0, w_dev\<lparr>fd_rx_queue := Some ([] @ map usb_frame_handle [usb_build_frame (fs_handle 3), usb_build_frame (fs_handle 3)])\<rparr>, w_bridge)"
  by (rule usb_host_to_device) (use w_complete in \<open>simp_all add: w_dev_def fw_usb_init_def usb_zero_def\<close>)

text \<open>C11: one completed transfer on the host does to the context what the
  reference receiver does to the byte stream. The frames that could be stored are a
  subsequence of the frames of the reference (all of them when memory lasts), and a loss is
  reported exactly when a byte was skipped or a frame was not stored.\<close>

theorem usb_rx_refines:
  assumes "rx_settled ctx"
  shows "\<exists>gs. subseq gs (fst (host_deframe (bulk_in_mps ctx) (rx_pad_expected ctx) (rx_stream ctx @ data))) \<and>
     ((\<forall>n c. ue_alloc_skb env n c) \<longrightarrow>
        gs = fst (host_deframe (bulk_in_mps ctx) (rx_pad_expected ctx) (rx_stream ctx @ data))) \<and>
     esp_usb_ingest_loop env data ctx queued loss =
       rx_outcome ctx queued loss
         (host_deframe (bulk_in_mps ctx) (rx_pad_expected ctx) (rx_stream ctx @ data)) gs"
  using assms by (rule ingest_refines)

theorem usb_rx_refines_witness:
  "\<exists>gs. subseq gs (fst (host_deframe 512 False (usb_build_frame (fs_handle 3)))) \<and>
     ((\<forall>n c. ue_alloc_skb w_env n c) \<longrightarrow> gs = fst (host_deframe 512 False (usb_build_frame (fs_handle 3)))) \<and>
     esp_usb_ingest_loop w_env (usb_build_frame (fs_handle 3)) w_ctx False False =
       rx_outcome w_ctx False False (host_deframe 512 False (usb_build_frame (fs_handle 3))) gs"
  using usb_rx_refines [OF w_settled(1), of "usb_build_frame (fs_handle 3)" w_env False False] w_settled by simp

text \<open>C36: the accumulator of a settled context is shorter than one frame and
  stays settled after every transfer, so the branch that discards a full accumulator is
  never taken.\<close>

theorem usb_rx_bounded:
  assumes "rx_settled ctx"
  shows "length (rx_stream ctx) < 16384 \<and>
    rx_settled (fst (esp_usb_ingest_loop env data ctx queued loss))"
proof -
  obtain gs where "esp_usb_ingest_loop env data ctx queued loss =
      rx_outcome ctx queued loss
        (host_deframe (bulk_in_mps ctx) (rx_pad_expected ctx) (rx_stream ctx @ data)) gs"
    using ingest_refines [OF assms, of data env queued loss] by blast
  with rx_settled_outcome [of ctx] rx_settled_length [OF assms] assms show ?thesis
    by (simp add: rx_settled_def)
qed

theorem usb_rx_bounded_witness:
  "length (rx_stream w_ctx) < 16384 \<and> rx_settled (fst (esp_usb_ingest_loop w_env [1, 2, 3] w_ctx False False))"
  by (rule usb_rx_bounded [OF w_settled(1)])


text \<open>C38: with memory for the frame, a firmware write that returns more than
  zero has put exactly the padded frame on the wire; without memory it returns the positive
  error code 0x101 although nothing was sent.\<close>

theorem fw_write_complete:
  assumes "fw_usb_write alloc buffered deadline polls b c = Some (ret, out)" "0 < ret"
  shows "if alloc then out = emit (fw_pad_rule (fd_ep_mps c)) (usb_build_frame b) \<and> ret = int (length (bh_payload b))
     else out = [] \<and> ret = 0x101"
proof (cases alloc)
  case True
  with assms fw_usb_write_out(1,2) [of buffered deadline polls b c ret out] show ?thesis by simp
next
  case False
  with assms show ?thesis by (simp add: fw_usb_write_def split: if_splits)
qed

theorem fw_write_complete_witness:
  "\<exists>ret out. fw_usb_write True True 1000 [w_poll, w_poll] (fs_handle 500) w_dev = Some (ret, out) \<and>
     out = emit (fw_pad_rule 512) (usb_build_frame (fs_handle 500))"
proof -
  have w: "fw_usb_write True True 1000 [w_poll, w_poll] (fs_handle 500) w_dev =
      Some (500, usb_build_frame (fs_handle 500) @ [0])"
    using w_wrote by (simp add: fw_wrote_def fs_handle_def)
  have m: "fd_ep_mps w_dev = 512" by (simp add: w_dev_def fw_usb_init_def usb_zero_def)
  from fw_write_complete [OF w] w m show ?thesis by simp
qed

text \<open>C39: the firmware's polling writer returns. Every pass ends the loop, sends
  a byte or happens before the deadline, so once the passes outnumber the bytes and the
  passes before the deadline together, a result is there.\<close>

theorem fw_write_returns:
  assumes "length data + early_polls deadline polls < length polls"
  shows "\<exists>ret out. usb_write_all buffered deadline polls data c = Some (ret, out)"
  using usb_write_all_returns [OF assms, of buffered c] by auto

theorem fw_write_returns_witness:
  "\<exists>ret out. usb_write_all True 3 [w_poll, w_poll, w_poll] [1, 2] w_dev = Some (ret, out)"
  by (rule fw_write_returns) (simp add: w_poll_def)



section \<open>The wire format\<close>

text \<open>C28: the aligned two-lane checksum routine equals the plain sum of
  the bytes modulo 65536, for every alignment of the buffer.\<close>

theorem checksum_is_byte_sum: "compute_checksum addr buf = of_nat (sum_list (map unat buf))"
  by (simp add: compute_checksum_eq byte_sum_def)

text \<open>Encoding and decoding of the payload header are inverse in both
  directions, with any bytes following; decoding fails exactly on fewer than twelve bytes.\<close>

theorem header_codec:
  "header_of (header_bytes h @ rest) = Some h \<and>
   map_option header_bytes (header_of bs) = (if length bs < 12 then None else Some (take 12 bs))"
proof (cases "header_of bs")
  case None
  then show ?thesis by (simp add: header_of_eq_None_iff)
next
  case (Some k)
  then show ?thesis using header_of_SomeD [OF Some] by (simp add: header_bytes_header_of)
qed

text \<open>The span check of the wire bounds, on 32-bit lengths and a 64-bit size. It
  accepts exactly the non-empty payloads that lie, with an offset between 12 and 16, inside the
  available bytes, and the frame length it returns is the exact sum: nothing wraps.\<close>

theorem span_bounds:
  "esp_host_wire_span_valid p off avail = Some f \<longleftrightarrow>
     0 < unat p \<and> 12 \<le> unat off \<and> unat off \<le> 16 \<and>
     unat off + unat p \<le> unat avail \<and> unat f = unat off + unat p"
  by (rule span_valid_iff)

section \<open>The host USB transmit side\<close>

text \<open>C7: in every interleaving of writers, the TX worker, completions, flushes
  and quiesce, the in-flight counters equal the number of owned frames, at most four URBs are in
  flight, and the software queue holds at most 256 frames, each in the queue of its priority.\<close>

theorem usb_tx_counters:
  assumes "tx_reachable (ctx, f)"
  shows "tx_inflight ctx = int (length (tx_urbs ctx)) \<and> length (tx_urbs ctx) \<le> 4 \<and>
    rcp_tx_inflight ctx = owned ESP_RCP_IF ctx \<and> hci_tx_inflight ctx = owned ESP_HCI_IF ctx \<and>
    esp_usb_tx_queue_len ctx \<le> 256 \<and>
    (\<forall>q < 3. \<forall>skb \<in> set (tx_queue ctx q). esp_usb_tx_priority skb = q)"
  using tx_reachable_inv [OF assms] by (auto simp: counters_ok_def queues_ok_def)

lemma w_tx_reachable: "tx_reachable (snd (esp_usb_write True (usb_build_frame (fs_handle 3)) w_ctx), None)"
  by (rule tx_reachable.step [OF tx_reachable.start tx_step.admit])
    (simp add: w_ctx_def usb_fresh_context_def tx_idle_def)

theorem usb_tx_counters_witness:
  "tx_inflight (snd (esp_usb_write True (usb_build_frame (fs_handle 3)) w_ctx)) =
     int (length (tx_urbs (snd (esp_usb_write True (usb_build_frame (fs_handle 3)) w_ctx))))"
  using usb_tx_counters [OF w_tx_reachable] by simp

text \<open>C25: a flush of the HCI or RCP interface. When its second locked section
  runs (the worker is stopped), no queued frame of the interface is left, the other frames keep
  their order, and if a frame of the interface is still in flight the flush asks for a firmware
  reset, unless one is already under way or the transport is down.\<close>

theorem usb_flush_barrier:
  assumes "tx_reachable (ctx, Some (t, b))" "tx_hand ctx = None" "t = ESP_RCP_IF \<or> t = ESP_HCI_IF"
    and "flush_drain t b ctx = (inflight, ctx')"
    and "ctx'' = (if inflight then esp_usb_schedule_stateful_fail ctx' a True else ctx')"
  shows "(\<forall>q < 3. tx_queue ctx'' q = filter (\<lambda>skb. esp_usb_skb_if_type skb \<noteq> t) (tx_queue ctx q)) \<and>
    (\<forall>skb. (skb, t) \<in> set (tx_urbs ctx'') \<and> usb_running ctx \<and>
       \<not> test_bit ESP_FW_RECOVERY_PENDING a \<and> \<not> test_bit ESP_FW_RESET_EXPECTED a \<and>
       \<not> test_bit ESP_CLEANUP_IN_PROGRESS a \<and> \<not> test_bit ESP_TRANSPORT_REMOVING a \<longrightarrow>
       stateful_fail_work ctx'' \<and> stateful_fail_force ctx'')"
proof -
  have inv: "queues_ok ctx" "counters_ok ctx" using tx_reachable_inv [OF assms(1)] by auto
  have c': "ctx' = snd (flush_drain t b ctx)" and i: "inflight = (b \<or> stateful_inflight t ctx)"
    using assms(4) flush_drain_fields(8) [of t b ctx] by auto
  have "tx_queue ctx'' q = filter (\<lambda>skb. esp_usb_skb_if_type skb \<noteq> t) (tx_queue ctx q)" if "q < 3" for q
    using flush_drain_queue [OF inv(1) that, of t b] assms(5) c' by simp
  moreover have "inflight" if "(skb, t) \<in> set (tx_urbs ctx'')" for skb
  proof -
    have "tx_urbs ctx'' = tx_urbs ctx" using assms(5) c' by simp
    with that owned_urb [of skb t ctx] stateful_inflight_owned [OF inv(2) assms(3)] i show ?thesis by auto
  qed
  moreover have "stateful_fail_work ctx'' \<and> stateful_fail_force ctx''"
    if "inflight" "usb_running ctx" "\<not> test_bit ESP_FW_RECOVERY_PENDING a" "\<not> test_bit ESP_FW_RESET_EXPECTED a"
      "\<not> test_bit ESP_CLEANUP_IN_PROGRESS a" "\<not> test_bit ESP_TRANSPORT_REMOVING a"
  proof -
    have "usb_running ctx'" using c' that(2) by simp
    with that assms(5) show ?thesis by (simp add: esp_usb_schedule_stateful_fail_def)
  qed
  ultimately show ?thesis by blast
qed

theorem usb_flush_barrier_witness:
  "let ctx = snd (flush_begin ESP_RCP_IF w_ctx); ctx' = snd (flush_drain ESP_RCP_IF False ctx)
   in \<forall>q < 3. tx_queue ctx' q = filter (\<lambda>skb. esp_usb_skb_if_type skb \<noteq> ESP_RCP_IF) (tx_queue ctx q)"
proof -
  define c where "c = snd (flush_begin ESP_RCP_IF w_ctx)"
  have b: "flush_begin ESP_RCP_IF w_ctx = (False, c)"
    by (simp add: c_def flush_begin_def stateful_inflight_def w_ctx_def usb_fresh_context_def)
  have "tx_idle w_ctx" by (simp add: tx_idle_def w_ctx_def usb_fresh_context_def)
  then have r: "tx_reachable (c, Some (ESP_RCP_IF, False))"
    by (rule tx_reachable.step [OF tx_reachable.start tx_step.flush_lock [OF b]])
  have h: "tx_hand c = None" "\<not> stateful_inflight ESP_RCP_IF c"
    by (simp_all add: c_def flush_begin_def w_ctx_def usb_fresh_context_def stateful_inflight_def)
  have d: "flush_drain ESP_RCP_IF False c = (False, snd (flush_drain ESP_RCP_IF False c))"
    using flush_drain_fields(8) [of ESP_RCP_IF False c] h(2) by (simp add: prod_eq_iff)
  from usb_flush_barrier [OF r h(1) _ d refl, of w_adapter] show ?thesis
    by (simp add: c_def [symmetric] Let_def)
qed

text \<open>C40: the TX worker, run without interruption on a running transport whose
  submissions succeed, stops only with four URBs in flight or with empty queues, and asks for no
  recovery.\<close>

theorem usb_tx_drains:
  assumes "tx_env_ok env" and "tx_hand ctx = None"
    and "usb_running ctx" and "\<not> tx_quiesced ctx" and "\<not> flush_in_progress ctx"
    and "esp_usb_tx_work env ops ctx a = (ctx', a')"
  shows "a' = a \<and> tx_hand ctx' = None \<and> (4 \<le> tx_inflight ctx' \<or> esp_usb_tx_queue_len ctx' = 0)"
  using assms by (rule tx_work_drains)

theorem usb_tx_drains_witness:
  "snd (esp_usb_tx_work w_env (esp_usb_if_ops w_env) w_ctx w_adapter) = w_adapter"
  using usb_tx_drains [of w_env w_ctx "esp_usb_if_ops w_env" w_adapter
      "fst (esp_usb_tx_work w_env (esp_usb_if_ops w_env) w_ctx w_adapter)"
      "snd (esp_usb_tx_work w_env (esp_usb_if_ops w_env) w_ctx w_adapter)"]
  by (simp add: tx_env_ok_def w_env_def) (simp add: w_ctx_def usb_fresh_context_def)

section \<open>Life cycle of the host USB transport\<close>

text \<open>C33: re-arming the receive slots of a running transport whose slots have their
  memory is all or nothing: on success every slot is armed, on failure none is, and in both
  cases the accumulator starts empty.\<close>

theorem usb_rearm:
  assumes "usb_running ctx" and "list_all (\<lambda>sl. slot_urb sl \<and> slot_buf sl) (rx_slots ctx)"
    and "esp_usb_rearm_rx env ctx = (ret, ctx')"
  shows "length (rx_slots ctx') = length (rx_slots ctx) \<and> rx_stream ctx' = [] \<and> \<not> rx_pad_expected ctx' \<and>
    (if ret = 0 then list_all slot_armed (rx_slots ctx') else \<not> list_ex slot_armed (rx_slots ctx'))"
  using rearm_all_or_none [OF assms] by auto

lemma w_arm:
  "list_all (\<lambda>sl. slot_urb sl \<and> slot_buf sl) slots \<Longrightarrow> fst (usb_arm_from w_env i slots) = 0"
proof (induction w_env i slots rule: usb_arm_from.induct)
  case (1 i slots)
  then show ?case
    by (subst usb_arm_from.simps) (auto simp: w_env_def list_all_length nth_list_update)
qed

theorem usb_rearm_witness:
  "length (rx_slots (snd (esp_usb_rearm_rx w_env w_ctx))) = 8 \<and>
   list_all slot_armed (rx_slots (snd (esp_usb_rearm_rx w_env w_ctx)))"
proof -
  have c: "usb_running w_ctx" "list_all (\<lambda>sl. slot_urb sl \<and> slot_buf sl) (rx_slots w_ctx)" "length (rx_slots w_ctx) = 8"
    by (simp_all add: w_ctx_def list_all_iff)
  have "list_all (\<lambda>sl. slot_urb sl \<and> slot_buf sl) (usb_kill_slots (rx_slots w_ctx))"
    using c(2) by (simp add: usb_kill_slots_memory)
  then have "fst (esp_usb_rearm_rx w_env w_ctx) = 0"
    using c(1) w_arm by (simp add: esp_usb_rearm_rx_def esp_usb_reset_rx_stream_def Let_def case_prod_beta)
  with usb_rearm [OF c(1,2) prod.collapse [symmetric], of w_env] c(3) show ?thesis by simp
qed

text \<open>C34: after a quiesce nothing is queued, in flight or armed, and until the
  re-initialisation every write fails without a change and the TX worker takes nothing up.\<close>

theorem usb_quiesce:
  assumes "esp_usb_quiesce_for_fw_reset ctx a = (ret, ctx')"
  shows "ret = 0 \<and> esp_usb_tx_queue_len ctx' = 0 \<and> tx_urbs ctx' = [] \<and> tx_inflight ctx' = 0 \<and>
    rcp_tx_inflight ctx' = 0 \<and> hci_tx_inflight ctx' = 0 \<and> \<not> list_ex slot_armed (rx_slots ctx') \<and>
    rx_stream ctx' = [] \<and> rx_queue ctx' = [] \<and> tx_pop ctx' = ctx' \<and>
    snd (esp_usb_write lin skb ctx') = ctx' \<and> fst (esp_usb_write lin skb ctx') < 0"
  using quiesce_empties [OF assms] quiesced_rejects by simp

theorem usb_quiesce_witness:
  "tx_pop (snd (esp_usb_quiesce_for_fw_reset w_ctx w_adapter)) = snd (esp_usb_quiesce_for_fw_reset w_ctx w_adapter)"
  using usb_quiesce [of w_ctx w_adapter] by (cases "esp_usb_quiesce_for_fw_reset w_ctx w_adapter") auto

text \<open>A successful probe leaves a running context with both bulk endpoints,
  eight armed receive slots, an empty settled receiver and an idle transmitter: the states the
  transmit and receive invariants start from.\<close>

theorem usb_probe_ready:
  assumes "esp_usb_probe env c s w hs eps a = (0, a')"
  shows "\<exists>ctx. if_context a' = Some ctx \<and> tx_idle ctx \<and> rx_settled ctx \<and> usb_running ctx \<and>
    length (rx_slots ctx) = 8 \<and>
    list_all (\<lambda>sl. slot_urb sl \<and> slot_buf sl \<and> slot_armed sl) (rx_slots ctx) \<and>
    bulk_in_addr ctx \<noteq> 0 \<and> bulk_out_addr ctx \<noteq> 0"
  using assms by (rule probe_context) blast

theorem usb_probe_ready_witness:
  "\<exists>ctx. if_context (snd (esp_usb_probe w_env True True True True
      [\<lparr>ep_address = 0x82, ep_maxp = 512, ep_bulk_in = True, ep_bulk_out = False\<rparr>,
       \<lparr>ep_address = 2, ep_maxp = 512, ep_bulk_in = False, ep_bulk_out = True\<rparr>]
      (the (init_adapter True True)))) = Some ctx \<and> tx_idle ctx"
proof -
  let ?p = "esp_usb_probe w_env True True True True
      [\<lparr>ep_address = 0x82, ep_maxp = 512, ep_bulk_in = True, ep_bulk_out = False\<rparr>,
       \<lparr>ep_address = 2, ep_maxp = 512, ep_bulk_in = False, ep_bulk_out = True\<rparr>] (the (init_adapter True True))"
  have start: "fst (esp_usb_start_rx w_env is c) = 0" for "is" c
    by (induction "is" arbitrary: c) (simp_all add: w_env_def Let_def)
  have "if_context (the (init_adapter True True)) = None" by (simp add: init_adapter_def)
  moreover have "fst (esp_usb_find_endpoints
      [\<lparr>ep_address = 0x82, ep_maxp = 512, ep_bulk_in = True, ep_bulk_out = False\<rparr>,
       \<lparr>ep_address = 2, ep_maxp = 512, ep_bulk_in = False, ep_bulk_out = True\<rparr>] (usb_fresh_context True True)) = 0"
    by (simp add: usb_fresh_context_def)
  ultimately have "fst ?p = 0"
    unfolding esp_usb_probe_def Let_def
    by (simp add: case_prod_beta start del: esp_usb_find_endpoints.simps)
  then have "?p = (0, snd ?p)" by (metis prod.collapse)
  from usb_probe_ready [OF this] show ?thesis by blast
qed

section \<open>Recovery\<close>



text \<open>C19: recovery requests that arrive during a reconstruction (any number
  below 2 ^ 32) survive its commit: recovery stays pending, only reception is open, the worker is
  armed with the quiet time and an expected reset stays expected. Without a request the commit
  opens the transport and disarms the worker.\<close>

theorem recovery_commit:
  assumes "\<not> test_bit ESP_DRIVER_UNLOADING a" "\<not> test_bit ESP_TRANSPORT_REMOVING a"
    "length reqs < 2 ^ 32"
    "b = fold (\<lambda>(d, r, fw_reset). esp_schedule_recovery (esp_usb_if_ops env) d r fw_reset) reqs
           (esp_begin_reconstruction a)"
    "c = esp_commit_reconstruction b"
  shows "if reqs = []
     then ad_state c = ESP_CONTEXT_READY \<and> \<not> test_bit ESP_FW_RECOVERY_PENDING c \<and>
          \<not> test_bit ESP_FW_RESET_EXPECTED c \<and> fw_recovery_work c = None
     else ad_state c = ESP_CONTEXT_RX_READY \<and> test_bit ESP_FW_RECOVERY_PENDING c \<and>
          fw_recovery_work c = Some 500 \<and>
          ((\<exists>(d, r, fw_reset) \<in> set reqs. fw_reset) \<longrightarrow> test_bit ESP_FW_RESET_EXPECTED c)"
  using assms by (rule usb_recovery.commit_keeps_requests)

theorem recovery_commit_witness:
  "ad_state (esp_commit_reconstruction (esp_schedule_recovery (esp_usb_if_ops w_env) 500 False True
     (esp_begin_reconstruction w_adapter))) = ESP_CONTEXT_RX_READY"
proof -
  have "\<not> test_bit ESP_DRIVER_UNLOADING w_adapter" "\<not> test_bit ESP_TRANSPORT_REMOVING w_adapter"
    by (simp_all add: w_adapter_def init_adapter_def flag_defs)
  from recovery_commit [OF this, of "[(500, False, True)]" _ w_env, OF _ refl refl] show ?thesis by simp
qed

text \<open>C30: a reboot attempt whose deadline has passed is followed by the next
  counted attempt or, after the third, by the terminal state; the cleanup and reconstruction
  flags cannot mask it.\<close>

theorem recovery_expired:
  assumes "\<not> test_bit ESP_DRIVER_UNLOADING a" "\<not> test_bit ESP_TRANSPORT_REMOVING a"
    "\<not> test_bit ESP_FW_RECOVERY_EXHAUSTED a" "fw_boot_deadline a \<noteq> 0"
    "time_after_eq (jiffies kenv) (fw_boot_deadline a)"
    "\<not> test_bit ESP_INIT_DONE a \<or> test_bit ESP_FW_RECOVERY_PENDING a \<or> test_bit ESP_FW_RESET_EXPECTED a"
    "b = esp_fw_recovery_work kenv (esp_usb_if_ops env) a"
  shows "if fw_boot_reset_attempts a < 3
     then fw_boot_reset_attempts b = fw_boot_reset_attempts a + 1 \<and>
          fw_boot_deadline b = jiffies kenv + msecs_to_jiffies kenv 9000
     else test_bit ESP_FW_RECOVERY_EXHAUSTED b \<and> fw_boot_deadline b = 0"
  using assms by (rule usb_recovery.worker_expired)

theorem recovery_expired_witness:
  "fw_boot_reset_attempts (esp_fw_recovery_work w_kenv (esp_usb_if_ops w_env)
     (w_adapter\<lparr>fw_boot_deadline := 7, fw_boot_reset_attempts := 1,
        state_flags := {ESP_CLEANUP_IN_PROGRESS, ESP_FW_RESET_EXPECTED}\<rparr>)) = 2"
proof -
  let ?a = "w_adapter\<lparr>fw_boot_deadline := 7, fw_boot_reset_attempts := 1,
        state_flags := {ESP_CLEANUP_IN_PROGRESS, ESP_FW_RESET_EXPECTED}\<rparr>"
  have "time_after_eq (jiffies w_kenv) (fw_boot_deadline ?a)"
    by (simp add: w_kenv_def time_after_eq_def)
  with recovery_expired [of ?a w_kenv _ w_env] show ?thesis by (simp add: flag_defs)
qed

section \<open>The boot event\<close>

text \<open>C26: when the decision part of the boot handler accepts an event over USB, the
  metadata is well formed: the transport's capability bit is announced, the chip is the
  ESP32-S31, the aggregation size is absent or a multiple of 512 up to 16384, a base MAC is a
  unicast address with a universal count of 1, 2 or 4, and a nonce is there exactly when an
  active radio co-processor needs one.\<close>

theorem boot_accept:
  assumes "boot_decide (usb_boot_env env) evt a = (0, a')"
  shows "boot_accepted (\<lambda>c. c = 0x20) a'"
  using assms by (rule usb_boot.decide_accepts)

lemma w_usb: "ad_if_type w_adapter = ESP_IF_TYPE_USB"
  by (simp add: w_adapter_def)

theorem boot_accept_witness:
  "boot_accepted (\<lambda>c. c = 0x20) (boot_announced 0x200 0 (Some [2, 0, 0, 0, 0, 1]) 4 w_adapter)"
  using boot_accept [OF usb_event_decided [OF w_usb, of "Some [2, 0, 0, 0, 0, 1]" "0x200" 0 w_boot_env 4 1]]
  by simp

text \<open>The decision and the metadata depend on the event and the transport
  type alone: nothing is inherited from the previous firmware incarnation.\<close>

theorem boot_event_only:
  assumes "ad_if_type a = ad_if_type b"
    "boot_decide (usb_boot_env env) evt a = (r, a')" "boot_decide (usb_boot_env env) evt b = (r', b')"
  shows "r = r' \<and> boot_meta a' = boot_meta b'"
  using assms by (rule usb_boot.decide_event_only)

theorem boot_event_only_witness:
  "fst (boot_decide (usb_boot_env w_boot_env) [3, 1, 0x20] w_adapter) =
   fst (boot_decide (usb_boot_env w_boot_env) [3, 1, 0x20] (w_adapter\<lparr>capabilities := 0x200, chipset := 0x20\<rparr>))"
  by (rule conjunct1 [OF boot_event_only [OF _ prod.collapse [symmetric] prod.collapse [symmetric]]]) simp

text \<open>C10: the event the USB firmware builds is structurally valid for the host,
  its TLVs are recovered exactly, and the host accepts it and reads back the capabilities, the
  chip, the MAC and the buffer size the firmware announced.\<close>

theorem boot_round_trip:
  assumes "ad_if_type a = ESP_IF_TYPE_USB" "\<forall>m. mac = Some m \<longrightarrow> length m = 6 \<and> (\<exists>b \<in> set m. b \<noteq> 0)"
    "cap AND ESP_WLAN_USB_SUPPORT \<noteq> 0"
    "ext AND ESP_EXT_CAP_RCP = 0 \<or> ext AND ESP_EXT_CAP_RADIO_SERVICE_CTRL \<noteq> 0"
    "send_bootup_event_to_host True True 0x20 mac universal rr cap ext c = (0, Some b, c')"
  shows "esp_bootup_event_structurally_valid (bh_payload b) \<and>
    boot_decide (usb_boot_env env) (take (unat (bh_payload b ! 4)) (drop 8 (bh_payload b))) a =
      (0, boot_announced cap ext mac universal a)"
proof -
  let ?t = "bootup_tlvs 0x20 cap ext mac universal rr"
  have p: "bh_payload b = bootup_event_bytes ?t"
    using assms(5) by (auto simp: send_bootup_event_to_host_def Let_def)
  have "length ?t < 256" using length_bootup_tlvs [of "0x20" cap ext mac universal rr] by simp
  note f = bootup_event_framed [OF this p]
  show ?thesis using f(1,2) usb_event_decided [OF assms(1-4), of env universal rr] by simp
qed

theorem boot_round_trip_witness:
  "\<exists>b. fst (snd (send_bootup_event_to_host True True 0x20 None 1 1 0x200 0 w_dev)) = Some b \<and>
     boot_decide (usb_boot_env w_boot_env) (take (unat (bh_payload b ! 4)) (drop 8 (bh_payload b))) w_adapter =
      (0, boot_announced 0x200 0 None 1 w_adapter)"
proof -
  obtain b c where s: "send_bootup_event_to_host True True 0x20 None 1 1 0x200 0 w_dev = (0, Some b, c)"
    by (simp add: send_bootup_event_to_host_def Let_def)
  from boot_round_trip [OF w_usb _ _ _ s, of w_boot_env] s show ?thesis by simp
qed


text \<open>A structurally invalid boot event never reaches the parser: recovery is
  pending, a reset is expected, and a reset is in flight or the budget is exhausted (the clock
  reading at which the deadline word is zero apart).\<close>

theorem boot_malformed:
  assumes "\<not> esp_bootup_event_structurally_valid skb" "\<not> boot_going_away a"
    "b = process_esp_bootup_event benv kenv (esp_usb_if_ops env) skb a"
  shows "test_bit ESP_FW_RECOVERY_PENDING b \<and> test_bit ESP_FW_RESET_EXPECTED b \<and>
    (fw_boot_deadline b \<noteq> 0 \<or> test_bit ESP_FW_RECOVERY_EXHAUSTED b \<or>
     jiffies kenv + msecs_to_jiffies kenv 9000 = 0)"
proof -
  have a: "\<not> test_bit ESP_DRIVER_UNLOADING a" "\<not> test_bit ESP_TRANSPORT_REMOVING a"
    using assms(2) by (auto simp: boot_going_away_def)
  define s where "s = esp_schedule_recovery (esp_usb_if_ops env) 500 False True a"
  have b: "b = esp_request_firmware_restart kenv (esp_usb_if_ops env) s"
    using assms(1,3) by (simp add: process_esp_bootup_event_def esp_schedule_fw_reset_recovery_def s_def)
  show ?thesis
    unfolding b using usb_recovery.schedule_effect(1) [OF a s_def] usb_recovery.restart_armed [of kenv env s]
    by (simp add: usb_recovery.restart_flags)
qed

theorem boot_malformed_witness:
  "test_bit ESP_FW_RECOVERY_PENDING
     (process_esp_bootup_event w_boot_env w_kenv (esp_usb_if_ops w_env) [1, 1] w_adapter)"
  using boot_malformed [of "[1, 1]" w_adapter _ w_boot_env w_kenv w_env]
  by (simp add: esp_bootup_event_structurally_valid_def boot_going_away_def w_adapter_def init_adapter_def flag_defs)

section \<open>The radio co-processor bridge of the firmware\<close>

text \<open>C9: in every reachable state of the bridge the eight transmit slots are
  accounted for exactly once (free, in the startup queue or in the queue to the host), nothing is
  left behind the startup gate once the host is ready, and the host is ready only after it has
  proved the nonce of a running bridge, which is not zero.\<close>

theorem bridge_slots:
  assumes "bridge_reachable s"
  shows "mset (free_slots s) + slots_of (preboot s) + slots_of (to_host_mid s) =
      (if s_tx_pool s then mset [0..<8] else {#}) \<and>
    (s_host_ready s \<longrightarrow> preboot s = [] \<and> s_host_session_ready s) \<and>
    (s_host_session_ready s \<longrightarrow> s_bridge_enabled s \<and> s_session_nonce s \<noteq> 0)"
  using bridge_reachable_inv [OF assms] by (auto simp: bridge_inv_def pool_ok_def)

lemma w_bridge_init: "esp_hosted_rcp_init w_rcp_env [(0, 7)] (bridge_boot True) = Some (0, w_bridge)"
  by (simp add: w_bridge_def esp_hosted_rcp_init_def bridge_boot_def w_rcp_env_def Let_def)

lemma w_bridge_reachable: "bridge_reachable w_bridge"
  by (rule bridge_reachable.init [OF bridge_reachable.boot _ w_bridge_init]) (simp add: bridge_boot_def)

theorem bridge_slots_witness:
  "mset (free_slots w_bridge) + slots_of (preboot w_bridge) + slots_of (to_host_mid w_bridge) =
      (if s_tx_pool w_bridge then mset [0..<8] else {#})"
  using bridge_slots [OF w_bridge_reachable] by blast

text \<open>C12: the host-to-radio direction is a byte pipe: for every sequence of chunks
  from the host and reads of the radio, what was pending followed by what was accepted equals
  what was read followed by what is pending now. No byte is lost, duplicated or reordered.\<close>

theorem bridge_fifo:
  assumes "bridge_reachable s" "pipe_run (rcp_accept env) esp_hosted_rcp_read ops s = (inn, out, s')"
  shows "h2e_bytes s @ inn = out @ h2e_bytes s'"
  using rcp_h2e.run_fifo [OF _ assms(2)] bridge_reachable_inv [OF assms(1)] by (simp add: bridge_inv_def)

theorem bridge_fifo_witness:
  "case pipe_run (rcp_accept w_rcp_env) esp_hosted_rcp_read [Put [1, 2], Get 1] w_bridge of
     (inn, out, s') \<Rightarrow> h2e_bytes w_bridge @ inn = out @ h2e_bytes s'"
proof -
  obtain i u v where r: "pipe_run (rcp_accept w_rcp_env) esp_hosted_rcp_read [Put [1, 2], Get 1] w_bridge = (i, u, v)"
    by (metis prod_cases3)
  from bridge_fifo [OF w_bridge_reachable r] r show ?thesis by simp
qed

text \<open>C29: a send of the radio on a running bridge appends chunks of at most 1400 bytes
  to the stream to the host, in order; on success they carry exactly the data, on failure a
  prefix of it, and then the fatal restart is requested.\<close>

theorem bridge_send:
  assumes "bridge_reachable s" "s_bridge_enabled s" "esp_hosted_rcp_send_to_host env data s = (ret, s')"
  shows "\<exists>cs rest. e2h_stream s' = e2h_stream s @ cs \<and> data = concat (map bh_payload cs) @ rest \<and>
    (\<forall>c \<in> set cs. bh_if_type c = 5 \<and> bh_pkt_type c = 0 \<and> bh_payload c \<noteq> [] \<and> length (bh_payload c) \<le> 1400) \<and>
    (if ret = 0 then rest = [] else s_rcp_fatal_task s \<longrightarrow> s_rcp_fatal_pending s')"
  using send_packet_inv(3) [OF bridge_reachable_inv [OF assms(1)] _ assms(2)] assms(3)
  unfolding esp_hosted_rcp_send_to_host_def send_outcome_def rcp_chunks_def by fastforce

theorem bridge_send_witness:
  "\<exists>cs rest. e2h_stream (snd (esp_hosted_rcp_send_to_host w_rcp_env [1, 2, 3] w_bridge)) = e2h_stream w_bridge @ cs \<and>
     [1, 2, 3] = concat (map bh_payload cs) @ rest"
proof -
  have "s_bridge_enabled w_bridge"
    by (simp add: w_bridge_def esp_hosted_rcp_init_def bridge_boot_def w_rcp_env_def Let_def)
  from bridge_send [OF w_bridge_reachable this, of w_rcp_env "[1, 2, 3]"] show ?thesis
    by (cases "esp_hosted_rcp_send_to_host w_rcp_env [1, 2, 3] w_bridge") auto
qed

text \<open>C24: the session marker with the current nonce, when nothing times out,
  publishes everything held back at startup first and then exactly one acknowledgement with the
  same nonce; the bridge is then ready and nothing is left behind the gate.\<close>

theorem bridge_session:
  assumes "bridge_reachable s" "s_bridge_enabled s"
    "esp_hosted_rcp_session_start_from_host env 1 (s_session_nonce s) s = (0, s')"
  shows "\<exists>ack. s_host_ready s' \<and> s_host_session_ready s' \<and> e2h_stream s' = e2h_stream s @ [ack] \<and>
    bh_pkt_type ack = 5 \<and> bh_payload ack = session_marker 1 (s_session_nonce s) \<and> preboot s' = []"
  using bridge_reachable_inv [OF assms(1)] assms(2,3) by (rule session_start_success) blast

theorem bridge_session_witness:
  "s_host_ready (snd (esp_hosted_rcp_session_start_from_host w_rcp_env 1 7 w_bridge))"
proof -
  have b: "s_bridge_enabled w_bridge" "s_session_nonce w_bridge = 7"
    by (simp_all add: w_bridge_def esp_hosted_rcp_init_def bridge_boot_def w_rcp_env_def Let_def)
  have "fst (esp_hosted_rcp_session_start_from_host w_rcp_env 1 7 w_bridge) = 0" by code_simp
  then have "esp_hosted_rcp_session_start_from_host w_rcp_env 1 (s_session_nonce w_bridge) w_bridge =
      (0, snd (esp_hosted_rcp_session_start_from_host w_rcp_env 1 7 w_bridge))"
    by (simp add: b(2) prod_eq_iff)
  from bridge_session [OF w_bridge_reachable b(1) this] show ?thesis by blast
qed

text \<open>A session marker with another version or another nonce, and stream data
  before the current nonce was proved, change nothing and are no error.\<close>

theorem bridge_stale:
  assumes "version \<noteq> 1 \<or> nonce \<noteq> s_session_nonce s" "data \<noteq> []"
  shows "esp_hosted_rcp_session_start_from_host env version nonce s = (0, s) \<and>
    (\<not> s_host_session_ready s \<longrightarrow> esp_hosted_rcp_rx_from_host env data s = (0, s))"
  using assms session_start_stale [of version nonce s env]
  by (auto simp: esp_hosted_rcp_rx_from_host_def)

theorem bridge_stale_witness:
  "esp_hosted_rcp_session_start_from_host w_rcp_env 1 8 w_bridge = (0, w_bridge)"
proof -
  have "s_session_nonce w_bridge = 7"
    by (simp add: w_bridge_def esp_hosted_rcp_init_def bridge_boot_def w_rcp_env_def Let_def)
  with bridge_stale [of 1 8 w_bridge "[1]" w_rcp_env] show ?thesis by simp
qed

section \<open>The radio byte stream end to end\<close>

definition w_session :: rcp_bridge where
  "w_session = snd (esp_hosted_rcp_session_start_from_host w_rcp_env 1 7 w_bridge)"

definition w_endpoint :: rcp_dev where
  "w_endpoint = rcp_dev_zero\<lparr>rcp_queue_initialized := True, rcp_registered := True, rcp_opened := True,
     rcp_ever_opened := True, rcp_generation := 1, rcp_adapter := Some 0, rcp_session_acked_nonce := 7,
     rcp_session_active := True\<rparr>"

definition w_file :: rcp_file where
  "w_file = \<lparr>f_generation = Some 1, f_nonblock = True\<rparr>"

definition w_rkenv :: rcp_kenv where
  "w_rkenv = \<lparr>rk_kzalloc = True, rk_alloc_skb = True, rk_copy_from_user = True, rk_copy_to_user = True,
     rk_misc_register = 0\<rparr>"

definition w_open :: "esp_usb_context esp_adapter" where
  "w_open = w_adapter\<lparr>ad_state := ESP_CONTEXT_READY, state_flags := {ESP_INIT_DONE}, ext_capabilities := 0x8000,
     capabilities := 0x200, rcp_session_nonce := 7\<rparr>"

definition w_main :: fw_main where
  "w_main = \<lparr>fm_rcp = w_session, station_connected = True, association_ongoing = False, station_authorized = True,
     softap_started = False, s_radio_service = 2, s_radio_service_command_seen = True, active_cmd_code = 0, active_cmd_seq = 0,
     s_cmd_in_progress = False, to_host_high = [], to_host_low = [], fm_sent = [], fm_out = []\<rparr>"

definition w_fe :: fw_env where
  "w_fe = \<lparr>fe_rcp_env = w_rcp_env, fe_hosted_rcp = True, fe_checksum = False, fe_bt_hci = True,
     fe_rx_buf_size = 16384, fe_cmd_dispatch = (\<lambda>_ _ m. m), fe_initialise_bluetooth = 0, fe_fatal_task = True,
     fe_random = [(0, 7)], fe_backend = RCP_OPENTHREAD 0\<rparr>"

lemma w_session_facts:
  "s_bridge_enabled w_session" "s_rx_queue w_session = Some []" "esp_hosted_rcp_fail_closed_required w_session"
  "h2e_bytes w_session = []" "fst (esp_hosted_rcp_send_to_host w_rcp_env [1, 2, 3] w_session) = 0"
  "e2h_stream (snd (esp_hosted_rcp_send_to_host w_rcp_env [1, 2, 3] w_session)) =
     e2h_stream w_session @ [rcp_handle 0 1 [1, 2, 3]]"
  by code_simp+


lemma w_established: "rcp_established w_file 0 w_endpoint w_open" "rcp_queue_initialized w_endpoint"
  "rcp_rx_q w_endpoint = []" "capabilities w_open AND 0x80 = 0" "esp_rcp_session_ready w_open"
  by (simp_all add: rcp_established_def esp_rcp_file_is_current_def esp_rcp_session_ready_def w_file_def
      w_endpoint_def w_open_def w_adapter_def init_adapter_def rcp_dev_zero_def flag_defs)




text \<open>C4: a write of user space that returns the count \<open>r\<close> has put frames behind the
  queued ones that, sent to the firmware and dispatched there, append exactly the first \<open>r\<close>
  bytes to what the radio can read, when the firmware has room for them.\<close>

theorem rcp_user_to_radio:
  assumes "esp_rcp_write renv (esp_usb_if_ops env) f data s a = (Some r, s', a')"
    and "esp_rcp_file_is_current f s" "esp_rcp_session_ready a" "rcp_adapter s \<noteq> None" "0 \<le> r"
    and "usb_mid_queue a' = usb_mid_queue a @ frames"
    and "\<forall>n c. malloc n c" "fd_rx_queue c = Some []" "fd_rx_stream c = []" "length frames \<le> 32"
    and "usb_ingest malloc (concat frames) c rcp = (ret, c', rcp')"
    and "fe_hosted_rcp fe" "fe_checksum fe \<longrightarrow> capabilities a AND 0x80 \<noteq> 0" "1415 \<le> fe_rx_buf_size fe"
      "bridge_room (fe_rcp_env fe) (length frames) (fm_rcp m)"
  shows "ret = 0 \<and> h2e_bytes (fm_rcp (fold (\<lambda>b. process_rx_pkt fe (bh_payload b)) (the (fd_rx_queue c')) m)) =
    h2e_bytes (fm_rcp m) @ take (nat r) data"
  using assms by (rule user_to_radio)

theorem rcp_user_to_radio_witness:
  "h2e_bytes (fm_rcp (fold (\<lambda>b. process_rx_pkt w_fe (bh_payload b))
     (the (fd_rx_queue (fst (snd (usb_ingest (\<lambda>_ _. True) (concat [rcp_frame w_open [1, 2, 3]]) w_dev w_session))))) w_main)) =
   [1, 2, 3]"
proof -
  let ?ctx = "w_ctx\<lparr>tx_queue := (tx_queue w_ctx)(1 := [rcp_frame w_open [1, 2, 3]]), tx_work := True\<rparr>"
  let ?a = "w_open\<lparr>if_context := Some ?ctx\<rparr>"
  have len: "length (rcp_frame w_open [1, 2, 3]) = 16"
    using rcp_frame_fields(2) [of "[1, 2, 3]" w_open] by (simp add: esp_pad_len_def HDR_SIZE_def)
  have send: "esp_send_packet (esp_usb_if_ops w_env) (rcp_frame w_open [1, 2, 3]) w_open = (0, ?a)"
    using len tx_priority_rcp [of w_open "[1, 2, 3]"]
    by (simp add: esp_send_packet_def if_op_def esp_usb_if_ops_def with_context_def esp_usb_write_def w_open_def
        w_adapter_def init_adapter_def flag_defs w_ctx_def usb_fresh_context_def esp_usb_tx_queue_len_def upt_3
        w_env_def Let_def)
  have cur: "esp_rcp_file_is_current w_file (w_endpoint\<lparr>rcp_tx_slots := n\<rparr>)" for n
    by (simp add: esp_rcp_file_is_current_def w_file_def w_endpoint_def)
  have cur0: "esp_rcp_file_is_current w_file w_endpoint"
    by (simp add: esp_rcp_file_is_current_def w_file_def w_endpoint_def)
  have ep: "rcp_tx_slots w_endpoint = 0" "rcp_adapter w_endpoint = Some 0"
    by (simp_all add: w_endpoint_def rcp_dev_zero_def)
  have chunk: "esp_rcp_send_chunk w_rkenv (esp_usb_if_ops w_env) w_file 0 [1, 2, 3] w_endpoint w_open =
      (Some 0, w_endpoint\<lparr>rcp_tx_slots := 1\<rparr>, ?a)"
    using send cur cur0 ep w_established(5)
    by (simp add: esp_rcp_send_chunk_def esp_rcp_reserve_tx_slot_def rcp_publish_chunk_def w_rkenv_def flip: rcp_frame_def)
  have wr: "esp_rcp_write w_rkenv (esp_usb_if_ops w_env) w_file [1, 2, 3] w_endpoint w_open =
      (Some 3, w_endpoint\<lparr>rcp_tx_slots := 1\<rparr>, ?a)"
    using chunk cur0 ep w_established(5)
    by (simp add: esp_rcp_write_def esp_rcp_adapter_snapshot_def rcp_write_loop.simps)
  have mid: "usb_mid_queue ?a = usb_mid_queue w_open @ [rcp_frame w_open [1, 2, 3]]"
    by (simp add: usb_mid_queue_def w_open_def w_adapter_def w_ctx_def usb_fresh_context_def)
  have dev: "fd_rx_queue w_dev = Some []" "fd_rx_stream w_dev = []"
    by (simp_all add: w_dev_def fw_usb_init_def usb_zero_def)
  have room: "bridge_room (fe_rcp_env w_fe) (length [rcp_frame w_open [1, 2, 3]]) (fm_rcp w_main)"
    using w_session_facts by (simp add: bridge_room_def w_fe_def w_main_def w_rcp_env_def)
  have fe: "fe_hosted_rcp w_fe" "fe_checksum w_fe \<longrightarrow> capabilities w_open AND 0x80 \<noteq> 0" "1415 \<le> fe_rx_buf_size w_fe"
    by (simp_all add: w_fe_def)
  have "rcp_adapter w_endpoint \<noteq> None" "\<forall>n c. (\<lambda>_ _. True) n c" "(0 :: int) \<le> 3" "length [rcp_frame w_open [1, 2, 3]] \<le> 32"
    by (simp_all add: ep)
  note side = this
  obtain ret c rcp where i: "usb_ingest (\<lambda>_ _. True) (concat [rcp_frame w_open [1, 2, 3]]) w_dev w_session = (ret, c, rcp)"
    by (metis prod_cases3)
  from rcp_user_to_radio [OF wr cur0 w_established(5) side(1,3) mid side(2) dev side(4) i fe room]
  show ?thesis unfolding i by (simp add: w_main_def w_session_facts)
qed

text \<open>C14: the endpoint as seen by a reader: for every sequence of received chunks and
  reads that ends with the session still established, what was readable before followed by what
  was accepted equals what was read followed by what is readable now.\<close>

theorem rcp_user_pipe:
  assumes "rcp_queue_initialized s"
    "pipe_run (rcp_user_put kenv (esp_usb_if_ops env) i) (rcp_user_get renv f) ops (s, a) = (inn, out, s', a')"
    "rcp_established f i s' a'"
  shows "rcp_established f i s a \<and> concat (rcp_rx_q s) @ inn = out @ concat (rcp_rx_q s')"
  using usb_user.run_alive_fifo [of "(s, a)" kenv env i renv f ops inn out "(s', a')"] assms by simp

theorem rcp_user_pipe_witness:
  "case pipe_run (rcp_user_put w_kenv (esp_usb_if_ops w_env) 0) (rcp_user_get w_rkenv w_file) [Put [1, 2, 3], Get 2]
     (w_endpoint, w_open) of (inn, out, s', a') \<Rightarrow> inn = [1, 2, 3] \<and> out = [1, 2] \<and> concat (rcp_rx_q s') = [3]"
proof -
  let ?e = "w_endpoint\<lparr>rcp_rx_q := [[3]]\<rparr>"
  have cur: "esp_rcp_file_is_current w_file (w_endpoint\<lparr>rcp_rx_q := q\<rparr>)" for q
    by (simp add: esp_rcp_file_is_current_def w_file_def w_endpoint_def)
  have run: "pipe_run (rcp_user_put w_kenv (esp_usb_if_ops w_env) 0) (rcp_user_get w_rkenv w_file) [Put [1, 2, 3], Get 2]
      (w_endpoint, w_open) = ([1, 2, 3], [1, 2], ?e, w_open)"
    using established_rx [OF w_established(2,1), of w_kenv "esp_usb_if_ops w_env" "[1, 2, 3]"] w_established(3)
    by (simp add: rcp_user_put_def rcp_user_get_def esp_rcp_read_def esp_rcp_dequeue_current_def cur rcp_read_copy_def
        esp_rcp_requeue_current_def w_rkenv_def)
  have "rcp_established w_file 0 ?e w_open"
    using w_established(1) by (simp add: rcp_established_def esp_rcp_file_is_current_def)
  from rcp_user_pipe [OF w_established(2) run this] run show ?thesis by simp
qed

text \<open>C16: in every reachable state of the endpoint, an open one is active and registered
  with a generation that is not zero, a closed one holds no readable byte, at most 64 frames wait
  for the acknowledgement, at most 65 are readable (one may come back from a reader), and at most
  64 transmit slots are taken.\<close>

theorem rcp_endpoint:
  assumes "rcp_reachable ops (s, hand)"
  shows "(rcp_opened s \<longrightarrow> rcp_session_active s \<and> rcp_registered s \<and> rcp_generation s \<noteq> 0) \<and>
    (\<not> rcp_opened s \<longrightarrow> rcp_rx_q s = []) \<and> length (rcp_early_q s) \<le> 64 \<and> length (rcp_rx_q s) \<le> 65 \<and>
    0 \<le> rcp_tx_slots s \<and> rcp_tx_slots s \<le> 64"
  using rcp_reachable_inv [OF assms] by (auto simp: rcp_dev_inv_def split: if_splits)

theorem rcp_endpoint_witness:
  "length (rcp_early_q (snd (esp_init_rcp w_rkenv 0 w_open rcp_dev_zero))) \<le> 64"
proof -
  have "rcp_reachable (esp_usb_if_ops w_env) (snd (esp_init_rcp w_rkenv 0 w_open rcp_dev_zero), None)"
    by (rule rcp_reachable.step [OF rcp_reachable.start rcp_step.init [OF prod.collapse [symmetric]]])
  from rcp_endpoint [OF this] show ?thesis by simp
qed

text \<open>C17: the session boundary of an open. Frames received between the start marker
  and its acknowledgement are readable afterwards, behind the startup frames, when this is the first
  open of the firmware incarnation; a later open starts with nothing to read.\<close>

theorem rcp_session_boundary:
  fixes a b :: "'c esp_adapter"
  assumes "rcp_open_begin env ops s a = (Inr g, s1, a1)" "\<not> rcp_boot_pending s" "rcp_queue_initialized s"
    and "rcp_adapter s = Some i" "esp_rcp_session_ready b" "rcp_session_nonce b \<noteq> 0"
    and "\<not> rcp_ever_opened s \<Longrightarrow> length (rcp_early_q s) + length skbs \<le> 64"
    and "rcp_rx_all kenv ops i skbs s1 b = (s2, b2)"
    and "s3 = esp_rcp_session_ack i (session_marker 1 (rcp_session_nonce b)) b s2"
  shows "rcp_rx_q s3 = (if rcp_ever_opened s then [] else rcp_early_q s @ skbs) \<and> rcp_early_q s3 = [] \<and>
    rcp_session_acked_nonce s3 = rcp_session_nonce b \<and>
    esp_rcp_file_is_current \<lparr>f_generation = Some g, f_nonblock = nb\<rparr> s3"
  using session_boundary [OF assms] by (simp add: esp_rcp_file_is_current_def)

lemma w_open_begin:
  "rcp_open_begin w_rkenv (esp_usb_if_ops w_env) (w_endpoint\<lparr>rcp_opened := False, rcp_ever_opened := e\<rparr>) w_open =
     (Inr 1, w_endpoint\<lparr>rcp_opening_first := \<not> e, rcp_ever_opened := e, rcp_session_acked_nonce := 0\<rparr>,
      snd (snd (rcp_open_begin w_rkenv (esp_usb_if_ops w_env) (w_endpoint\<lparr>rcp_opened := False, rcp_ever_opened := e\<rparr>) w_open)))"
proof -
  have "length (esp_tx_frame 5 0 5 False (session_marker 1 7)) = 24"
    by (simp add: length_esp_tx_frame session_marker_fields esp_pad_len_def HDR_SIZE_def)
  then have "fst (esp_rcp_send_session_start w_rkenv (esp_usb_if_ops w_env) w_open) = 0"
    by (simp add: esp_rcp_send_session_start_def esp_send_packet_def if_op_def esp_usb_if_ops_def with_context_def
        esp_usb_write_def w_open_def w_adapter_def init_adapter_def flag_defs w_ctx_def usb_fresh_context_def
        esp_usb_tx_queue_len_def upt_3 w_env_def w_rkenv_def Let_def)
  with w_established(5) show ?thesis
    by (simp add: rcp_open_begin_def w_rkenv_def w_endpoint_def rcp_dev_zero_def case_prod_beta Let_def)
qed

theorem rcp_session_boundary_witness:
  "rcp_rx_q (esp_rcp_session_ack 0 (session_marker 1 7) w_open (fst (rcp_rx_all w_kenv (esp_usb_if_ops w_env) 0 [[9]]
     (w_endpoint\<lparr>rcp_opening_first := True, rcp_ever_opened := False, rcp_session_acked_nonce := 0\<rparr>) w_open))) = [[9]]"
proof -
  let ?s = "w_endpoint\<lparr>rcp_opening_first := True, rcp_ever_opened := False, rcp_session_acked_nonce := 0\<rparr>"
  have o: "rcp_open_begin w_rkenv (esp_usb_if_ops w_env) (w_endpoint\<lparr>rcp_opened := False, rcp_ever_opened := False\<rparr>) w_open =
     (Inr 1, ?s, snd (snd (rcp_open_begin w_rkenv (esp_usb_if_ops w_env)
        (w_endpoint\<lparr>rcp_opened := False, rcp_ever_opened := False\<rparr>) w_open)))"
    using w_open_begin [of False] by simp
  have n: "rcp_session_nonce w_open = 7" by (simp add: w_open_def)
  show ?thesis
    using rcp_session_boundary [OF o, of 0 w_open "[[9]]" w_kenv _ _ _ False, OF _ _ _ w_established(5) _ _ prod.collapse [symmetric] refl]
    by (simp add: n w_endpoint_def rcp_dev_zero_def)
qed

section \<open>Dispatchers and the network path\<close>

text \<open>C18: the receive dispatcher of the firmware takes an aggregate apart exactly: a buffer
  of valid frames, each a multiple of four bytes long, with any number of zero bytes behind them
  has the effect of the frames one by one in order, up to the first that stops the buffer.\<close>

theorem h2e_aggregate:
  assumes "list_all (h2e_frame env) fs" "fs \<noteq> []"
  shows "process_rx_pkt env (concat fs @ replicate k 0) m = fw_rx_frames env fs m"
  using assms by (rule fw_rx_aggregate)

theorem h2e_aggregate_witness:
  "fm_out (process_rx_pkt w_fe (concat [esp_tx_frame 0 0 0 False [1, 2, 3, 4], esp_tx_frame 0 0 0 False [5]] @ replicate 40 0) w_main) =
     [WIFI_TX_STA [1, 2, 3, 4], WIFI_TX_STA [5]]"
proof -
  let ?f = "esp_tx_frame 0 0 0 False [1, 2, 3, 4]" and ?g = "esp_tx_frame 0 0 0 False [5]"
  have f: "list_all (h2e_frame w_fe) [?f, ?g]" by code_simp
  have e: "frame_payload ?f = [1, 2, 3, 4]" "frame_payload ?g = [5]"
    "ph_if_type (frame_header ?f) = 0" "ph_packet_type (frame_header ?f) = 0"
    "ph_if_type (frame_header ?g) = 0" "ph_packet_type (frame_header ?g) = 0" by code_simp+
  from h2e_aggregate [OF f, of 40 w_main] show ?thesis
    by (simp add: fw_rx_frame_def e fw_emit_def w_main_def)
qed

text \<open>C23: a radio-service request is all or nothing: an error leaves the running
  services, success without a flag makes them the requested ones, and a request that would stop a
  service changes nothing and asks for a restart. A radio co-processor that was started this way has
  a running bridge with a nonce and its restart worker.\<close>

theorem radio_service_atomic:
  assumes "esp_radio_service_apply env req m = Some (ret, flags, m')"
  shows "(if ret \<noteq> 0 then s_radio_service m' = s_radio_service m
     else if flags = 0 then s_radio_service m' = req
     else s_radio_service m' = s_radio_service m \<and> s_radio_service m AND NOT req \<noteq> 0) \<and>
    (ret = 0 \<and> flags = 0 \<and> req AND 2 \<noteq> 0 \<and> s_radio_service m AND 2 = 0 \<longrightarrow>
      s_bridge_enabled (fm_rcp m') \<and> s_session_nonce (fm_rcp m') \<noteq> 0 \<and> s_rcp_fatal_task (fm_rcp m'))"
  using assms by (rule radio_service_apply_atomic)

theorem radio_service_atomic_witness:
  "case esp_radio_service_apply w_fe 3 (w_main\<lparr>s_radio_service := 0, fm_rcp := bridge_boot True\<rparr>) of
     None \<Rightarrow> False | Some (ret, flags, m) \<Rightarrow> s_radio_service m = 3 \<and> s_bridge_enabled (fm_rcp m)"
proof -
  let ?m = "w_main\<lparr>s_radio_service := 0, fm_rcp := bridge_boot True\<rparr>"
  have "map_option (\<lambda>(r, f, m). (r, f)) (esp_radio_service_apply w_fe 3 ?m) = Some (0, 0)" by code_simp
  then obtain m' where r: "esp_radio_service_apply w_fe 3 ?m = Some (0, 0, m')" by auto
  from radio_service_atomic [OF r] r show ?thesis by simp
qed





section \<open>The command layer\<close>

definition w_iface :: esp_wifi_device where
  "w_iface = \<lparr>wd_if_type = 0, wd_if_num = 0,
     wd_stats = \<lparr>tx_packets = 0, tx_bytes = 0, tx_errors = 0, tx_dropped = 0, rx_packets = 0, rx_bytes = 0\<rparr>,
     port_open = True, stop_data = False, wd_ndev = True, ndev_registered = True, network_up = True,
     interface_initialized = True, queue_stopped = False\<rparr>"

definition w_host :: "esp_usb_context esp_adapter" where
  "w_host = w_open\<lparr>priv0 := Some w_iface, events_wq := True,
     state_flags := {ESP_INIT_DONE, ESP_DRIVER_ACTIVE, ESP_CMD_INIT_DONE}\<rparr>"

definition w_priv :: wifi_priv where
  "w_priv = \<lparr>mac_address = [2, 0, 0, 0, 0, 1], tx_pwr = 0, rssi = 0, country_code = [], local_disconnect_req = False,
     waiting_for_scan_done = False, scan_in_progress = False, scan_request = False, wp_bss = None, assoc_req_ie = [],
     assoc_cmd_pending = False, assoc_bssid = no_bssid, assoc_cmd_seq = 0, assoc_control_port = False,
     auth_bssid = no_bssid, auth_cmd_seq = 0, disconnect_bssid = no_bssid, disconnect_cmd_seq = 0,
     conn_generation = 0, mgmt_tx_id = 0, pending_mgmt_id = 0, pending_mgmt_cookie = 0, pending_mgmt_active = False,
     pending_mgmt_sent_at = 0, mlme_work = False, mlme_timeout_work = False, scan_timeout_work = False,
     staged_auth_q = [], staged_assoc_skb = None, staged_disconnect_skb = None, staged_assoc_seq = 0,
     mlme_wdev_held = False, auth_cmd_pending = False, disconnect_cmd_pending = False, assoc_awaiting_mlme = False,
     auth_awaiting_mlme = False, disconnect_awaiting_mlme = False, assoc_mlme_notified = False, cfg_events = []\<rparr>"

definition w_queue :: cmd_queue where
  "w_queue = snd (snd (esp_commands_setup True True w_host cmd_queue_zero))"

lemma w_queue_reachable: "cmd_reachable (esp_usb_if_ops w_env) (w_queue, True, \<lambda>_. NFree)"
proof -
  have "esp_commands_setup True True w_host cmd_queue_zero =
      (0, set_bit ESP_CMD_INIT_DONE w_host, w_queue)"
    by (simp add: w_queue_def esp_commands_setup_def alloc_esp_cmd_pool_def cmd_queue_zero_def Let_def)
  from cmd_reachable.step [OF cmd_reachable.start cmd_step.set_up [OF this]] show ?thesis by simp
qed


lemma w_queue_facts: "cmd_free_queue w_queue = [0..<20]" "cmd_pool w_queue" "cur_cmd w_queue = None"
    "cmd_pending_queue w_queue = []" "next_cmd_seq w_queue = 0" "cmd_nodes w_queue = (\<lambda>_. fresh_node)"
  unfolding w_queue_def esp_commands_setup_def Let_def by (simp_all add: alloc_pool_eq cmd_queue_zero_def)



text \<open>C20: a wait that ends without a response over USB returns an error; the command is neither
  pending nor in flight any more and its node is fresh, so a late response finds nothing to
  complete; if the request was already on the wire and could have changed the firmware, a firmware
  reset is expected from then on, unless the driver is unloading, unplugged or reconstructing.\<close>

theorem cmd_timeout:
  assumes "cmd_reachable (esp_usb_if_ops env) (q, init, ph)" "ph i = NQueued" "\<not> completed (cmd_nodes q i)"
    "wait_and_decode_cmd_resp kenv (esp_usb_if_ops env) False i p a q = (ret, p', a', q')"
  shows "ret < 0 \<and> cmd_nodes q' i = fresh_node \<and> i \<notin> set (cmd_pending_queue q') \<and> cur_cmd q' \<noteq> Some i \<and>
    (sent_at (cmd_nodes q i) \<noteq> 0 \<and> esp_cmd_timeout_is_commit_ambiguous (cmd_code (cmd_nodes q i)) \<and>
     \<not> test_bit ESP_DRIVER_UNLOADING a \<and> \<not> test_bit ESP_TRANSPORT_REMOVING a \<and> \<not> test_bit ESP_ALLOW_RECONSTRUCT a \<longrightarrow>
     test_bit ESP_FW_RESET_EXPECTED a')"
proof -
  have inv: "cmd_inv q init ph" using cmd_reachable_inv [OF assms(1)] by simp
  have restart: "test_bit ESP_FW_RESET_EXPECTED (cmd_restart kenv (esp_usb_if_ops env) a)"
    if "\<not> test_bit ESP_DRIVER_UNLOADING a" "\<not> test_bit ESP_TRANSPORT_REMOVING a"
    using usb_recovery.schedule_effect(1) [OF that refl] usb_recovery.restart_flags
    by (simp add: cmd_restart_def esp_schedule_fw_reset_recovery_def)
  note e = cmd_expired [OF inv assms(2,3,4)]
  show ?thesis using e restart by auto
qed

definition w_queued :: cmd_queue where
  "w_queued = snd (queue_cmd_node w_kenv False 0 w_host (snd (cmd_fill_request 2048 0 CMD_GET_MAC 8 0
     (upd_node 0 (\<lambda>n. n\<lparr>cmd_skb := Some []\<rparr>) (snd (take_cmd_node w_host CMD_GET_MAC w_queue))))))"

lemma w_host_flags: "test_bit ESP_CMD_INIT_DONE w_host" "esp_cmd_is_admitted w_host code" "cmd_path_open w_host"
  by (simp_all add: w_host_def w_open_def flag_defs esp_cmd_is_admitted_def cmd_path_open_def)

lemma w_queued_reachable:
  "cmd_reachable (esp_usb_if_ops w_env) (w_queued, True, (((\<lambda>_. NFree)(0 := NTaken))(0 := NReady))(0 := NQueued))"
proof -
  let ?q1 = "snd (take_cmd_node w_host CMD_GET_MAC w_queue)"
  let ?q2 = "snd (cmd_fill_request 2048 0 CMD_GET_MAC 8 0 (upd_node 0 (\<lambda>n. n\<lparr>cmd_skb := Some []\<rparr>) ?q1))"
  have up: "[0..<20] = 0 # [1..<20]" by (simp add: upt_conv_Cons)
  have t: "take_cmd_node w_host CMD_GET_MAC w_queue = (Inr 0, ?q1)"
    using w_host_flags up by (simp add: take_cmd_node_def w_queue_facts)
  have f: "cmd_fill_request 2048 0 CMD_GET_MAC 8 0 (upd_node 0 (\<lambda>n. n\<lparr>cmd_skb := Some []\<rparr>) ?q1) = (Inr 0, ?q2)"
    by (simp add: cmd_fill_request_def Let_def HDR_SIZE_def)
  have "cmd_reachable (esp_usb_if_ops w_env) (?q1, True, (\<lambda>_. NFree)(0 := NTaken))"
    by (rule cmd_reachable.step [OF w_queue_reachable cmd_step.take [OF t]]) (simp add: w_host_flags)
  then have "cmd_reachable (esp_usb_if_ops w_env) (?q2, True, ((\<lambda>_. NFree)(0 := NTaken))(0 := NReady))"
    using cmd_reachable.step [OF _ cmd_step.fill [OF _ _ f]] by fastforce
  then show ?thesis
    unfolding w_queued_def by (rule cmd_reachable.step [OF _ cmd_step.queue [OF _ prod.collapse [symmetric]]]) simp
qed

theorem cmd_timeout_witness:
  "fst (wait_and_decode_cmd_resp w_kenv (esp_usb_if_ops w_env) False 0 w_priv w_host w_queued) < 0"
proof -
  have "\<not> completed (cmd_nodes w_queued 0)"
    by (simp add: w_queued_def queue_cmd_node_def cmd_fill_request_def w_host_flags Let_def HDR_SIZE_def)
  from cmd_timeout [OF w_queued_reachable _ this, of w_kenv w_priv w_host] show ?thesis
    by (metis fun_upd_same prod.collapse)
qed

definition w_cmd_env :: "esp_usb_context cmd_env" where
  "w_cmd_env = \<lparr>ce_alloc_skb = True, ce_tailroom = 2048, ce_kenv = w_kenv, ce_ops = esp_usb_if_ops w_env,
     ce_meanwhile = id, ce_woken = False\<rparr>"

definition w_fc :: fw_cmd_env where
  "w_fc = \<lparr>fc_env = w_fe, fc_malloc = True, fc_high_queue = True, fc_spi = False, fc_handler = (\<lambda>_ _ _ m. (0, m))\<rparr>"






definition w_radio_frame :: bytes where
  "w_radio_frame = request_frame 0 1 (RqSetRadio 2)"

definition w_answer :: bytes where
  "w_answer = bh_payload (last (to_host_high (snd (the (esp_cmd_dispatch w_fc 0 (drop HDR_SIZE w_radio_frame) w_main)))))"

definition w_api :: "esp_usb_context api_env" where
  "w_api = \<lparr>ae_cmd = w_cmd_env\<lparr>ce_meanwhile := (\<lambda>(p, a, q).
       let (a, q) = esp_cmd_work w_kenv (esp_usb_if_ops w_env) a q in (p, a, snd (process_cmd_resp w_answer a q)))\<rparr>,
     ae_mlme = \<lparr>me_kenv = w_kenv, me_ops = esp_usb_if_ops w_env, me_wiphy = True, me_current_bss = False, me_copy = True,
       me_channel = (\<lambda>_. True), me_station = True\<rparr>, ae_kmemdup = True\<rparr>"





section \<open>Events of the firmware\<close>

text \<open>C15: in every interleaving of commands, events, deliveries, timeouts and cancellations cfg80211 gets
  at most one authentication answer for each authentication command that was begun and at most one
  association answer for each association command, and at most eight authentication events are
  staged.\<close>

theorem mlme_once:
  assumes "mlme_reachable ((p, a), n, k)"
  shows "length (filter is_auth (cfg_events p)) \<le> n \<and> length (filter is_assoc (cfg_events p)) \<le> k \<and>
    length (staged_auth_q p) \<le> 8"
  using mlme_reachable_due [OF assms] by (auto simp: auth_due_def assoc_due_def)

lemma w_mlme_reachable: "mlme_reachable ((esp_mlme_begin ESP_MLME_AUTH (w_priv\<lparr>auth_bssid := b, auth_cmd_seq := 5\<rparr>), w_host), 1, 0)"
proof -
  have "mlme_reachable ((w_priv, w_host), 0, 0)" by (rule mlme_reachable.start) (simp_all add: w_priv_def)
  from mlme_reachable.step [OF this mlme_step.auth_begin, of b 5] show ?thesis
    by (simp add: auth_request_begin_def w_priv_def)
qed

theorem mlme_once_witness:
  "length (filter is_auth (cfg_events (esp_mlme_begin ESP_MLME_AUTH (w_priv\<lparr>auth_bssid := no_bssid, auth_cmd_seq := 5\<rparr>)))) \<le> 1"
  using mlme_once [OF w_mlme_reachable] by blast


definition w_auth_event :: bytes where
  "w_auth_event = [4, 0, 0, 0, 9, 9, 9, 9, 9, 9] @ replicate 14 0 @ [2, 0, 5, 0, 7, 8]"


text \<open>C27: an authentication event that answers the running command and arrives before the
  command returns is not reported until the result is known; after a successful command the
  MLME worker reports exactly this frame, once; after a failed one it is never reported.\<close>

theorem mlme_answer_waits:
  assumes "auth_cmd_pending p" "auth_answer skb p" "staged_auth_q p = []" "staged_assoc_skb p = None"
      "staged_disconnect_skb p = None"
    "has_ndev a" "events_wq a" "\<not> test_bit ESP_CLEANUP_IN_PROGRESS a" "\<not> test_bit ESP_DRIVER_UNLOADING a" "me_copy env"
    "process_auth_event env skb (p, a) = s1" "esp_mlme_end env ESP_MLME_AUTH ok s1 = s2" "esp_mlme_work env s2 = s3"
  shows "cfg_events (fst s2) = cfg_events p \<and>
    cfg_events (fst s3) = cfg_events p @ (if ok then [CFG_RX_AUTH (auth_event_frame skb)] else []) \<and> auth_cmd_seq (fst s3) = 0"
  using auth_during_command [OF assms] by blast

theorem mlme_answer_waits_witness:
  "cfg_events (fst (esp_mlme_work (ae_mlme w_api) (esp_mlme_end (ae_mlme w_api) ESP_MLME_AUTH True
     (process_auth_event (ae_mlme w_api) w_auth_event
       (w_priv\<lparr>auth_cmd_pending := True, auth_cmd_seq := 5, auth_bssid := [9, 9, 9, 9, 9, 9]\<rparr>, w_host))))) = [CFG_RX_AUTH [7, 8]]"
proof -
  let ?p = "w_priv\<lparr>auth_cmd_pending := True, auth_cmd_seq := 5, auth_bssid := [9, 9, 9, 9, 9, 9]\<rparr>"
  have seq: "auth_event_seq w_auth_event = 5" by code_simp
  have ok: "auth_event_ok w_auth_event" by code_simp
  have fr: "auth_event_frame w_auth_event = [7, 8]" by code_simp
  have "event_bssid w_auth_event = [9, 9, 9, 9, 9, 9]" by code_simp
  with seq ok have "auth_answer w_auth_event ?p" by (simp add: auth_answer_def)
  from mlme_answer_waits [OF _ this _ _ _ _ _ _ _ _ refl refl refl, of w_host "ae_mlme w_api" True] show ?thesis
    by (simp add: w_priv_def w_host_def w_open_def w_iface_def has_ndev_def flag_defs w_api_def fr)
qed

end
